theory Spec2Isabelle
  imports Main "HOL-Library.Word"
begin

section \<open>Errors and checked accesses\<close>

text \<open>
  The C++ sources fail in three ways: \<^verbatim>\<open>throw std::runtime_error(msg)\<close>, a failed
  \<^verbatim>\<open>assert(expr)\<close> (assertions enabled), and an access outside a container (an
  Eigen index assertion, or undefined behaviour on a \<^verbatim>\<open>std::vector\<close>).  Each is a
  value of \<open>error\<close>; a computation that can fail returns \<open>error + 'a\<close>.
  Dereferencing a null \<^verbatim>\<open>shared_ptr\<close> is \<open>NullPointer\<close>.
  Indices and sizes are \<^verbatim>\<open>int\<close>/\<^verbatim>\<open>std::int32_t\<close> in the source and \<open>int\<close> here.
  The one sum of two sizes, in \<^verbatim>\<open>Mesh::num_entities\<close>, is written with its 32-bit
  wrap-around; index arithmetic on containers that fit in memory stays in range.
\<close>

datatype error =
    RuntimeError string
  | AssertionFailed string
  | OutOfRange
  | NullPointer

definition ebind :: "error + 'a \<Rightarrow> ('a \<Rightarrow> error + 'b) \<Rightarrow> error + 'b" where
  "ebind r f = (case r of Inl e \<Rightarrow> Inl e | Inr v \<Rightarrow> f v)"

definition assert_that :: "bool \<Rightarrow> string \<Rightarrow> error + unit" where
  "assert_that b expr = (if b then Inr () else Inl (AssertionFailed expr))"

definition at :: "'a list \<Rightarrow> int \<Rightarrow> error + 'a" where
  "at xs i = (if 0 \<le> i \<and> i < int (length xs) then Inr (xs ! nat i) else Inl OutOfRange)"

fun mapE :: "('a \<Rightarrow> error + 'b) \<Rightarrow> 'a list \<Rightarrow> error + 'b list" where
  "mapE f [] = Inr []"
| "mapE f (x # xs) = ebind (f x) (\<lambda>y. ebind (mapE f xs) (\<lambda>ys. Inr (y # ys)))"

fun foldE :: "('s \<Rightarrow> 'a \<Rightarrow> error + 's) \<Rightarrow> 's \<Rightarrow> 'a list \<Rightarrow> error + 's" where
  "foldE f s [] = Inr s"
| "foldE f s (x # xs) = ebind (f s x) (\<lambda>s'. foldE f s' xs)"

text \<open>\<^verbatim>\<open>std::to_string(int)\<close>: decimal digits, a minus sign for negative values.\<close>

definition digit_char :: "nat \<Rightarrow> char" where
  "digit_char n = ''0123456789'' ! n"

function to_string_nat :: "nat \<Rightarrow> string" where
  "to_string_nat n =
     (if n < 10 then [digit_char n] else to_string_nat (n div 10) @ [digit_char (n mod 10)])"
  by pat_completeness auto
termination
  by (relation "measure (\<lambda>n. n)") auto

definition to_string :: "int \<Rightarrow> string" where
  "to_string i = (if i < 0 then CHR ''-'' # to_string_nat (nat (- i)) else to_string_nat (nat i))"

section \<open>Data model\<close>

text \<open>
  \<^verbatim>\<open>graph::AdjacencyList<std::int32_t>\<close>: row \<open>i\<close> is \<^verbatim>\<open>links(i)\<close>, its length
  \<^verbatim>\<open>num_links(i)\<close>.  \<^verbatim>\<open>common::IndexMap\<close> is read through four getters.
\<close>

type_synonym AdjacencyList = "int list list"

definition links :: "AdjacencyList \<Rightarrow> int \<Rightarrow> error + int list" where
  "links a i = at a i"

definition num_links :: "AdjacencyList \<Rightarrow> int \<Rightarrow> error + int" where
  "num_links a i = ebind (at a i) (\<lambda>row. Inr (int (length row)))"

record IndexMap =
  size_local :: int
  num_ghosts :: int
  size_global :: int
  block_size :: int

text \<open>
  Modelled from the spec: the class \<^verbatim>\<open>Topology\<close> (its header and implementation are
  not among the sources).  Per dimension an optional index map, per ordered pair of
  dimensions an optional adjacency list (a null \<^verbatim>\<open>shared_ptr\<close> is \<open>None\<close>: "not yet
  computed"), one permutation bitmask per cell, one permutation byte per
  (local facet, cell), one interior flag per facet.  The setters store their argument
  in the slot they name.
\<close>

record Topology =
  t_dim :: int
  connectivity :: "int \<times> int \<Rightarrow> AdjacencyList option"
  index_map :: "int \<Rightarrow> IndexMap option"
  cell_permutation_info :: "32 word list"
  facet_permutations :: "8 word list list"
  interior_facets :: "bool list"

definition set_connectivity :: "Topology \<Rightarrow> AdjacencyList \<Rightarrow> int \<Rightarrow> int \<Rightarrow> Topology" where
  "set_connectivity t c d0 d1 = t\<lparr>connectivity := (connectivity t)((d0, d1) \<mapsto> c)\<rparr>"

definition set_index_map :: "Topology \<Rightarrow> int \<Rightarrow> IndexMap \<Rightarrow> Topology" where
  "set_index_map t d m = t\<lparr>index_map := (index_map t)(d \<mapsto> m)\<rparr>"

definition set_interior_facets :: "Topology \<Rightarrow> bool list \<Rightarrow> Topology" where
  "set_interior_facets t f = t\<lparr>interior_facets := f\<rparr>"

text \<open>
  \<^verbatim>\<open>Geometry\<close>: the geometric dimension, the coordinate dofmap (cell to geometry
  nodes) and the node coordinates, one row of three components per node.  The
  coordinates are only copied, never computed with, so their type is a parameter.
\<close>

record 'r Geometry =
  g_dim :: int
  dofmap :: AdjacencyList
  x :: "'r list list"

record 'r Mesh =
  topology :: Topology
  geometry :: "'r Geometry"

text \<open>
  The computations the mesh delegates to, none of them among the sources; they are
  parameters of the model.  \<open>compute_entities\<close> and \<open>compute_connectivity\<close> are the
  functions of \<^verbatim>\<open>TopologyComputation\<close> (the communicator is left out: one process),
  \<open>compute_interior_facets\<close> the helper of that name, and
  \<open>topology_create_entity_permutations\<close> the member
  \<^verbatim>\<open>Topology::create_entity_permutations\<close>.  A null result is \<open>None\<close>.
\<close>

record TopologyComputation =
  compute_entities ::
    "Topology \<Rightarrow> int \<Rightarrow> AdjacencyList option \<times> AdjacencyList option \<times> IndexMap option"
  compute_connectivity ::
    "Topology \<Rightarrow> int \<Rightarrow> int \<Rightarrow> AdjacencyList option \<times> AdjacencyList option"
  compute_interior_facets :: "Topology \<Rightarrow> bool list"
  topology_create_entity_permutations :: "Topology \<Rightarrow> Topology"

section \<open>Mesh.cpp\<close>

text \<open>
  \<^verbatim>\<open>Mesh::num_entities\<close>: throws when the index map of the dimension is null.  The
  result is the sum of two \<^verbatim>\<open>std::int32_t\<close> returned as \<^verbatim>\<open>std::int32_t\<close>: the
  addition of 32-bit words, read as a signed number.
\<close>

definition not_created_message :: "int \<Rightarrow> string" where
  "not_created_message d =
     ''Cannot get number of mesh entities. Have not been created for dimension ''
       @ to_string d @ ''.''"

definition num_entities :: "'r Mesh \<Rightarrow> int \<Rightarrow> error + int" where
  "num_entities m d =
     (case index_map (topology m) d of
        None \<Rightarrow> Inl (RuntimeError (not_created_message d))
      | Some imap \<Rightarrow>
          ebind (assert_that (block_size imap = 1) ''map->block_size() == 1'')
            (\<lambda>_. Inr (sint (word_of_int (size_local imap) + word_of_int (num_ghosts imap)
                              :: 32 word))))"

text \<open>
  \<^verbatim>\<open>Mesh::create_entities\<close>.  The member mutates the topology the mesh owns, so the
  model takes the topology and returns the value together with the new topology.  A
  null \<open>index_map\<close> is dereferenced by the \<^verbatim>\<open>return\<close> statement.
\<close>

definition create_entities ::
  "TopologyComputation \<Rightarrow> Topology \<Rightarrow> int \<Rightarrow> error + (int \<times> Topology)" where
  "create_entities tc t d =
     (if connectivity t (d, 0) \<noteq> None then Inr (- 1, t)
      else
        (case compute_entities tc t d of (cell_entity, entity_vertex, imap) \<Rightarrow>
           let t1 = (case cell_entity of None \<Rightarrow> t
                     | Some c \<Rightarrow> set_connectivity t c (t_dim t) d);
               t2 = (case entity_vertex of None \<Rightarrow> t1
                     | Some c \<Rightarrow> set_connectivity t1 c d 0);
               t3 = (case imap of None \<Rightarrow> t2 | Some im \<Rightarrow> set_index_map t2 d im)
           in (case imap of None \<Rightarrow> Inl NullPointer
               | Some im \<Rightarrow> Inr (size_local im, t3))))"

text \<open>\<^verbatim>\<open>Mesh::create_connectivity\<close>.\<close>

definition create_connectivity ::
  "TopologyComputation \<Rightarrow> Topology \<Rightarrow> int \<Rightarrow> int \<Rightarrow> error + Topology" where
  "create_connectivity tc t d0 d1 =
     ebind (create_entities tc t d0) (\<lambda>(_, ta).
     ebind (create_entities tc ta d1) (\<lambda>(_, tb).
       (case compute_connectivity tc tb d0 d1 of (c_d0_d1, c_d1_d0) \<Rightarrow>
          let t1 = (case c_d0_d1 of None \<Rightarrow> tb | Some c \<Rightarrow> set_connectivity tb c d0 d1);
              t2 = (case c_d1_d0 of None \<Rightarrow> t1 | Some c \<Rightarrow> set_connectivity t1 c d1 d0)
          in Inr (if d0 = t_dim t2 - 1 \<and> d1 = t_dim t2
                  then set_interior_facets t2 (compute_interior_facets tc t2)
                  else t2))))"

text \<open>
  \<^verbatim>\<open>Mesh::create_entity_permutations\<close>: entities of every dimension below \<open>tdim\<close>,
  in increasing order, then the topology's own permutation computation.
\<close>

definition create_entity_permutations ::
  "TopologyComputation \<Rightarrow> Topology \<Rightarrow> error + Topology" where
  "create_entity_permutations tc t =
     ebind (foldE (\<lambda>s d. ebind (create_entities tc s d) (\<lambda>(_, s'). Inr s'))
              t (map int [0..<nat (t_dim t)]))
       (\<lambda>s. Inr (topology_create_entity_permutations tc s))"

text \<open>
  \<^verbatim>\<open>cell_h\<close>, \<^verbatim>\<open>cell_r\<close> and the four extremal metrics.  \<^verbatim>\<open>mesh::h\<close> and
  \<^verbatim>\<open>mesh::inradius\<close> are not among the sources: they are the parameters \<open>h\<close> and
  \<open>inradius\<close>, returning one value per requested cell.  The values are only compared,
  so their type is any linear order.  \<^verbatim>\<open>minCoeff\<close> and \<^verbatim>\<open>maxCoeff\<close> of an empty
  array fail Eigen's size assertion; a negative size fails the array's allocation.
\<close>

definition iota_cells :: "int \<Rightarrow> error + int list" where
  "iota_cells num_cells =
     (if num_cells < 0 then Inl OutOfRange else Inr (map int [0..<nat num_cells]))"

definition cell_h ::
  "('r Mesh \<Rightarrow> int list \<Rightarrow> int \<Rightarrow> 'h list) \<Rightarrow> 'r Mesh \<Rightarrow> error + 'h list" where
  "cell_h h m =
     (let dim = t_dim (topology m) in
      ebind (num_entities m dim) (\<lambda>num_cells.
        if num_cells = 0 then Inl (RuntimeError ''Cannot compute h min/max. No cells.'')
        else ebind (iota_cells num_cells) (\<lambda>cells. Inr (h m cells dim))))"

definition cell_r ::
  "('r Mesh \<Rightarrow> int list \<Rightarrow> 'h list) \<Rightarrow> 'r Mesh \<Rightarrow> error + 'h list" where
  "cell_r inradius m =
     (let dim = t_dim (topology m) in
      ebind (num_entities m dim) (\<lambda>num_cells.
        if num_cells = 0
        then Inl (RuntimeError ''Cannnot compute inradius min/max. No cells.'')
        else ebind (iota_cells num_cells) (\<lambda>cells. Inr (inradius m cells))))"

definition minCoeff :: "('h::linorder) list \<Rightarrow> error + 'h" where
  "minCoeff xs = (case xs of [] \<Rightarrow> Inl OutOfRange | y # ys \<Rightarrow> Inr (fold min ys y))"

definition maxCoeff :: "('h::linorder) list \<Rightarrow> error + 'h" where
  "maxCoeff xs = (case xs of [] \<Rightarrow> Inl OutOfRange | y # ys \<Rightarrow> Inr (fold max ys y))"

definition hmin ::
  "('r Mesh \<Rightarrow> int list \<Rightarrow> int \<Rightarrow> ('h::linorder) list) \<Rightarrow> 'r Mesh \<Rightarrow> error + 'h" where
  "hmin h m = ebind (cell_h h m) minCoeff"

definition hmax ::
  "('r Mesh \<Rightarrow> int list \<Rightarrow> int \<Rightarrow> ('h::linorder) list) \<Rightarrow> 'r Mesh \<Rightarrow> error + 'h" where
  "hmax h m = ebind (cell_h h m) maxCoeff"

definition rmin ::
  "('r Mesh \<Rightarrow> int list \<Rightarrow> ('h::linorder) list) \<Rightarrow> 'r Mesh \<Rightarrow> error + 'h" where
  "rmin inradius m = ebind (cell_r inradius m) minCoeff"

definition rmax ::
  "('r Mesh \<Rightarrow> int list \<Rightarrow> ('h::linorder) list) \<Rightarrow> 'r Mesh \<Rightarrow> error + 'h" where
  "rmax inradius m = ebind (cell_r inradius m) maxCoeff"

section \<open>assemble\_scalar\_impl.h\<close>

text \<open>
  The kernel \<^verbatim>\<open>fn(T* A, const T* w, const T* c, const double* coordinate_dofs,
  const int* local_facet, const std::uint8_t* perm, std::uint32_t cell_permutation)\<close>
  is a pure function of its inputs with one effect, on \<^verbatim>\<open>*A\<close>: it maps the
  accumulator before the call to the accumulator after it.  A null pointer is \<open>None\<close>.
  The scalar type \<^verbatim>\<open>T\<close> is the type variable \<open>'a\<close>, with the zero of
  \<^verbatim>\<open>T value(0)\<close> and the addition of \<^verbatim>\<open>value += ...\<close>.
\<close>

subsection \<open>The scalar type double\<close>

text \<open>
  \<^verbatim>\<open>T\<close> is \<^verbatim>\<open>double\<close> (or \<^verbatim>\<open>std::complex<double>\<close>) where the assembler is used:
  the sum is "a plain running sum in the kernel's output type (real or complex
  scalar)".  Every finite binary64 value is an integer multiple of \<open>2 ^ - 1074\<close> whose magnitude
  has at most 53 significant bits: \<open>Binary64 n\<close> stands for \<open>n * 2 ^ - 1074\<close>.  The sum
  of two such values is their exact sum rounded to 53 significant bits, to the nearest
  value and to the even significand on a tie (the default rounding of IEEE 754);
  multiples with 53 bits or fewer, the subnormal numbers among them, are not rounded.
  Sums of magnitude \<open>2 ^ 1024\<close> and more (infinity) and NaN are not modelled.
\<close>

function significant_bits :: "nat \<Rightarrow> nat" where
  "significant_bits n = (if n = 0 then 0 else Suc (significant_bits (n div 2)))"
  by pat_completeness auto
termination
  by (relation "measure (\<lambda>n. n)") auto

definition round_binary64 :: "int \<Rightarrow> int" where
  "round_binary64 v =
     (let e = significant_bits (nat \<bar>v\<bar>) - 53;
          q = \<bar>v\<bar> div 2 ^ e;
          r = \<bar>v\<bar> mod 2 ^ e
      in sgn v * (if 2 ^ e < 2 * r \<or> (2 * r = 2 ^ e \<and> odd q) then q + 1 else q) * 2 ^ e)"

datatype binary64 = Binary64 int

instantiation binary64 :: "{zero, plus}"
begin

definition zero_binary64 :: binary64 where
  "zero_binary64 = Binary64 0"

fun plus_binary64 :: "binary64 \<Rightarrow> binary64 \<Rightarrow> binary64" where
  "plus_binary64 (Binary64 a) (Binary64 b) = Binary64 (round_binary64 (a + b))"

instance ..

end

subsection \<open>Kernels, arrays and forms\<close>

type_synonym ('a, 'r) kernel =
  "'a \<Rightarrow> 'a list \<Rightarrow> 'a list \<Rightarrow> 'r list list \<Rightarrow> int list option \<Rightarrow> 8 word list option
     \<Rightarrow> 32 word \<Rightarrow> 'a"

text \<open>A row-major \<^verbatim>\<open>Eigen::Array<T, Dynamic, Dynamic>\<close>: its column count and rows.\<close>

record 'a Array2D =
  cols :: int
  rowdata :: "'a list list"

definition row :: "'a Array2D \<Rightarrow> int \<Rightarrow> error + 'a list" where
  "row A i = at (rowdata A) i"

datatype IntegralType = cell | exterior_facet | interior_facet

text \<open>
  Modelled from the spec: the class \<^verbatim>\<open>Form\<close> with its \<^verbatim>\<open>FormIntegrals\<close> and
  \<^verbatim>\<open>FormCoefficients\<close> (none among the sources).  A form has a mesh pointer, which
  may be null, named constants, each with a value or unset, the packed coefficient
  array that \<^verbatim>\<open>pack_coefficients\<close> returns with the column offsets of
  the coefficients, and per integral kind a list of integrals, each a kernel with its
  active entities.  All constants are set when none lacks a value.
\<close>

record ('a, 'r) Form =
  mesh :: "'r Mesh option"
  constants :: "(string \<times> 'a list option) list"
  pack_coefficients :: "'a Array2D"
  coefficient_offsets :: "int list"
  integrals :: "IntegralType \<Rightarrow> (('a, 'r) kernel \<times> int list) list"

definition all_constants_set :: "('a, 'r) Form \<Rightarrow> bool" where
  "all_constants_set M = list_all (\<lambda>c. snd c \<noteq> None) (constants M)"

text \<open>Eigen's \<^verbatim>\<open>head(n)\<close>, \<^verbatim>\<open>perms(i, j)\<close>, and an array allocated with \<open>n\<close> entries.\<close>

definition head_n :: "'r list \<Rightarrow> int \<Rightarrow> error + 'r list" where
  "head_n v n = (if 0 \<le> n \<and> n \<le> int (length v) then Inr (take (nat n) v) else Inl OutOfRange)"

definition at2 :: "'a list list \<Rightarrow> int \<Rightarrow> int \<Rightarrow> error + 'a" where
  "at2 A i j = ebind (at A i) (\<lambda>r. at r j)"

definition allocate :: "int \<Rightarrow> error + unit" where
  "allocate n = (if n < 0 then Inl OutOfRange else Inr ())"

text \<open>
  \<^verbatim>\<open>dst.segment(start, n) = src.segment(sstart, n)\<close>: both segments must lie inside
  their arrays.
\<close>

definition segment_assign ::
  "'a list \<Rightarrow> int \<Rightarrow> 'a list \<Rightarrow> int \<Rightarrow> int \<Rightarrow> error + 'a list" where
  "segment_assign dst start src sstart n =
     (if 0 \<le> n \<and> 0 \<le> start \<and> start + n \<le> int (length dst)
         \<and> 0 \<le> sstart \<and> sstart + n \<le> int (length src)
      then Inr (take (nat start) dst @ take (nat n) (drop (nat sstart) src)
                  @ drop (nat (start + n)) dst)
      else Inl OutOfRange)"

text \<open>
  \<^verbatim>\<open>std::find\<close> over a cell's facets: the position of the first match, or the
  length (the end iterator) when there is none; then the assertion and
  \<^verbatim>\<open>std::distance\<close>.
\<close>

fun std_find :: "int list \<Rightarrow> int \<Rightarrow> nat" where
  "std_find [] v = 0"
| "std_find (y # ys) v = (if y = v then 0 else Suc (std_find ys v))"

definition local_facet_index :: "AdjacencyList \<Rightarrow> int \<Rightarrow> int \<Rightarrow> error + int" where
  "local_facet_index c_to_f cell_id f =
     ebind (links c_to_f cell_id) (\<lambda>facets.
       let it = std_find facets f in
       ebind (assert_that (it \<noteq> length facets) ''it != (facets.data() + facets.rows())'')
         (\<lambda>_. Inr (int it)))"

text \<open>
  The coordinate gather \<^verbatim>\<open>coordinate_dofs.row(i) = x_g.row(x_dofs[i]).head(gdim)\<close>
  for \<open>i < num_dofs_g\<close>.  Every row of the buffer is overwritten in every iteration of
  the entity loop, so the buffer is built afresh.
\<close>

definition gather_coordinate_dofs ::
  "'r Geometry \<Rightarrow> int \<Rightarrow> int list \<Rightarrow> error + 'r list list" where
  "gather_coordinate_dofs g num_dofs_g x_dofs =
     mapE (\<lambda>i. ebind (at x_dofs i) (\<lambda>node.
                ebind (at (x g) node) (\<lambda>xrow. head_n xrow (g_dim g))))
          (map int [0..<nat num_dofs_g])"

text \<open>
  The dispatchers call \<^verbatim>\<open>create_entities\<close>, \<^verbatim>\<open>create_connectivity\<close> and
  \<^verbatim>\<open>create_entity_permutations\<close> on \<^verbatim>\<open>mesh.topology_mutable()\<close>; these are the
  operations of Mesh.cpp above, applied to the topology of the mesh.
\<close>

subsection \<open>Cells\<close>

text \<open>
  The body of the cell loop, in two parts: what is read for cell \<open>c\<close> (the coefficient
  row, the coordinates, the permutation bitmask), then the one call of the kernel.
\<close>

definition cell_arguments ::
  "'r Geometry \<Rightarrow> int \<Rightarrow> 32 word list \<Rightarrow> 'a Array2D \<Rightarrow> int
     \<Rightarrow> error + ('a list \<times> 'r list list \<times> 32 word)" where
  "cell_arguments g num_dofs_g cell_info coeffs c =
     ebind (links (dofmap g) c) (\<lambda>x_dofs.
     ebind (gather_coordinate_dofs g num_dofs_g x_dofs) (\<lambda>coordinate_dofs.
     ebind (row coeffs c) (\<lambda>coeff_cell.
     ebind (at cell_info c) (\<lambda>info.
       Inr (coeff_cell, coordinate_dofs, info)))))"

definition assemble_cells_body ::
  "'r Geometry \<Rightarrow> int \<Rightarrow> 32 word list \<Rightarrow> ('a, 'r) kernel \<Rightarrow> 'a Array2D \<Rightarrow> 'a list
     \<Rightarrow> 'a \<Rightarrow> int \<Rightarrow> error + 'a" where
  "assemble_cells_body g num_dofs_g cell_info fn coeffs constant_values value c =
     ebind (cell_arguments g num_dofs_g cell_info coeffs c)
       (\<lambda>(coeff_cell, coordinate_dofs, info).
          Inr (fn value coeff_cell constant_values coordinate_dofs None None info))"

definition assemble_cells ::
  "TopologyComputation \<Rightarrow> 'r Mesh \<Rightarrow> int list \<Rightarrow> ('a::zero, 'r) kernel \<Rightarrow> 'a Array2D
     \<Rightarrow> 'a list \<Rightarrow> error + ('a \<times> 'r Mesh)" where
  "assemble_cells tc msh active_cells fn coeffs constant_values =
     (let gdim = g_dim (geometry msh); tdim = t_dim (topology msh) in
      ebind (create_entities tc (topology msh) tdim) (\<lambda>(_, t1).
      ebind (create_entity_permutations tc t1) (\<lambda>t2.
      ebind (num_links (dofmap (geometry msh)) 0) (\<lambda>num_dofs_g.
      ebind (allocate gdim) (\<lambda>_.
      ebind (foldE (assemble_cells_body (geometry msh) num_dofs_g
                      (cell_permutation_info t2) fn coeffs constant_values)
               0 active_cells) (\<lambda>value.
        Inr (value, msh\<lparr>topology := t2\<rparr>)))))))"

subsection \<open>Exterior facets\<close>

definition exterior_facet_arguments ::
  "'r Geometry \<Rightarrow> int \<Rightarrow> Topology \<Rightarrow> AdjacencyList \<Rightarrow> AdjacencyList \<Rightarrow> 'a Array2D \<Rightarrow> int
     \<Rightarrow> error + ('a list \<times> 'r list list \<times> int \<times> 8 word \<times> 32 word)" where
  "exterior_facet_arguments g num_dofs_g t f_to_c c_to_f coeffs facet =
     ebind (num_links f_to_c facet) (\<lambda>n.
     ebind (assert_that (n = 1) ''f_to_c->num_links(facet) == 1'') (\<lambda>_.
     ebind (links f_to_c facet) (\<lambda>cs.
     ebind (at cs 0) (\<lambda>cell_id.
     ebind (local_facet_index c_to_f cell_id facet) (\<lambda>local_facet.
     ebind (links (dofmap g) cell_id) (\<lambda>x_dofs.
     ebind (gather_coordinate_dofs g num_dofs_g x_dofs) (\<lambda>coordinate_dofs.
     ebind (row coeffs cell_id) (\<lambda>coeff_cell.
     ebind (at2 (facet_permutations t) local_facet cell_id) (\<lambda>perm.
     ebind (at (cell_permutation_info t) cell_id) (\<lambda>info.
       Inr (coeff_cell, coordinate_dofs, local_facet, perm, info)))))))))))"

definition assemble_exterior_facets_body ::
  "'r Geometry \<Rightarrow> int \<Rightarrow> Topology \<Rightarrow> AdjacencyList \<Rightarrow> AdjacencyList \<Rightarrow> ('a, 'r) kernel
     \<Rightarrow> 'a Array2D \<Rightarrow> 'a list \<Rightarrow> 'a \<Rightarrow> int \<Rightarrow> error + 'a" where
  "assemble_exterior_facets_body g num_dofs_g t f_to_c c_to_f fn coeffs constant_values
       value facet =
     ebind (exterior_facet_arguments g num_dofs_g t f_to_c c_to_f coeffs facet)
       (\<lambda>(coeff_cell, coordinate_dofs, local_facet, perm, info).
          Inr (fn value coeff_cell constant_values coordinate_dofs
                 (Some [local_facet]) (Some [perm]) info))"

definition require_connectivity :: "Topology \<Rightarrow> int \<Rightarrow> int \<Rightarrow> string \<Rightarrow> error + AdjacencyList" where
  "require_connectivity t d0 d1 expr =
     (case connectivity t (d0, d1) of None \<Rightarrow> Inl (AssertionFailed expr) | Some c \<Rightarrow> Inr c)"

definition assemble_exterior_facets ::
  "TopologyComputation \<Rightarrow> 'r Mesh \<Rightarrow> int list \<Rightarrow> ('a::zero, 'r) kernel \<Rightarrow> 'a Array2D
     \<Rightarrow> 'a list \<Rightarrow> error + ('a \<times> 'r Mesh)" where
  "assemble_exterior_facets tc msh active_facets fn coeffs constant_values =
     (let gdim = g_dim (geometry msh); tdim = t_dim (topology msh) in
      ebind (create_entities tc (topology msh) (tdim - 1)) (\<lambda>(_, t1).
      ebind (create_connectivity tc t1 (tdim - 1) tdim) (\<lambda>t2.
      ebind (create_entity_permutations tc t2) (\<lambda>t3.
      ebind (num_links (dofmap (geometry msh)) 0) (\<lambda>num_dofs_g.
      ebind (allocate gdim) (\<lambda>_.
      ebind (require_connectivity t3 (tdim - 1) tdim ''f_to_c'') (\<lambda>f_to_c.
      ebind (require_connectivity t3 tdim (tdim - 1) ''c_to_f'') (\<lambda>c_to_f.
      ebind (foldE (assemble_exterior_facets_body (geometry msh) num_dofs_g t3 f_to_c c_to_f
                      fn coeffs constant_values)
               0 active_facets) (\<lambda>value.
        Inr (value, msh\<lparr>topology := t3\<rparr>))))))))))"

subsection \<open>Interior facets\<close>

text \<open>
  The coefficient loop of one facet: for each coefficient \<open>i\<close> the slice of side 0 is
  written at \<open>2 * offsets[i]\<close> and the slice of side 1 at \<open>offsets[i + 1] + offsets[i]\<close>.
  The loop runs over \<open>i < offsets.size() - 1\<close>; \<open>offsets\<close> is not empty there (the
  dispatcher has read \<^verbatim>\<open>offsets.back()\<close>).
\<close>

definition pack_restricted_step ::
  "int list \<Rightarrow> 'a list \<Rightarrow> 'a list \<Rightarrow> 'a list \<Rightarrow> nat \<Rightarrow> error + 'a list" where
  "pack_restricted_step offsets coeff_cell0 coeff_cell1 coeff_array i =
     ebind (at offsets (int i)) (\<lambda>o_i.
     ebind (at offsets (int i + 1)) (\<lambda>o_i1.
       let num_entries = o_i1 - o_i in
       ebind (segment_assign coeff_array (2 * o_i) coeff_cell0 o_i num_entries) (\<lambda>a.
         segment_assign a (o_i1 + o_i) coeff_cell1 o_i num_entries)))"

definition pack_restricted ::
  "int list \<Rightarrow> 'a list \<Rightarrow> 'a list \<Rightarrow> 'a list \<Rightarrow> error + 'a list" where
  "pack_restricted offsets coeff_cell0 coeff_cell1 coeff_array =
     foldE (pack_restricted_step offsets coeff_cell0 coeff_cell1) coeff_array
       [0..<length offsets - 1]"

text \<open>
  The body of the facet loop.  \<open>coeff_array\<close> is allocated once, before the loop, and
  written in every iteration: it is part of the loop state, next to \<open>value\<close>.  As for
  cells, the body is what is read for facet \<open>f\<close>, then the one call of the kernel.
\<close>

definition interior_facet_arguments ::
  "'r Geometry \<Rightarrow> int \<Rightarrow> Topology \<Rightarrow> AdjacencyList \<Rightarrow> AdjacencyList \<Rightarrow> 'a Array2D
     \<Rightarrow> int list \<Rightarrow> 'a list \<Rightarrow> int
     \<Rightarrow> error + ('a list \<times> 'r list list \<times> int list \<times> 8 word list \<times> 32 word)" where
  "interior_facet_arguments g num_dofs_g t f_to_c c_to_f coeffs offsets coeff_array f =
     ebind (links f_to_c f) (\<lambda>cells.
     ebind (assert_that (length cells = 2) ''cells.rows() == 2'') (\<lambda>_.
     ebind (at cells 0) (\<lambda>cell0.
     ebind (at cells 1) (\<lambda>cell1.
     ebind (local_facet_index c_to_f cell0 f) (\<lambda>local_facet0.
     ebind (local_facet_index c_to_f cell1 f) (\<lambda>local_facet1.
     ebind (at2 (facet_permutations t) local_facet0 cell0) (\<lambda>perm0.
     ebind (at2 (facet_permutations t) local_facet1 cell1) (\<lambda>perm1.
     ebind (links (dofmap g) cell0) (\<lambda>x_dofs0.
     ebind (links (dofmap g) cell1) (\<lambda>x_dofs1.
     ebind (gather_coordinate_dofs g num_dofs_g x_dofs0) (\<lambda>rows0.
     ebind (gather_coordinate_dofs g num_dofs_g x_dofs1) (\<lambda>rows1.
     ebind (row coeffs cell0) (\<lambda>coeff_cell0.
     ebind (row coeffs cell1) (\<lambda>coeff_cell1.
     ebind (pack_restricted offsets coeff_cell0 coeff_cell1 coeff_array) (\<lambda>coeff_array'.
     ebind (at (cell_permutation_info t) cell0) (\<lambda>info.
       Inr (coeff_array', rows0 @ rows1, [local_facet0, local_facet1], [perm0, perm1],
            info)))))))))))))))))"

definition assemble_interior_facets_body ::
  "'r Geometry \<Rightarrow> int \<Rightarrow> Topology \<Rightarrow> AdjacencyList \<Rightarrow> AdjacencyList \<Rightarrow> ('a, 'r) kernel
     \<Rightarrow> 'a Array2D \<Rightarrow> int list \<Rightarrow> 'a list \<Rightarrow> 'a \<times> 'a list \<Rightarrow> int \<Rightarrow> error + 'a \<times> 'a list" where
  "assemble_interior_facets_body g num_dofs_g t f_to_c c_to_f fn coeffs offsets
       constant_values state f =
     (case state of (value, coeff_array) \<Rightarrow>
        ebind (interior_facet_arguments g num_dofs_g t f_to_c c_to_f coeffs offsets
                 coeff_array f)
          (\<lambda>(coeff_array', coordinate_dofs, local_facet, perm, info).
             Inr (fn value coeff_array' constant_values coordinate_dofs
                    (Some local_facet) (Some perm) info,
                  coeff_array')))"

text \<open>
  \<^verbatim>\<open>Eigen::Array<T, Dynamic, 1> coeff_array(2 * offsets.back())\<close> is not
  initialised: its first contents are arbitrary, given by \<open>junk\<close>.
\<close>

definition new_coeff_array :: "(nat \<Rightarrow> 'a) \<Rightarrow> int list \<Rightarrow> error + 'a list" where
  "new_coeff_array junk offsets =
     (if offsets = [] then Inl OutOfRange
      else ebind (allocate (2 * last offsets)) (\<lambda>_.
             Inr (map junk [0..<nat (2 * last offsets)])))"

definition assemble_interior_facets ::
  "TopologyComputation \<Rightarrow> (nat \<Rightarrow> 'a) \<Rightarrow> 'r Mesh \<Rightarrow> int list \<Rightarrow> ('a::zero, 'r) kernel
     \<Rightarrow> 'a Array2D \<Rightarrow> int list \<Rightarrow> 'a list \<Rightarrow> error + ('a \<times> 'r Mesh)" where
  "assemble_interior_facets tc junk msh active_facets fn coeffs offsets constant_values =
     (let gdim = g_dim (geometry msh); tdim = t_dim (topology msh) in
      ebind (create_entities tc (topology msh) (tdim - 1)) (\<lambda>(_, t1).
      ebind (create_connectivity tc t1 (tdim - 1) tdim) (\<lambda>t2.
      ebind (create_entity_permutations tc t2) (\<lambda>t3.
      ebind (num_links (dofmap (geometry msh)) 0) (\<lambda>num_dofs_g.
      ebind (allocate gdim) (\<lambda>_.
      ebind (new_coeff_array junk offsets) (\<lambda>coeff_array.
      ebind (assert_that (last offsets = cols coeffs) ''offsets.back() == coeffs.cols()'')
        (\<lambda>_.
      ebind (require_connectivity t3 (tdim - 1) tdim ''f_to_c'') (\<lambda>f_to_c.
      ebind (require_connectivity t3 tdim (tdim - 1) ''c_to_f'') (\<lambda>c_to_f.
      ebind (foldE (assemble_interior_facets_body (geometry msh) num_dofs_g t3 f_to_c c_to_f
                      fn coeffs offsets constant_values)
               (0, coeff_array) active_facets) (\<lambda>(value, _).
        Inr (value, msh\<lparr>topology := t3\<rparr>))))))))))))"

subsection \<open>The whole form\<close>

text \<open>
  The three loops of \<^verbatim>\<open>assemble_scalar\<close> over the integrals of each kind.  The mesh
  is shared by the dispatchers, so the topology each one has built is what the next
  one starts from.
\<close>

definition constant_values_of :: "(string \<times> 'a list option) list \<Rightarrow> 'a list" where
  "constant_values_of cs = concat (map (\<lambda>c. case snd c of None \<Rightarrow> [] | Some v \<Rightarrow> v) cs)"

definition assemble_integrals ::
  "TopologyComputation \<Rightarrow> (nat \<Rightarrow> 'a) \<Rightarrow> ('a::{zero,plus}, 'r) Form \<Rightarrow> 'r Mesh \<Rightarrow> 'a list
     \<Rightarrow> error + ('a \<times> 'r Mesh)" where
  "assemble_integrals tc junk M msh constant_values =
     (let coeffs = pack_coefficients M in
      ebind (foldE (\<lambda>(value, m) (fn, active_cells).
                 ebind (assemble_cells tc m active_cells fn coeffs constant_values)
                   (\<lambda>(v, m'). Inr (value + v, m')))
               (0, msh) (integrals M cell)) (\<lambda>(value1, m1).
      ebind (foldE (\<lambda>(value, m) (fn, active_facets).
                 ebind (assemble_exterior_facets tc m active_facets fn coeffs constant_values)
                   (\<lambda>(v, m'). Inr (value + v, m')))
               (value1, m1) (integrals M exterior_facet)) (\<lambda>(value2, m2).
      let c_offsets = coefficient_offsets M in
      foldE (\<lambda>(value, m) (fn, active_facets).
                 ebind (assemble_interior_facets tc junk m active_facets fn coeffs c_offsets
                          constant_values)
                   (\<lambda>(v, m'). Inr (value + v, m')))
               (value2, m2) (integrals M interior_facet))))"

definition assemble_scalar ::
  "TopologyComputation \<Rightarrow> (nat \<Rightarrow> 'a) \<Rightarrow> ('a::{zero,plus}, 'r) Form
     \<Rightarrow> error + ('a \<times> 'r Mesh)" where
  "assemble_scalar tc junk M =
     (case mesh M of
        None \<Rightarrow> Inl (AssertionFailed ''mesh'')
      | Some msh \<Rightarrow>
          if \<not> all_constants_set M then Inl (RuntimeError ''Unset constant in Form'')
          else assemble_integrals tc junk M msh (constant_values_of (constants M)))"

text \<open>Whether a result is a thrown \<^verbatim>\<open>std::runtime_error\<close>.\<close>

definition is_runtime_error :: "error + 'a \<Rightarrow> bool" where
  "is_runtime_error r = (case r of Inl (RuntimeError _) \<Rightarrow> True | _ \<Rightarrow> False)"

section \<open>Example data: two triangles sharing an edge\<close>

text \<open>
  Vertices 0 to 3, cells \<open>[0, 1, 2]\<close> and \<open>[1, 2, 3]\<close>, edges
  \<open>0 = (0, 1)\<close>, \<open>1 = (0, 2)\<close>, \<open>2 = (1, 2)\<close>, \<open>3 = (1, 3)\<close>, \<open>4 = (2, 3)\<close>; edge 2
  is the interior facet.  \<open>two_triangles_complete\<close> holds everything that can be
  computed, \<open>two_triangles_initial\<close> what a freshly created mesh holds, and
  \<open>two_triangles_tc\<close> computes missing parts by looking them up in the complete
  topology.
\<close>

definition two_triangles_complete :: Topology where
  "two_triangles_complete =
     \<lparr>t_dim = 2,
      connectivity =
        [(0, 0) \<mapsto> [[0], [1], [2], [3]],
         (2, 0) \<mapsto> [[0, 1, 2], [1, 2, 3]],
         (1, 0) \<mapsto> [[0, 1], [0, 2], [1, 2], [1, 3], [2, 3]],
         (2, 1) \<mapsto> [[2, 1, 0], [4, 3, 2]],
         (1, 2) \<mapsto> [[0], [0], [0, 1], [1], [1]]],
      index_map =
        [0 \<mapsto> \<lparr>size_local = 4, num_ghosts = 0, size_global = 4, block_size = 1\<rparr>,
         1 \<mapsto> \<lparr>size_local = 5, num_ghosts = 0, size_global = 5, block_size = 1\<rparr>,
         2 \<mapsto> \<lparr>size_local = 2, num_ghosts = 0, size_global = 2, block_size = 1\<rparr>],
      cell_permutation_info = [3, 5],
      facet_permutations = [[1, 0], [0, 0], [1, 0]],
      interior_facets = [False, False, True, False, False]\<rparr>"

definition two_triangles_initial :: Topology where
  "two_triangles_initial =
     \<lparr>t_dim = 2,
      connectivity =
        [(0, 0) \<mapsto> [[0], [1], [2], [3]],
         (2, 0) \<mapsto> [[0, 1, 2], [1, 2, 3]]],
      index_map =
        [0 \<mapsto> \<lparr>size_local = 4, num_ghosts = 0, size_global = 4, block_size = 1\<rparr>,
         2 \<mapsto> \<lparr>size_local = 2, num_ghosts = 0, size_global = 2, block_size = 1\<rparr>],
      cell_permutation_info = [],
      facet_permutations = [],
      interior_facets = []\<rparr>"

definition complete_tc :: "Topology \<Rightarrow> TopologyComputation" where
  "complete_tc F =
     \<lparr>compute_entities = (\<lambda>t d.
        (connectivity F (t_dim F, d), connectivity F (d, 0), index_map F d)),
      compute_connectivity = (\<lambda>t d0 d1.
        if connectivity t (d0, d1) \<noteq> None then (None, None)
        else (connectivity F (d0, d1),
              if connectivity t (d1, d0) \<noteq> None then None else connectivity F (d1, d0))),
      compute_interior_facets = (\<lambda>t. interior_facets F),
      topology_create_entity_permutations = (\<lambda>t.
        t\<lparr>cell_permutation_info := cell_permutation_info F,
          facet_permutations := facet_permutations F\<rparr>)\<rparr>"

definition two_triangles_tc :: TopologyComputation where
  "two_triangles_tc = complete_tc two_triangles_complete"

definition two_triangles_geometry :: "int Geometry" where
  "two_triangles_geometry =
     \<lparr>g_dim = 2,
      dofmap = [[0, 1, 2], [1, 2, 3]],
      x = [[0, 0, 0], [1, 0, 0], [0, 1, 0], [1, 1, 0]]\<rparr>"

definition two_triangles_mesh :: "int Mesh" where
  "two_triangles_mesh = \<lparr>topology = two_triangles_initial, geometry = two_triangles_geometry\<rparr>"

definition no_cells_mesh :: "int Mesh" where
  "no_cells_mesh =
     \<lparr>topology = two_triangles_initial
        \<lparr>index_map :=
           [2 \<mapsto> \<lparr>size_local = 0, num_ghosts = 0, size_global = 0, block_size = 1\<rparr>]\<rparr>,
      geometry = \<lparr>g_dim = 2, dofmap = [], x = []\<rparr>\<rparr>"

text \<open>
  A mesh whose index map of dimension 1 counts \<open>2 ^ 31 - 1\<close> owned entities and one
  ghost, and whose index map of dimension 2 has block size 2.
\<close>

definition many_entities_mesh :: "int Mesh" where
  "many_entities_mesh =
     \<lparr>topology = two_triangles_initial
        \<lparr>index_map :=
           [1 \<mapsto> \<lparr>size_local = 2147483647, num_ghosts = 1, size_global = 2147483648,
                   block_size = 1\<rparr>,
            2 \<mapsto> \<lparr>size_local = 1, num_ghosts = 0, size_global = 2, block_size = 2\<rparr>]\<rparr>,
      geometry = two_triangles_geometry\<rparr>"

definition two_triangles_coeffs :: "int Array2D" where
  "two_triangles_coeffs = \<lparr>cols = 3, rowdata = [[1, 2, 3], [4, 5, 6]]\<rparr>"

text \<open>A form without coefficients: rows of no entries, one per cell.\<close>

definition no_coefficients :: "'a Array2D" where
  "no_coefficients = \<lparr>cols = 0, rowdata = [[], []]\<rparr>"

definition no_integrals_form :: "(int, int) Form" where
  "no_integrals_form =
     \<lparr>mesh = Some two_triangles_mesh,
      constants = [(''k'', Some [2])],
      pack_coefficients = two_triangles_coeffs,
      coefficient_offsets = [0, 1, 3],
      integrals = (\<lambda>_. [])\<rparr>"

definition unset_constant_form :: "(int, int) Form" where
  "unset_constant_form =
     \<lparr>mesh = Some two_triangles_mesh,
      constants = [(''k'', Some [2]), (''nu'', None)],
      pack_coefficients = two_triangles_coeffs,
      coefficient_offsets = [0, 1, 3],
      integrals = (\<lambda>_. [(\<lambda>A w c xs lf p i. A + 1, [0, 1])])\<rparr>"

text \<open>
  The layout the spec gives for the flattened buffer, in its own words: the
  \<open>offsets[i]:offsets[i+1]\<close> slice of a coefficient row, and the slice of coefficient
  \<open>i\<close> and restriction \<open>r\<close> of a buffer laid out as \<open>[coefficient][restriction][dof]\<close>,
  where coefficient \<open>i\<close> starts at \<open>2 * offsets[i]\<close>.
\<close>

definition coefficient_slice :: "int list \<Rightarrow> 'a list \<Rightarrow> nat \<Rightarrow> 'a list" where
  "coefficient_slice offsets coeff_row i =
     take (nat (offsets ! Suc i - offsets ! i)) (drop (nat (offsets ! i)) coeff_row)"

definition restriction_slice :: "int list \<Rightarrow> 'a list \<Rightarrow> int \<Rightarrow> nat \<Rightarrow> 'a list" where
  "restriction_slice offsets w r i =
     take (nat (offsets ! Suc i - offsets ! i))
       (drop (nat (2 * offsets ! i + r * (offsets ! Suc i - offsets ! i))) w)"

section \<open>Building the topology before assembling\<close>

text \<open>
  Modelled from the spec: the contract of the computations that are not among the
  sources.  The spec has \<open>create_entities\<close> "produce (tdim,d) and (d,0) adjacency plus
  an Entity Index Map", \<open>create_connectivity\<close> compute the (d0,d1) adjacency and "as a
  side effect" possibly (d1,d0), \<open>create_entity_permutations\<close> be "idempotent and
  side-effect-free if already computed", and cached connectivity "never recomputed or
  evicted"; Mesh.cpp says that "all connectivity of a mesh always exists, it just
  hasn't been computed yet".  So there is one complete topology \<open>F\<close> of the mesh, a
  topology \<open>t\<close> caches a part of it, and the computations deliver parts of it.

  \<open>cached_from F t\<close>: what \<open>t\<close> holds is what \<open>F\<close> holds; facet-to-cell connectivity is
  not cached without cell-to-facet connectivity (the former is computed from the
  latter); the permutation data is not yet computed or is that of \<open>F\<close>.
\<close>

definition cached_from :: "Topology \<Rightarrow> Topology \<Rightarrow> bool" where
  "cached_from F t \<longleftrightarrow>
     t_dim t = t_dim F
   \<and> (\<forall>p a. connectivity t p = Some a \<longrightarrow> connectivity F p = Some a)
   \<and> (connectivity t (t_dim F - 1, t_dim F) \<noteq> None
        \<longrightarrow> connectivity t (t_dim F, t_dim F - 1) \<noteq> None)
   \<and> (cell_permutation_info t = [] \<and> facet_permutations t = []
      \<or> cell_permutation_info t = cell_permutation_info F
        \<and> facet_permutations t = facet_permutations F)"

text \<open>
  What the three computations deliver on a topology \<open>t\<close> cached from \<open>F\<close>.
  \<open>compute_entities\<close>, for a dimension of the mesh without \<open>(d, 0)\<close> connectivity:
  an index map, and adjacency lists that are null or those of \<open>F\<close>.
  \<open>compute_connectivity\<close>, for facets and cells: lists that are null or those of \<open>F\<close>,
  the facet-to-cell list when it is not cached, and the cell-to-facet list too when
  neither is cached.  \<open>Topology::create_entity_permutations\<close>: the dimension and the
  connectivity as they were, and the permutation data of \<open>F\<close>.
\<close>

definition entities_contract :: "Topology \<Rightarrow> TopologyComputation \<Rightarrow> Topology \<Rightarrow> bool" where
  "entities_contract F tc t \<longleftrightarrow>
     (\<forall>d. 0 \<le> d \<longrightarrow> d \<le> t_dim F \<longrightarrow> connectivity t (d, 0) = None \<longrightarrow>
        snd (snd (compute_entities tc t d)) \<noteq> None
      \<and> fst (compute_entities tc t d) \<in> {None, connectivity F (t_dim F, d)}
      \<and> fst (snd (compute_entities tc t d)) \<in> {None, connectivity F (d, 0)})"

definition connectivity_contract ::
  "Topology \<Rightarrow> TopologyComputation \<Rightarrow> Topology \<Rightarrow> bool" where
  "connectivity_contract F tc t \<longleftrightarrow>
     (let (c_d0_d1, c_d1_d0) = compute_connectivity tc t (t_dim F - 1) (t_dim F) in
        c_d0_d1 \<in> {None, connectivity F (t_dim F - 1, t_dim F)}
      \<and> c_d1_d0 \<in> {None, connectivity F (t_dim F, t_dim F - 1)}
      \<and> (connectivity t (t_dim F - 1, t_dim F) = None \<longrightarrow>
            c_d0_d1 = connectivity F (t_dim F - 1, t_dim F)
          \<and> (connectivity t (t_dim F, t_dim F - 1) = None \<longrightarrow>
                c_d1_d0 = connectivity F (t_dim F, t_dim F - 1))))"

definition permutations_contract ::
  "Topology \<Rightarrow> TopologyComputation \<Rightarrow> Topology \<Rightarrow> bool" where
  "permutations_contract F tc t \<longleftrightarrow>
     t_dim (topology_create_entity_permutations tc t) = t_dim t
   \<and> connectivity (topology_create_entity_permutations tc t) = connectivity t
   \<and> cell_permutation_info (topology_create_entity_permutations tc t)
        = cell_permutation_info F
   \<and> facet_permutations (topology_create_entity_permutations tc t)
        = facet_permutations F"

text \<open>
  \<open>computes F tc\<close>: the mesh has facets, \<open>F\<close> has both facet connectivities, and the
  three contracts hold on every topology cached from \<open>F\<close>.
\<close>

definition computes :: "Topology \<Rightarrow> TopologyComputation \<Rightarrow> bool" where
  "computes F tc \<longleftrightarrow>
     1 \<le> t_dim F
   \<and> connectivity F (t_dim F - 1, t_dim F) \<noteq> None
   \<and> connectivity F (t_dim F, t_dim F - 1) \<noteq> None
   \<and> (\<forall>t. cached_from F t \<longrightarrow>
          entities_contract F tc t \<and> connectivity_contract F tc t
        \<and> permutations_contract F tc t)"

text \<open>
  Creating explicitly, before any assembly, all that the dispatchers need: the cells,
  the facets, the facet-to-cell connectivity and the permutations.
\<close>

definition precreate :: "TopologyComputation \<Rightarrow> Topology \<Rightarrow> error + Topology" where
  "precreate tc t =
     ebind (create_entities tc t (t_dim t)) (\<lambda>(_, t1).
     ebind (create_entities tc t1 (t_dim t - 1)) (\<lambda>(_, t2).
     ebind (create_connectivity tc t2 (t_dim t - 1) (t_dim t)) (\<lambda>t3.
       create_entity_permutations tc t3)))"

text \<open>
  Two runs end alike: with the same error, or with the same value on meshes of the
  same geometry whose topologies are both cached from \<open>F\<close>.
\<close>

definition same_assembly ::
  "Topology \<Rightarrow> error + ('a \<times> 'r Mesh) \<Rightarrow> error + ('a \<times> 'r Mesh) \<Rightarrow> bool" where
  "same_assembly F r1 r2 =
     (case r1 of
        Inl e1 \<Rightarrow> r2 = Inl e1
      | Inr (v1, m1) \<Rightarrow>
          (case r2 of
             Inl e2 \<Rightarrow> False
           | Inr (v2, m2) \<Rightarrow>
               v1 = v2 \<and> geometry m1 = geometry m2
             \<and> cached_from F (topology m1) \<and> cached_from F (topology m2)))"

text \<open>A form on the two triangles with one integral of each kind.\<close>

definition three_integrals_form :: "(int, int) Form" where
  "three_integrals_form =
     \<lparr>mesh = Some two_triangles_mesh,
      constants = [(''k'', Some [2])],
      pack_coefficients = two_triangles_coeffs,
      coefficient_offsets = [0, 1, 3],
      integrals = (\<lambda>kind. case kind of
          cell \<Rightarrow> [(\<lambda>A w c xs lf p i. A + hd w, [0, 1])]
        | exterior_facet \<Rightarrow> [(\<lambda>A w c xs lf p i. A + 10, [0, 1, 3, 4])]
        | interior_facet \<Rightarrow> [(\<lambda>A w c xs lf p i. A + 100 * hd (tl w), [2])])\<rparr>"

section \<open>Basic facts\<close>

lemma ebind_Inl [simp]: "ebind (Inl e) f = Inl e"
  by (simp add: ebind_def)

lemma ebind_Inr [simp]: "ebind (Inr v) f = f v"
  by (simp add: ebind_def)

lemma ebind_eq_Inr: "ebind r f = Inr y \<longleftrightarrow> (\<exists>v. r = Inr v \<and> f v = Inr y)"
  by (cases r) simp_all

lemma assert_that_True [simp]: "assert_that True expr = Inr ()"
  by (simp add: assert_that_def)

lemma assert_that_False [simp]: "assert_that False expr = Inl (AssertionFailed expr)"
  by (simp add: assert_that_def)

lemma at_in_range: "0 \<le> i \<Longrightarrow> i < int (length xs) \<Longrightarrow> at xs i = Inr (xs ! nat i)"
  by (simp add: at_def)

lemma at_nat [simp]: "n < length xs \<Longrightarrow> at xs (int n) = Inr (xs ! n)"
  by (simp add: at_def)

lemma at_out_of_range: "i < 0 \<or> int (length xs) \<le> i \<Longrightarrow> at xs i = Inl OutOfRange"
  by (auto simp: at_def)

lemma fold_min_Min: "fold min ys (y::'h::linorder) = Min (set (y # ys))"
  using Min.set_eq_fold [of y ys] by simp

lemma fold_max_Max: "fold max ys (y::'h::linorder) = Max (set (y # ys))"
  using Max.set_eq_fold [of y ys] by simp

lemma minCoeff_Min: "xs \<noteq> [] \<Longrightarrow> minCoeff xs = Inr (Min (set xs))"
  by (cases xs) (simp_all add: minCoeff_def fold_min_Min del: set_simps)

lemma maxCoeff_Max: "xs \<noteq> [] \<Longrightarrow> maxCoeff xs = Inr (Max (set xs))"
  by (cases xs) (simp_all add: maxCoeff_def fold_max_Max del: set_simps)

lemma foldE_Inr_foldl:
  assumes "\<And>s y. y \<in> set xs \<Longrightarrow> f s y = Inr (g s y)"
  shows "foldE f s xs = Inr (foldl g s xs)"
  using assms by (induction xs arbitrary: s) simp_all

lemma foldE_append:
  "foldE f s (xs @ ys) = ebind (foldE f s xs) (\<lambda>s'. foldE f s' ys)"
  by (induction xs arbitrary: s) (simp_all add: ebind_def split: sum.splits)

lemma not_runtime_Inr [simp]: "\<not> is_runtime_error (Inr v)"
  by (simp add: is_runtime_error_def)

lemma not_runtime_other [simp]:
  "\<not> is_runtime_error (Inl OutOfRange)" "\<not> is_runtime_error (Inl NullPointer)"
  "\<not> is_runtime_error (Inl (AssertionFailed expr))"
  by (simp_all add: is_runtime_error_def)

lemma is_runtime_error_RuntimeError [simp]: "is_runtime_error (Inl (RuntimeError msg))"
  by (simp add: is_runtime_error_def)

lemma not_runtime_ebind:
  "\<not> is_runtime_error r \<Longrightarrow> (\<And>v. \<not> is_runtime_error (f v)) \<Longrightarrow> \<not> is_runtime_error (ebind r f)"
  by (cases r) (auto simp: is_runtime_error_def)

lemma not_runtime_foldE:
  assumes "\<And>s y. \<not> is_runtime_error (f s y)"
  shows "\<not> is_runtime_error (foldE f s xs)"
proof (induction xs arbitrary: s)
  case Nil
  show ?case by simp
next
  case (Cons y ys)
  show ?case
    unfolding foldE.simps by (rule not_runtime_ebind) (rule assms, rule Cons.IH)
qed

lemma not_runtime_mapE:
  assumes "\<And>y. \<not> is_runtime_error (f y)"
  shows "\<not> is_runtime_error (mapE f xs)"
proof (induction xs)
  case Nil
  show ?case by simp
next
  case (Cons y ys)
  show ?case
    unfolding mapE.simps
  proof (rule not_runtime_ebind)
    show "\<not> is_runtime_error (f y)"
      by (rule assms)
    show "\<not> is_runtime_error (ebind (mapE f ys) (\<lambda>zs. Inr (z # zs)))" for z
      by (rule not_runtime_ebind) (rule Cons.IH, simp)
  qed
qed

lemma not_runtime_case_prod:
  "(\<And>a b. \<not> is_runtime_error (f a b)) \<Longrightarrow> \<not> is_runtime_error (case p of (a, b) \<Rightarrow> f a b)"
  by (cases p) simp

lemmas not_runtime_intros = not_runtime_ebind not_runtime_foldE not_runtime_case_prod

lemma not_runtime_at [simp]: "\<not> is_runtime_error (at xs i)"
  by (simp add: at_def)

lemma not_runtime_assert_that [simp]: "\<not> is_runtime_error (assert_that b expr)"
  by (simp add: assert_that_def)

lemma not_runtime_links [simp]: "\<not> is_runtime_error (links a i)"
  by (simp add: links_def)

lemma not_runtime_num_links [simp]: "\<not> is_runtime_error (num_links a i)"
  by (simp add: num_links_def not_runtime_ebind)

lemma not_runtime_row [simp]: "\<not> is_runtime_error (row A i)"
  by (simp add: row_def)

lemma not_runtime_head_n [simp]: "\<not> is_runtime_error (head_n v n)"
  by (simp add: head_n_def)

lemma not_runtime_at2 [simp]: "\<not> is_runtime_error (at2 A i j)"
  by (simp add: at2_def not_runtime_ebind)

lemma not_runtime_allocate [simp]: "\<not> is_runtime_error (allocate n)"
  by (simp add: allocate_def)

lemma not_runtime_segment_assign [simp]:
  "\<not> is_runtime_error (segment_assign dst start src sstart n)"
  by (simp add: segment_assign_def)

lemma not_runtime_require_connectivity [simp]:
  "\<not> is_runtime_error (require_connectivity t d0 d1 expr)"
  by (simp add: require_connectivity_def split: option.splits)

lemma not_runtime_local_facet_index [simp]:
  "\<not> is_runtime_error (local_facet_index c_to_f cell_id f)"
  by (simp add: local_facet_index_def Let_def not_runtime_ebind)

lemma not_runtime_gather_coordinate_dofs [simp]:
  "\<not> is_runtime_error (gather_coordinate_dofs g n x_dofs)"
  by (simp add: gather_coordinate_dofs_def not_runtime_mapE not_runtime_ebind)

lemma not_runtime_create_entities [simp]: "\<not> is_runtime_error (create_entities tc t d)"
  by (simp add: create_entities_def Let_def split: prod.splits option.splits)

lemma not_runtime_create_connectivity [simp]:
  "\<not> is_runtime_error (create_connectivity tc t d0 d1)"
  unfolding create_connectivity_def Let_def
  by (intro not_runtime_intros) simp_all

lemma not_runtime_create_entity_permutations [simp]:
  "\<not> is_runtime_error (create_entity_permutations tc t)"
  unfolding create_entity_permutations_def
  by (intro not_runtime_intros) simp_all

lemma not_runtime_pack_restricted [simp]:
  "\<not> is_runtime_error (pack_restricted offsets c0 c1 a)"
  unfolding pack_restricted_def pack_restricted_step_def Let_def
  by (intro not_runtime_intros) simp_all

lemma not_runtime_new_coeff_array [simp]: "\<not> is_runtime_error (new_coeff_array junk offsets)"
  by (simp add: new_coeff_array_def not_runtime_ebind)

lemma not_runtime_cell_arguments [simp]:
  "\<not> is_runtime_error (cell_arguments g n info coeffs c)"
  unfolding cell_arguments_def by (intro not_runtime_intros) simp_all

lemma not_runtime_exterior_facet_arguments [simp]:
  "\<not> is_runtime_error (exterior_facet_arguments g n t f_to_c c_to_f coeffs f)"
  unfolding exterior_facet_arguments_def by (intro not_runtime_intros) simp_all

lemma not_runtime_interior_facet_arguments [simp]:
  "\<not> is_runtime_error (interior_facet_arguments g n t f_to_c c_to_f coeffs offsets a f)"
  unfolding interior_facet_arguments_def by (intro not_runtime_intros) simp_all

lemma not_runtime_assemble_cells [simp]:
  "\<not> is_runtime_error (assemble_cells tc msh active_cells fn coeffs cv)"
  unfolding assemble_cells_def assemble_cells_body_def Let_def
  by (intro not_runtime_intros) simp_all

lemma not_runtime_assemble_exterior_facets [simp]:
  "\<not> is_runtime_error (assemble_exterior_facets tc msh active_facets fn coeffs cv)"
  unfolding assemble_exterior_facets_def assemble_exterior_facets_body_def Let_def
  by (intro not_runtime_intros) simp_all

lemma not_runtime_assemble_interior_facets [simp]:
  "\<not> is_runtime_error
      (assemble_interior_facets tc junk msh active_facets fn coeffs offsets cv)"
  unfolding assemble_interior_facets_def assemble_interior_facets_body_def Let_def
  by (intro not_runtime_intros) simp_all

lemma not_runtime_integral_step:
  assumes "\<And>m xs fn. \<not> is_runtime_error (D m xs fn)"
  shows "\<not> is_runtime_error
     ((\<lambda>(value, m) (fn, xs). ebind (D m xs fn) (\<lambda>(v, m'). Inr (value + v, m'))) s y)"
proof (cases s, cases y)
  fix v0 m fn xs
  assume "s = (v0, m)" "y = (fn, xs)"
  then show ?thesis
    by simp (intro not_runtime_intros assms, simp)
qed

lemma not_runtime_assemble_integrals:
  "\<not> is_runtime_error (assemble_integrals tc junk M msh cv)"
  unfolding assemble_integrals_def Let_def
  by (intro not_runtime_intros not_runtime_integral_step) simp_all

section \<open>Mesh queries and the entity cache\<close>

text \<open>
  C8.  \<open>num_entities m d\<close> on a mesh whose index map of dimension \<open>d\<close> is absent fails
  with the runtime error whose message ends in "for dimension ", the decimal form of
  \<open>d\<close> and a full stop.  When the index map is present, a block size other than 1
  fails the function's assertion; with block size 1 the result is
  \<open>size_local + num_ghosts\<close> as a 32-bit signed number: the sum reduced modulo
  \<open>2 ^ 32\<close> into \<open>[- 2 ^ 31, 2 ^ 31)\<close>, which is the sum itself exactly when the sum
  lies in that range.
\<close>

theorem num_entities_not_created_or_count:
  "(index_map (topology m) d = None \<longrightarrow>
      num_entities m d = Inl (RuntimeError
        (''Cannot get number of mesh entities. Have not been created for dimension ''
           @ to_string d @ ''.'')))
   \<and> (index_map (topology m) d = Some imap \<longrightarrow> block_size imap \<noteq> 1 \<longrightarrow>
      num_entities m d = Inl (AssertionFailed ''map->block_size() == 1''))
   \<and> (index_map (topology m) d = Some imap \<longrightarrow> block_size imap = 1 \<longrightarrow>
      num_entities m d
        = Inr ((size_local imap + num_ghosts imap + 2147483648) mod 4294967296 - 2147483648))
   \<and> (index_map (topology m) d = Some imap \<longrightarrow> block_size imap = 1 \<longrightarrow>
      (num_entities m d = Inr (size_local imap + num_ghosts imap)
         \<longleftrightarrow> - 2147483648 \<le> size_local imap + num_ghosts imap
           \<and> size_local imap + num_ghosts imap < 2147483648))"
proof -
  have wrap: "sint (word_of_int a + word_of_int b :: 32 word)
      = (a + b + 2147483648) mod 4294967296 - 2147483648" for a b :: int
  proof -
    have "sint (word_of_int a + word_of_int b :: 32 word)
        = signed_take_bit (LENGTH(32) - 1) (a + b)"
      by (simp only: wi_hom_add sint_sbintrunc')
    also have "\<dots> = signed_take_bit 31 (a + b)"
      by simp
    also have "\<dots> = (a + b + 2147483648) mod 4294967296 - 2147483648"
      by (simp add: signed_take_bit_eq_take_bit_shift take_bit_eq_mod)
    finally show ?thesis .
  qed
  have exact: "(v + 2147483648) mod 4294967296 - 2147483648 = v
      \<longleftrightarrow> - 2147483648 \<le> v \<and> v < 2147483648" for v :: int
  proof
    assume eq: "(v + 2147483648) mod 4294967296 - 2147483648 = v"
    have "0 \<le> (v + 2147483648) mod 4294967296" "(v + 2147483648) mod 4294967296 < 4294967296"
      by simp_all
    with eq show "- 2147483648 \<le> v \<and> v < 2147483648"
      by linarith
  next
    assume "- 2147483648 \<le> v \<and> v < 2147483648"
    then have "(v + 2147483648) mod 4294967296 = v + 2147483648"
      by (intro mod_pos_pos_trivial) simp_all
    then show "(v + 2147483648) mod 4294967296 - 2147483648 = v"
      by simp
  qed
  show ?thesis
    by (simp add: num_entities_def not_created_message_def wrap exact)
qed

text \<open>
  C6.  When connectivity \<open>(d, 0)\<close> is present, \<open>create_entities\<close> returns \<open>-1\<close> and
  leaves the topology as it is.  When it is absent and the entity computation delivers
  its three results, the call stores the \<open>(tdim, d)\<close> and \<open>(d, 0)\<close> adjacency and the
  index map of dimension \<open>d\<close>, touches no other slot, returns the local size of the
  index map, and a second call on the resulting topology returns \<open>-1\<close> and changes
  nothing.
\<close>

theorem create_entities_cached:
  "(connectivity t (d, 0) \<noteq> None \<longrightarrow> create_entities tc t d = Inr (- 1, t))
   \<and> (connectivity t (d, 0) = None \<longrightarrow>
        compute_entities tc t d = (Some cell_entity, Some entity_vertex, Some imap) \<longrightarrow>
        (\<exists>t'. create_entities tc t d = Inr (size_local imap, t')
           \<and> connectivity t' =
               (connectivity t)((t_dim t, d) \<mapsto> cell_entity, (d, 0) \<mapsto> entity_vertex)
           \<and> index_map t' = (index_map t)(d \<mapsto> imap)
           \<and> t_dim t' = t_dim t
           \<and> cell_permutation_info t' = cell_permutation_info t
           \<and> facet_permutations t' = facet_permutations t
           \<and> interior_facets t' = interior_facets t
           \<and> create_entities tc t' d = Inr (- 1, t')))"
  by (simp add: create_entities_def set_connectivity_def set_index_map_def)

text \<open>
  C9.  On a mesh with zero cells each of \<open>hmin\<close>, \<open>hmax\<close>, \<open>rmin\<close>, \<open>rmax\<close> fails with
  the "No cells" runtime error.  On a mesh with \<open>n > 0\<close> cells, where the size and
  inradius computations return one value per requested cell, they return the least
  and the greatest of the values computed for the cells \<open>0, ..., n - 1\<close>.
\<close>

theorem extremal_metrics_empty_or_extremum:
  fixes h :: "'r Mesh \<Rightarrow> int list \<Rightarrow> int \<Rightarrow> ('h::linorder) list"
    and inradius :: "'r Mesh \<Rightarrow> int list \<Rightarrow> ('h::linorder) list"
  shows
  "(num_entities m (t_dim (topology m)) = Inr 0 \<longrightarrow>
      hmin h m = Inl (RuntimeError ''Cannot compute h min/max. No cells.'')
    \<and> hmax h m = Inl (RuntimeError ''Cannot compute h min/max. No cells.'')
    \<and> rmin inradius m = Inl (RuntimeError ''Cannnot compute inradius min/max. No cells.'')
    \<and> rmax inradius m = Inl (RuntimeError ''Cannnot compute inradius min/max. No cells.''))
   \<and> (num_entities m (t_dim (topology m)) = Inr n \<longrightarrow> 0 < n \<longrightarrow>
      length (h m (map int [0..<nat n]) (t_dim (topology m))) = nat n \<longrightarrow>
      length (inradius m (map int [0..<nat n])) = nat n \<longrightarrow>
        hmin h m = Inr (Min (set (h m (map int [0..<nat n]) (t_dim (topology m)))))
      \<and> hmax h m = Inr (Max (set (h m (map int [0..<nat n]) (t_dim (topology m)))))
      \<and> rmin inradius m = Inr (Min (set (inradius m (map int [0..<nat n]))))
      \<and> rmax inradius m = Inr (Max (set (inradius m (map int [0..<nat n])))))"
proof (intro conjI impI)
  assume n: "num_entities m (t_dim (topology m)) = Inr n" and pos: "0 < n"
    and lh: "length (h m (map int [0..<nat n]) (t_dim (topology m))) = nat n"
    and lr: "length (inradius m (map int [0..<nat n])) = nat n"
  from pos lh have hne: "h m (map int [0..<nat n]) (t_dim (topology m)) \<noteq> []"
    by auto
  from pos lr have rne: "inradius m (map int [0..<nat n]) \<noteq> []"
    by auto
  from n pos have ch: "cell_h h m = Inr (h m (map int [0..<nat n]) (t_dim (topology m)))"
    by (simp add: cell_h_def iota_cells_def)
  from n pos have cr: "cell_r inradius m = Inr (inradius m (map int [0..<nat n]))"
    by (simp add: cell_r_def iota_cells_def)
  show "hmin h m = Inr (Min (set (h m (map int [0..<nat n]) (t_dim (topology m)))))"
    by (simp add: hmin_def ch minCoeff_Min [OF hne])
  show "hmax h m = Inr (Max (set (h m (map int [0..<nat n]) (t_dim (topology m)))))"
    by (simp add: hmax_def ch maxCoeff_Max [OF hne])
  show "rmin inradius m = Inr (Min (set (inradius m (map int [0..<nat n]))))"
    by (simp add: rmin_def cr minCoeff_Min [OF rne])
  show "rmax inradius m = Inr (Max (set (inradius m (map int [0..<nat n]))))"
    by (simp add: rmax_def cr maxCoeff_Max [OF rne])
qed (simp_all add: hmin_def hmax_def rmin_def rmax_def cell_h_def cell_r_def)

section \<open>The scalar assembler\<close>

lemma foldl_add_scale:
  fixes k :: "'a::plus"
  assumes "\<forall>n<length xs. scale (m + n) + k = scale (Suc (m + n))"
  shows "foldl (\<lambda>A c. A + k) (scale m) xs = scale (m + length xs)"
  using assms
proof (induction xs arbitrary: m)
  case Nil
  then show ?case by simp
next
  case (Cons y ys)
  from Cons.prems have first: "scale m + k = scale (Suc m)"
    by auto
  have "\<forall>n<length ys. scale (Suc m + n) + k = scale (Suc (Suc m + n))"
  proof (intro allI impI)
    fix n
    assume "n < length ys"
    then have "Suc n < length (y # ys)"
      by simp
    with Cons.prems have "scale (m + Suc n) + k = scale (Suc (m + Suc n))"
      by blast
    then show "scale (Suc m + n) + k = scale (Suc (Suc m + n))"
      by simp
  qed
  from Cons.IH [OF this] show ?case
    by (simp add: first)
qed

text \<open>
  C10.  A form with a mesh, with all constants set and with no integral of any of the
  three kinds assembles to exactly zero; the mesh comes back as it was, so no
  topology was built and no entity visited.
\<close>

theorem assemble_scalar_no_integrals:
  assumes "mesh M = Some msh"
    and "all_constants_set M"
    and "integrals M cell = []"
    and "integrals M exterior_facet = []"
    and "integrals M interior_facet = []"
  shows "assemble_scalar tc junk M = Inr (0, msh)"
  using assms by (simp add: assemble_scalar_def assemble_integrals_def)

text \<open>
  C5.  For a form with a mesh: when some constant has no value, \<open>assemble_scalar\<close>
  fails with the "Unset constant in Form" runtime error whatever the integrals of the
  form are (their kernels and entities play no part); when all constants are set, the
  result is that of the three integral loops, and it is never that error.
\<close>

theorem assemble_scalar_unset_constant:
  assumes "mesh M = Some msh"
  shows "(\<not> all_constants_set M \<longrightarrow>
            (\<forall>I. assemble_scalar tc junk (M\<lparr>integrals := I\<rparr>)
                   = Inl (RuntimeError ''Unset constant in Form'')))
       \<and> (all_constants_set M \<longrightarrow>
            assemble_scalar tc junk M
              = assemble_integrals tc junk M msh (constant_values_of (constants M))
          \<and> assemble_scalar tc junk M \<noteq> Inl (RuntimeError ''Unset constant in Form''))"
proof (intro conjI impI allI)
  fix I
  assume "\<not> all_constants_set M"
  then show "assemble_scalar tc junk (M\<lparr>integrals := I\<rparr>)
      = Inl (RuntimeError ''Unset constant in Form'')"
    using assms by (simp add: assemble_scalar_def all_constants_set_def)
next
  assume set: "all_constants_set M"
  then show eq: "assemble_scalar tc junk M
      = assemble_integrals tc junk M msh (constant_values_of (constants M))"
    using assms by (simp add: assemble_scalar_def)
  show "assemble_scalar tc junk M \<noteq> Inl (RuntimeError ''Unset constant in Form'')"
    using not_runtime_assemble_integrals
        [of tc junk M msh "constant_values_of (constants M)"]
    unfolding eq by auto
qed

lemma assemble_cells_Inr_foldl:
  fixes fn :: "('a::zero, 'r) kernel"
  assumes "create_entities tc (topology msh) (t_dim (topology msh)) = Inr (n, t1)"
    and "create_entity_permutations tc t1 = Inr t2"
    and "num_links (dofmap (geometry msh)) 0 = Inr num_dofs_g"
    and "0 \<le> g_dim (geometry msh)"
    and "\<forall>c\<in>set active_cells. \<exists>a.
           cell_arguments (geometry msh) num_dofs_g (cell_permutation_info t2) coeffs c = Inr a"
  shows "assemble_cells tc msh active_cells fn coeffs cv
      = Inr (foldl (\<lambda>A c.
                case projr (cell_arguments (geometry msh) num_dofs_g
                              (cell_permutation_info t2) coeffs c)
                of (w, xs, i) \<Rightarrow> fn A w cv xs None None i)
              0 active_cells,
             msh\<lparr>topology := t2\<rparr>)"
proof -
  have body: "assemble_cells_body (geometry msh) num_dofs_g (cell_permutation_info t2)
        fn coeffs cv A c
      = Inr (case projr (cell_arguments (geometry msh) num_dofs_g
                           (cell_permutation_info t2) coeffs c)
             of (w, xs, i) \<Rightarrow> fn A w cv xs None None i)"
    if "c \<in> set active_cells" for A c
  proof -
    from that assms(5) obtain a
      where "cell_arguments (geometry msh) num_dofs_g (cell_permutation_info t2) coeffs c
        = Inr a"
      by blast
    then show ?thesis
      by (simp add: assemble_cells_body_def split: prod.splits)
  qed
  have "foldE (assemble_cells_body (geometry msh) num_dofs_g (cell_permutation_info t2)
           fn coeffs cv) 0 active_cells
      = Inr (foldl (\<lambda>A c.
                case projr (cell_arguments (geometry msh) num_dofs_g
                              (cell_permutation_info t2) coeffs c)
                of (w, xs, i) \<Rightarrow> fn A w cv xs None None i)
              0 active_cells)"
    by (rule foldE_Inr_foldl) (rule body)
  with assms(1-4) show ?thesis
    by (simp add: assemble_cells_def allocate_def)
qed

text \<open>
  C1.  Let the two topology builds of the cell dispatcher succeed and let the data of
  every active cell be readable (a first row in the coordinate dofmap, indices in
  range).  Then assembling with the kernel that adds \<open>k\<close> to the accumulator returns
  \<open>k\<close> added to zero once per entry of the active-cell list, in the addition of the
  scalar type: \<open>((0 + k) + k) + ...\<close>.  Whenever these additions are exact, that is
  whenever adding \<open>k\<close> to \<open>j\<close> times \<open>k\<close> gives \<open>j + 1\<close> times \<open>k\<close> for every \<open>j\<close>
  below the number of active cells (\<open>scale j\<close> stands for \<open>j\<close> times \<open>k\<close>), the result
  is the number of active cells times \<open>k\<close>; in floating point a sum is rounded and
  the result can differ.  For every kernel the result is the left fold of the kernel
  over the active cells in list order, from zero, one call per entry.
\<close>

theorem assemble_cells_running_sum:
  fixes k :: "'a::{zero,plus}"
  assumes "create_entities tc (topology msh) (t_dim (topology msh)) = Inr (n, t1)"
    and "create_entity_permutations tc t1 = Inr t2"
    and "num_links (dofmap (geometry msh)) 0 = Inr num_dofs_g"
    and "0 \<le> g_dim (geometry msh)"
    and "\<forall>c\<in>set active_cells. \<exists>a.
           cell_arguments (geometry msh) num_dofs_g (cell_permutation_info t2) coeffs c = Inr a"
  shows "assemble_cells tc msh active_cells (\<lambda>A w c xs lf p i. A + k) coeffs cv
           = Inr (foldl (\<lambda>A c. A + k) 0 active_cells, msh\<lparr>topology := t2\<rparr>)
       \<and> (\<forall>scale. scale 0 = 0 \<longrightarrow>
             (\<forall>j<length active_cells. scale j + k = scale (Suc j)) \<longrightarrow>
             assemble_cells tc msh active_cells (\<lambda>A w c xs lf p i. A + k) coeffs cv
               = Inr (scale (length active_cells), msh\<lparr>topology := t2\<rparr>))
       \<and> (\<forall>fn. assemble_cells tc msh active_cells fn coeffs cv
           = Inr (foldl (\<lambda>A c.
                     case projr (cell_arguments (geometry msh) num_dofs_g
                                   (cell_permutation_info t2) coeffs c)
                     of (w, xs, i) \<Rightarrow> fn A w cv xs None None i)
                   0 active_cells,
                  msh\<lparr>topology := t2\<rparr>))"
proof -
  note general = assemble_cells_Inr_foldl [OF assms]
  have sum: "assemble_cells tc msh active_cells (\<lambda>A w c xs lf p i. A + k) coeffs cv
      = Inr (foldl (\<lambda>A c. A + k) 0 active_cells, msh\<lparr>topology := t2\<rparr>)"
    using general [of "\<lambda>A w c xs lf p i. A + k" cv] by (simp add: case_prod_beta)
  have "foldl (\<lambda>A c. A + k) 0 active_cells = scale (length active_cells)"
    if "scale 0 = 0" and "\<forall>j<length active_cells. scale j + k = scale (Suc j)"
    for scale :: "nat \<Rightarrow> 'a"
    using foldl_add_scale [of active_cells scale 0 k] that by simp
  with sum general show ?thesis
    by simp
qed

section \<open>Interior facets: the flattened coefficient buffer\<close>

lemma splice_nth:
  fixes s n ss j :: nat
  assumes "s + n \<le> length dst" and "ss + n \<le> length src" and "j < length dst"
  shows "(take s dst @ take n (drop ss src) @ drop (s + n) dst) ! j
           = (if s \<le> j \<and> j < s + n then src ! (ss + (j - s)) else dst ! j)"
proof -
  define A where "A = take s dst"
  define B where "B = take n (drop ss src)"
  define C where "C = drop (s + n) dst"
  have la: "length A = s"
    using assms(1) by (simp add: A_def)
  have lb: "length B = n"
    using assms(2) by (simp add: B_def)
  have a: "A ! i = dst ! i" if "i < s" for i
    using that by (simp add: A_def)
  have b: "B ! i = src ! (ss + i)" if "i < n" for i
    using that assms(2) by (simp add: B_def)
  have c: "C ! i = dst ! (s + n + i)" if "s + n + i < length dst" for i
    using that by (simp add: C_def)
  have "(A @ B @ C) ! j = (if s \<le> j \<and> j < s + n then src ! (ss + (j - s)) else dst ! j)"
  proof (cases "j < s")
    case True
    then show ?thesis
      by (simp add: nth_append la a)
  next
    case False
    then have ge: "s \<le> j" by simp
    show ?thesis
    proof (cases "j < s + n")
      case True
      with ge have "j - s < n" by simp
      with True ge False show ?thesis
        by (simp add: nth_append la lb b)
    next
      case False
      with ge have far: "\<not> j - s < n" and idx: "s + n + (j - s - n) = j"
        by simp_all
      from idx assms(3) have "C ! (j - s - n) = dst ! j"
        using c [of "j - s - n"] by simp
      with False ge far show ?thesis
        by (simp add: nth_append la lb)
    qed
  qed
  then show ?thesis
    by (simp only: A_def B_def C_def)
qed

lemma segment_assign_Inr:
  assumes "segment_assign dst start src sstart n = Inr w"
  shows "length w = length dst"
    and "\<And>p. 0 \<le> p \<Longrightarrow> p < int (length dst) \<Longrightarrow>
           w ! nat p = (if start \<le> p \<and> p < start + n then src ! nat (sstart + (p - start))
                        else dst ! nat p)"
proof -
  from assms have c: "0 \<le> n" "0 \<le> start" "start + n \<le> int (length dst)"
      "0 \<le> sstart" "sstart + n \<le> int (length src)"
    and w: "w = take (nat start) dst @ take (nat n) (drop (nat sstart) src)
                  @ drop (nat start + nat n) dst"
    by (auto simp: segment_assign_def nat_add_distrib split: if_splits)
  from c have b1: "nat start + nat n \<le> length dst" and b2: "nat sstart + nat n \<le> length src"
    by linarith+
  from b1 b2 show "length w = length dst"
    unfolding w by simp
  fix p :: int
  assume p: "0 \<le> p" "p < int (length dst)"
  then have pj: "nat p < length dst" by linarith
  show "w ! nat p = (if start \<le> p \<and> p < start + n
      then src ! nat (sstart + (p - start)) else dst ! nat p)"
  proof (cases "start \<le> p \<and> p < start + n")
    case True
    with p c have "nat start \<le> nat p \<and> nat p < nat start + nat n"
      by linarith
    moreover from True p c have "nat sstart + (nat p - nat start) = nat (sstart + (p - start))"
      by linarith
    ultimately have "w ! nat p = src ! nat (sstart + (p - start))"
      unfolding w splice_nth [OF b1 b2 pj] by simp
    with True show ?thesis
      by simp
  next
    case False
    with p c have "\<not> (nat start \<le> nat p \<and> nat p < nat start + nat n)"
      by linarith
    then have "w ! nat p = dst ! nat p"
      unfolding w splice_nth [OF b1 b2 pj] by auto
    with False show ?thesis
      by auto
  qed
qed

lemma segment_assign_succeeds:
  assumes "0 \<le> n" "0 \<le> start" "start + n \<le> int (length dst)"
      "0 \<le> sstart" "sstart + n \<le> int (length src)"
  shows "\<exists>w. segment_assign dst start src sstart n = Inr w"
  using assms by (simp add: segment_assign_def)


lemma offsets_facts:
  assumes "offsets \<noteq> []" and "sorted offsets" and "0 \<le> hd offsets"
  shows "i \<le> j \<Longrightarrow> j < length offsets \<Longrightarrow> offsets ! i \<le> offsets ! j"
    and "i < length offsets \<Longrightarrow> 0 \<le> offsets ! i"
    and "i < length offsets \<Longrightarrow> offsets ! i \<le> last offsets"
proof -
  show mono: "offsets ! i \<le> offsets ! j" if "i \<le> j" "j < length offsets" for i j
    using assms(2) that by (rule sorted_nth_mono)
  show "0 \<le> offsets ! i" if "i < length offsets"
    using mono [of 0 i] that assms(1,3) by (simp add: hd_conv_nth)
  show "offsets ! i \<le> last offsets" if "i < length offsets"
    using mono [of i "length offsets - 1"] that assms(1) by (simp add: last_conv_nth)
qed

lemma pack_restricted_prefix:
  assumes ne: "offsets \<noteq> []" and sorted: "sorted offsets" and hd0: "0 \<le> hd offsets"
    and l0: "last offsets \<le> int (length c0)" and l1: "last offsets \<le> int (length c1)"
    and lb: "length buf = nat (2 * last offsets)"
  shows "k < length offsets \<Longrightarrow>
    \<exists>w. foldE (pack_restricted_step offsets c0 c1) buf [0..<k] = Inr w
       \<and> length w = length buf
       \<and> (\<forall>i<k. \<forall>j. 0 \<le> j \<longrightarrow> j < offsets ! Suc i - offsets ! i \<longrightarrow>
             w ! nat (2 * offsets ! i + j) = c0 ! nat (offsets ! i + j)
           \<and> w ! nat (offsets ! Suc i + offsets ! i + j) = c1 ! nat (offsets ! i + j))"
proof (induction k)
  case 0
  show ?case by simp
next
  case (Suc k)
  note mono = offsets_facts(1) [OF ne sorted hd0]
    and nonneg = offsets_facts(2) [OF ne sorted hd0]
    and le_last = offsets_facts(3) [OF ne sorted hd0]
  from Suc.prems have k: "k < length offsets" and sk: "Suc k < length offsets"
    by simp_all
  from Suc.IH [OF k] obtain w
    where fw: "foldE (pack_restricted_step offsets c0 c1) buf [0..<k] = Inr w"
      and lw: "length w = length buf"
      and old: "\<And>i j. i < k \<Longrightarrow> 0 \<le> j \<Longrightarrow> j < offsets ! Suc i - offsets ! i \<Longrightarrow>
             w ! nat (2 * offsets ! i + j) = c0 ! nat (offsets ! i + j)
           \<and> w ! nat (offsets ! Suc i + offsets ! i + j) = c1 ! nat (offsets ! i + j)"
    by blast
  define ok where "ok = offsets ! k"
  define ok1 where "ok1 = offsets ! Suc k"
  have ok0: "0 \<le> ok" and okle: "ok \<le> ok1" and ok1l: "ok1 \<le> last offsets"
    using nonneg [OF k] mono [of k "Suc k"] le_last [OF sk] sk by (simp_all add: ok_def ok1_def)
  have len: "int (length w) = 2 * last offsets"
    using lw lb ok0 okle ok1l by simp
  have "\<exists>a. segment_assign w (2 * ok) c0 ok (ok1 - ok) = Inr a"
    using ok0 okle ok1l l0 len by (intro segment_assign_succeeds) simp_all
  then obtain a where a: "segment_assign w (2 * ok) c0 ok (ok1 - ok) = Inr a"
    by blast
  note a1 = segment_assign_Inr(1) [OF a] and a2 = segment_assign_Inr(2) [OF a]
  have "\<exists>b. segment_assign a (ok1 + ok) c1 ok (ok1 - ok) = Inr b"
    using ok0 okle ok1l l1 len a1 by (intro segment_assign_succeeds) simp_all
  then obtain b where b: "segment_assign a (ok1 + ok) c1 ok (ok1 - ok) = Inr b"
    by blast
  note b1 = segment_assign_Inr(1) [OF b] and b2 = segment_assign_Inr(2) [OF b]
  have at_k: "at offsets (int k) = Inr ok" and at_k1: "at offsets (int k + 1) = Inr ok1"
    using k sk by (simp_all add: at_def ok_def ok1_def nat_add_distrib)
  have step: "pack_restricted_step offsets c0 c1 w k = Inr b"
    by (simp add: pack_restricted_step_def at_k at_k1 a b)
  have fold: "foldE (pack_restricted_step offsets c0 c1) buf [0..<Suc k] = Inr b"
    by (simp add: foldE_append fw step)
  have lenb: "length b = length buf"
    using a1 b1 lw by simp
  have new: "b ! nat (2 * offsets ! i + j) = c0 ! nat (offsets ! i + j)
           \<and> b ! nat (offsets ! Suc i + offsets ! i + j) = c1 ! nat (offsets ! i + j)"
    if i: "i < Suc k" and j: "0 \<le> j" "j < offsets ! Suc i - offsets ! i" for i j
  proof (cases "i = k")
    case True
    from j True have j': "j < ok1 - ok"
      by (simp add: ok_def ok1_def)
    have p0: "0 \<le> 2 * ok + j" "2 * ok + j < int (length a)" "2 * ok + j < int (length w)"
      and p1: "0 \<le> ok1 + ok + j" "ok1 + ok + j < int (length a)"
      using j j' ok0 okle ok1l len a1 by simp_all
    have "b ! nat (2 * ok + j) = a ! nat (2 * ok + j)"
      using b2 [OF p0(1,2)] j j' by simp
    also have "\<dots> = c0 ! nat (ok + j)"
      using a2 [OF p0(1,3)] j j' by simp
    finally have first: "b ! nat (2 * ok + j) = c0 ! nat (ok + j)" .
    have second: "b ! nat (ok1 + ok + j) = c1 ! nat (ok + j)"
      using b2 [OF p1] j j' by simp
    from first second True show ?thesis
      by (simp add: ok_def ok1_def)
  next
    case False
    with i have ik: "i < k" by simp
    define oi where "oi = offsets ! i"
    define oi1 where "oi1 = offsets ! Suc i"
    have oi0: "0 \<le> oi" and oile: "oi1 \<le> ok"
      using nonneg [of i] mono [of "Suc i" k] ik k by (simp_all add: oi_def oi1_def ok_def)
    from j have j': "j < oi1 - oi"
      by (simp add: oi_def oi1_def)
    have p0: "0 \<le> 2 * oi + j" "2 * oi + j < int (length a)" "2 * oi + j < int (length w)"
      and p1: "0 \<le> oi1 + oi + j" "oi1 + oi + j < int (length a)"
        "oi1 + oi + j < int (length w)"
      using j j' oi0 oile ok0 okle ok1l len a1 by simp_all
    have "b ! nat (2 * oi + j) = a ! nat (2 * oi + j)"
      using b2 [OF p0(1,2)] j j' oile okle by simp
    also have "\<dots> = w ! nat (2 * oi + j)"
      using a2 [OF p0(1,3)] j j' oile okle by simp
    finally have first: "b ! nat (2 * oi + j) = w ! nat (2 * oi + j)" .
    have "b ! nat (oi1 + oi + j) = a ! nat (oi1 + oi + j)"
      using b2 [OF p1(1,2)] j j' oile okle by simp
    also have "\<dots> = w ! nat (oi1 + oi + j)"
      using a2 [OF p1(1,3)] j j' oile okle by simp
    finally have second: "b ! nat (oi1 + oi + j) = w ! nat (oi1 + oi + j)" .
    from old [OF ik j] first second show ?thesis
      by (simp add: oi_def oi1_def)
  qed
  from fold lenb new show ?case
    by blast
qed


lemma slice_eqI:
  fixes a b m :: nat
  assumes "a + m \<le> length w" and "b + m \<le> length c"
    and "\<And>j. j < m \<Longrightarrow> w ! (a + j) = c ! (b + j)"
  shows "take m (drop a w) = take m (drop b c)"
proof (rule nth_equalityI)
  show "length (take m (drop a w)) = length (take m (drop b c))"
    using assms(1,2) by simp
  fix j
  assume "j < length (take m (drop a w))"
  then have "j < m" by simp
  then show "take m (drop a w) ! j = take m (drop b c) ! j"
    using assms by simp
qed

lemma pack_restricted_slices:
  assumes ne: "offsets \<noteq> []" and sorted: "sorted offsets" and hd0: "0 \<le> hd offsets"
    and l0: "last offsets \<le> int (length c0)" and l1: "last offsets \<le> int (length c1)"
    and lb: "length buf = nat (2 * last offsets)"
  shows "\<exists>w. pack_restricted offsets c0 c1 buf = Inr w
       \<and> length w = nat (2 * last offsets)
       \<and> (\<forall>i. Suc i < length offsets \<longrightarrow>
             restriction_slice offsets w 0 i = coefficient_slice offsets c0 i
           \<and> restriction_slice offsets w 1 i = coefficient_slice offsets c1 i)"
proof -
  note mono = offsets_facts(1) [OF ne sorted hd0]
    and nonneg = offsets_facts(2) [OF ne sorted hd0]
    and le_last = offsets_facts(3) [OF ne sorted hd0]
  from ne have "length offsets - 1 < length offsets"
    by simp
  from pack_restricted_prefix [OF ne sorted hd0 l0 l1 lb this] obtain w
    where pw: "pack_restricted offsets c0 c1 buf = Inr w"
      and lw: "length w = length buf"
      and elems: "\<And>i j. i < length offsets - 1 \<Longrightarrow> 0 \<le> j
           \<Longrightarrow> j < offsets ! Suc i - offsets ! i \<Longrightarrow>
             w ! nat (2 * offsets ! i + j) = c0 ! nat (offsets ! i + j)
           \<and> w ! nat (offsets ! Suc i + offsets ! i + j) = c1 ! nat (offsets ! i + j)"
    unfolding pack_restricted_def by blast
  have slices: "restriction_slice offsets w 0 i = coefficient_slice offsets c0 i
           \<and> restriction_slice offsets w 1 i = coefficient_slice offsets c1 i"
    if si: "Suc i < length offsets" for i
  proof -
    define oi where "oi = offsets ! i"
    define oi1 where "oi1 = offsets ! Suc i"
    define m where "m = nat (oi1 - oi)"
    have oi0: "0 \<le> oi" and oile: "oi \<le> oi1" and oil: "oi1 \<le> last offsets"
      using nonneg [of i] mono [of i "Suc i"] le_last [OF si] si
      by (simp_all add: oi_def oi1_def)
    from si have i: "i < length offsets - 1" by simp
    have e: "w ! nat (2 * oi + int j) = c0 ! nat (oi + int j)
           \<and> w ! nat (oi1 + oi + int j) = c1 ! nat (oi + int j)" if "j < m" for j
      using elems [OF i, of "int j"] that by (simp add: oi_def oi1_def m_def)
    have "take m (drop (nat (2 * oi)) w) = take m (drop (nat oi) c0)"
    proof (rule slice_eqI)
      show "nat (2 * oi) + m \<le> length w"
        using oi0 oile oil lw lb by (simp add: m_def)
      show "nat oi + m \<le> length c0"
        using oi0 oile oil l0 by (simp add: m_def)
      fix j assume "j < m"
      from e [OF this] oi0 show "w ! (nat (2 * oi) + j) = c0 ! (nat oi + j)"
        by (simp add: nat_add_distrib)
    qed
    moreover have "take m (drop (nat (2 * oi + (oi1 - oi))) w) = take m (drop (nat oi) c1)"
    proof (rule slice_eqI)
      show "nat (2 * oi + (oi1 - oi)) + m \<le> length w"
        using oi0 oile oil lw lb by (simp add: m_def)
      show "nat oi + m \<le> length c1"
        using oi0 oile oil l1 by (simp add: m_def)
      fix j assume "j < m"
      from oi0 oile have "nat (2 * oi + (oi1 - oi)) + j = nat (oi1 + oi + int j)"
        by simp
      with e [OF \<open>j < m\<close>] oi0 show "w ! (nat (2 * oi + (oi1 - oi)) + j) = c1 ! (nat oi + j)"
        by (simp add: nat_add_distrib)
    qed
    ultimately show ?thesis
      by (simp add: restriction_slice_def coefficient_slice_def oi_def oi1_def m_def)
  qed
  from pw lw lb slices show ?thesis
    by auto
qed

lemma std_find_le: "std_find xs v \<le> length xs"
  by (induction xs) simp_all

lemma std_find_less_iff: "std_find xs v < length xs \<longleftrightarrow> v \<in> set xs"
  by (induction xs) auto

lemma std_find_nth: "v \<in> set xs \<Longrightarrow> xs ! std_find xs v = v"
  by (induction xs) auto

lemma std_find_first: "j < std_find xs v \<Longrightarrow> xs ! j \<noteq> v"
proof (induction xs arbitrary: j)
  case Nil
  then show ?case by simp
next
  case (Cons y ys)
  then show ?case
    by (cases j) (auto split: if_splits)
qed

lemma local_facet_index_Inr:
  "local_facet_index c_to_f cell_id f = Inr lf \<longleftrightarrow>
     (\<exists>facets. links c_to_f cell_id = Inr facets \<and> f \<in> set facets
        \<and> lf = int (std_find facets f))"
  using std_find_le [of _ f]
  by (auto simp: local_facet_index_def Let_def ebind_eq_Inr assert_that_def
      std_find_less_iff [symmetric] order.strict_iff_order split: if_splits)

lemma local_facet_index_not_found:
  "links c_to_f cell_id = Inr facets \<Longrightarrow> f \<notin> set facets \<Longrightarrow>
     local_facet_index c_to_f cell_id f
       = Inl (AssertionFailed ''it != (facets.data() + facets.rows())'')"
  using std_find_less_iff [of facets f] std_find_le [of facets f]
  by (simp add: local_facet_index_def Let_def)

lemma two_cells:
  assumes "length cs = 2" and "at cs 0 = Inr a" and "at cs 1 = Inr b"
  shows "cs = [a, b]"
proof -
  from assms(1) obtain y z where "cs = [y, z]"
    by (cases cs; cases "tl cs") auto
  with assms(2,3) show ?thesis
    by (simp add: at_def)
qed

lemma one_cell:
  assumes "length cs = 1" and "at cs 0 = Inr a"
  shows "cs = [a]"
proof -
  from assms(1) obtain y where "cs = [y]"
    by (cases cs) auto
  with assms(2) show ?thesis
    by (simp add: at_def)
qed

lemma interior_facet_arguments_Inr:
  assumes "interior_facet_arguments g n t f_to_c c_to_f coeffs offsets buf f
             = Inr (w, xs, lf, p, info)"
  shows "\<exists>cell0 cell1 facets0 facets1 perm0 perm1 x_dofs0 x_dofs1 rows0 rows1 c0 c1.
      links f_to_c f = Inr [cell0, cell1]
    \<and> links c_to_f cell0 = Inr facets0 \<and> f \<in> set facets0
    \<and> links c_to_f cell1 = Inr facets1 \<and> f \<in> set facets1
    \<and> at2 (facet_permutations t) (int (std_find facets0 f)) cell0 = Inr perm0
    \<and> at2 (facet_permutations t) (int (std_find facets1 f)) cell1 = Inr perm1
    \<and> links (dofmap g) cell0 = Inr x_dofs0 \<and> links (dofmap g) cell1 = Inr x_dofs1
    \<and> gather_coordinate_dofs g n x_dofs0 = Inr rows0
    \<and> gather_coordinate_dofs g n x_dofs1 = Inr rows1
    \<and> row coeffs cell0 = Inr c0 \<and> row coeffs cell1 = Inr c1
    \<and> pack_restricted offsets c0 c1 buf = Inr w
    \<and> at (cell_permutation_info t) cell0 = Inr info
    \<and> xs = rows0 @ rows1
    \<and> lf = [int (std_find facets0 f), int (std_find facets1 f)]
    \<and> p = [perm0, perm1]"
proof -
  from assms obtain cells cell0 cell1 lf0 lf1 perm0 perm1 x_dofs0 x_dofs1 rows0 rows1 c0 c1
    where cells: "links f_to_c f = Inr cells" "length cells = 2"
      "at cells 0 = Inr cell0" "at cells 1 = Inr cell1"
    and lfs: "local_facet_index c_to_f cell0 f = Inr lf0"
      "local_facet_index c_to_f cell1 f = Inr lf1"
    and rest: "at2 (facet_permutations t) lf0 cell0 = Inr perm0"
      "at2 (facet_permutations t) lf1 cell1 = Inr perm1"
      "links (dofmap g) cell0 = Inr x_dofs0" "links (dofmap g) cell1 = Inr x_dofs1"
      "gather_coordinate_dofs g n x_dofs0 = Inr rows0"
      "gather_coordinate_dofs g n x_dofs1 = Inr rows1"
      "row coeffs cell0 = Inr c0" "row coeffs cell1 = Inr c1"
      "pack_restricted offsets c0 c1 buf = Inr w"
      "at (cell_permutation_info t) cell0 = Inr info"
      "xs = rows0 @ rows1" "lf = [lf0, lf1]" "p = [perm0, perm1]"
    unfolding interior_facet_arguments_def ebind_eq_Inr
    by (auto simp: assert_that_def split: if_splits)
  from cells have "links f_to_c f = Inr [cell0, cell1]"
    by (simp add: two_cells)
  moreover from lfs obtain facets0 facets1
    where "links c_to_f cell0 = Inr facets0" "f \<in> set facets0" "lf0 = int (std_find facets0 f)"
      "links c_to_f cell1 = Inr facets1" "f \<in> set facets1" "lf1 = int (std_find facets1 f)"
    unfolding local_facet_index_Inr by blast
  ultimately show ?thesis
    using rest by blast
qed

text \<open>
  C2.  Let the offsets be non-empty, non-decreasing and non-negative, let the two
  coefficient rows reach to \<open>offsets.back()\<close>, and let the buffer have
  \<open>2 * offsets.back()\<close> entries, whatever they hold.  Then the coefficient loop
  succeeds, keeps that length, and for every coefficient \<open>i\<close> the slice of restriction 0
  of the buffer is the \<open>offsets[i]:offsets[i+1]\<close> slice of the first row and the slice
  of restriction 1 is that of the second row.  For a facet with incident cells
  \<open>(cell0, cell1)\<close> the buffer handed to the kernel is this packing of the coefficient
  rows of \<open>cell0\<close> and \<open>cell1\<close>.
\<close>

theorem interior_facet_coefficient_layout:
  fixes c0 c1 buf :: "'a list"
  assumes "offsets \<noteq> []" and "sorted offsets" and "0 \<le> hd offsets"
    and "last offsets \<le> int (length c0)" and "last offsets \<le> int (length c1)"
    and "length buf = nat (2 * last offsets)"
  shows "(\<exists>w. pack_restricted offsets c0 c1 buf = Inr w
           \<and> length w = nat (2 * last offsets)
           \<and> (\<forall>i. Suc i < length offsets \<longrightarrow>
                 restriction_slice offsets w 0 i = coefficient_slice offsets c0 i
               \<and> restriction_slice offsets w 1 i = coefficient_slice offsets c1 i))
       \<and> (\<forall>(g :: 'r Geometry) n t f_to_c c_to_f coeffs f cell0 cell1 w xs lf p info.
            links f_to_c f = Inr [cell0, cell1] \<longrightarrow>
            row coeffs cell0 = Inr c0 \<longrightarrow> row coeffs cell1 = Inr c1 \<longrightarrow>
            interior_facet_arguments g n t f_to_c c_to_f coeffs offsets buf f
              = Inr (w, xs, lf, p, info) \<longrightarrow>
              length w = nat (2 * last offsets)
            \<and> (\<forall>i. Suc i < length offsets \<longrightarrow>
                  restriction_slice offsets w 0 i = coefficient_slice offsets c0 i
                \<and> restriction_slice offsets w 1 i = coefficient_slice offsets c1 i))"
proof (intro conjI allI impI)
  show packed: "\<exists>w. pack_restricted offsets c0 c1 buf = Inr w
           \<and> length w = nat (2 * last offsets)
           \<and> (\<forall>i. Suc i < length offsets \<longrightarrow>
                 restriction_slice offsets w 0 i = coefficient_slice offsets c0 i
               \<and> restriction_slice offsets w 1 i = coefficient_slice offsets c1 i)"
    using assms by (rule pack_restricted_slices)
  fix g :: "'r Geometry" and n t f_to_c c_to_f coeffs f cell0 cell1 w xs lf p info
  assume cells: "links f_to_c f = Inr [cell0, cell1]"
    and rows: "row coeffs cell0 = Inr c0" "row coeffs cell1 = Inr c1"
    and args: "interior_facet_arguments g n t f_to_c c_to_f coeffs offsets buf f
              = Inr (w, xs, lf, p, info)"
  from interior_facet_arguments_Inr [OF args] cells rows
  have "pack_restricted offsets c0 c1 buf = Inr w"
    by auto
  with packed show "length w = nat (2 * last offsets)"
    and "\<And>i. Suc i < length offsets \<Longrightarrow>
           restriction_slice offsets w 0 i = coefficient_slice offsets c0 i"
    and "\<And>i. Suc i < length offsets \<Longrightarrow>
           restriction_slice offsets w 1 i = coefficient_slice offsets c1 i"
    by auto
qed

section \<open>Facet loops\<close>

lemma assemble_interior_facets_body_Inr:
  "assemble_interior_facets_body g n t f_to_c c_to_f fn coeffs offsets cv (A, buf) f
      = Inr (A', buf') \<longleftrightarrow>
   (\<exists>xs lf p info.
      interior_facet_arguments g n t f_to_c c_to_f coeffs offsets buf f
        = Inr (buf', xs, lf, p, info)
    \<and> A' = fn A buf' cv xs (Some lf) (Some p) info)"
  by (auto simp: assemble_interior_facets_body_def ebind_eq_Inr)

lemma assemble_interior_facets_Inr:
  assumes "assemble_interior_facets tc junk msh active_facets fn coeffs offsets cv
             = Inr (v, m')"
  shows "\<exists>n1 t1 t2 t3 num_dofs_g coeff_array f_to_c c_to_f buf'.
      create_entities tc (topology msh) (t_dim (topology msh) - 1) = Inr (n1, t1)
    \<and> create_connectivity tc t1 (t_dim (topology msh) - 1) (t_dim (topology msh)) = Inr t2
    \<and> create_entity_permutations tc t2 = Inr t3
    \<and> num_links (dofmap (geometry msh)) 0 = Inr num_dofs_g
    \<and> new_coeff_array junk offsets = Inr coeff_array
    \<and> last offsets = cols coeffs
    \<and> connectivity t3 (t_dim (topology msh) - 1, t_dim (topology msh)) = Some f_to_c
    \<and> connectivity t3 (t_dim (topology msh), t_dim (topology msh) - 1) = Some c_to_f
    \<and> foldE (assemble_interior_facets_body (geometry msh) num_dofs_g t3 f_to_c c_to_f
                fn coeffs offsets cv) (0, coeff_array) active_facets = Inr (v, buf')
    \<and> m' = msh\<lparr>topology := t3\<rparr>"
  using assms
  by (auto simp: assemble_interior_facets_def Let_def ebind_eq_Inr require_connectivity_def
      assert_that_def split: option.splits if_splits)


lemma foldE_Inr_each:
  assumes "foldE f s xs = Inr s'" and "y \<in> set xs"
  shows "\<exists>s1 s2. f s1 y = Inr s2"
  using assms
proof (induction xs arbitrary: s)
  case Nil
  then show ?case by simp
next
  case (Cons z zs)
  from Cons.prems(1) obtain s1 where s1: "f s z = Inr s1" and rest: "foldE f s1 zs = Inr s'"
    by (auto simp: ebind_eq_Inr)
  show ?case
  proof (cases "y = z")
    case True
    with s1 show ?thesis by blast
  next
    case False
    with Cons.prems(2) have "y \<in> set zs" by simp
    from Cons.IH [OF rest this] show ?thesis .
  qed
qed

lemma num_links_Inr:
  "num_links a i = Inr n \<longleftrightarrow> (\<exists>cs. links a i = Inr cs \<and> n = int (length cs))"
  by (auto simp: num_links_def links_def ebind_eq_Inr)

lemma num_links_of_links: "links a i = Inr cs \<Longrightarrow> num_links a i = Inr (int (length cs))"
  by (simp add: num_links_Inr)

lemma at_Cons_0 [simp]: "at (y # ys) 0 = Inr y"
  by (simp add: at_def)

lemma at_Cons_1 [simp]: "at (y # z # zs) 1 = Inr z"
  by (simp add: at_def)

lemma exterior_facet_arguments_Inr:
  assumes "exterior_facet_arguments g n t f_to_c c_to_f coeffs facet
             = Inr (w, xs, lf, p, info)"
  shows "\<exists>cell_id facets x_dofs.
      links f_to_c facet = Inr [cell_id]
    \<and> links c_to_f cell_id = Inr facets \<and> facet \<in> set facets
    \<and> lf = int (std_find facets facet)
    \<and> links (dofmap g) cell_id = Inr x_dofs
    \<and> gather_coordinate_dofs g n x_dofs = Inr xs
    \<and> row coeffs cell_id = Inr w
    \<and> at2 (facet_permutations t) lf cell_id = Inr p
    \<and> at (cell_permutation_info t) cell_id = Inr info"
proof -
  from assms obtain cs cell_id x_dofs
    where cells: "links f_to_c facet = Inr cs" "length cs = 1" "at cs 0 = Inr cell_id"
    and lfi: "local_facet_index c_to_f cell_id facet = Inr lf"
    and rest: "links (dofmap g) cell_id = Inr x_dofs"
      "gather_coordinate_dofs g n x_dofs = Inr xs"
      "row coeffs cell_id = Inr w"
      "at2 (facet_permutations t) lf cell_id = Inr p"
      "at (cell_permutation_info t) cell_id = Inr info"
    by (auto simp: exterior_facet_arguments_def ebind_eq_Inr num_links_Inr assert_that_def
        split: if_splits)
  from cells have "links f_to_c facet = Inr [cell_id]"
    by (simp add: one_cell)
  moreover from lfi obtain facets
    where "links c_to_f cell_id = Inr facets" "facet \<in> set facets"
      "lf = int (std_find facets facet)"
    unfolding local_facet_index_Inr by blast
  ultimately show ?thesis
    using rest by blast
qed

lemma assemble_exterior_facets_body_Inr:
  "assemble_exterior_facets_body g n t f_to_c c_to_f fn coeffs cv A facet = Inr A' \<longleftrightarrow>
   (\<exists>w xs lf p info.
      exterior_facet_arguments g n t f_to_c c_to_f coeffs facet = Inr (w, xs, lf, p, info)
    \<and> A' = fn A w cv xs (Some [lf]) (Some [p]) info)"
  by (auto simp: assemble_exterior_facets_body_def ebind_eq_Inr)

lemma assemble_exterior_facets_Inr:
  assumes "assemble_exterior_facets tc msh active_facets fn coeffs cv = Inr (v, m')"
  shows "\<exists>n1 t1 t2 t3 num_dofs_g f_to_c c_to_f.
      create_entities tc (topology msh) (t_dim (topology msh) - 1) = Inr (n1, t1)
    \<and> create_connectivity tc t1 (t_dim (topology msh) - 1) (t_dim (topology msh)) = Inr t2
    \<and> create_entity_permutations tc t2 = Inr t3
    \<and> num_links (dofmap (geometry msh)) 0 = Inr num_dofs_g
    \<and> connectivity t3 (t_dim (topology msh) - 1, t_dim (topology msh)) = Some f_to_c
    \<and> connectivity t3 (t_dim (topology msh), t_dim (topology msh) - 1) = Some c_to_f
    \<and> foldE (assemble_exterior_facets_body (geometry msh) num_dofs_g t3 f_to_c c_to_f
                fn coeffs cv) 0 active_facets = Inr v
    \<and> m' = msh\<lparr>topology := t3\<rparr>"
  using assms
  by (auto simp: assemble_exterior_facets_def Let_def ebind_eq_Inr require_connectivity_def
      split: option.splits)

lemma at_Inr_iff: "at xs i = Inr y \<longleftrightarrow> 0 \<le> i \<and> i < int (length xs) \<and> y = xs ! nat i"
  by (auto simp: at_def)

lemma interior_loop_calls:
  assumes "foldE (assemble_interior_facets_body g n t fc cf fn coeffs offsets cv) (A, buf) fs
             = Inr (v, buf')"
  shows "\<exists>calls.
      v = foldl (\<lambda>A (w, xs, lf, p, info). fn A w cv xs (Some lf) (Some p) info) A calls
    \<and> list_all2 (\<lambda>f (w, xs, lf, p, info).
          \<exists>b. interior_facet_arguments g n t fc cf coeffs offsets b f
                 = Inr (w, xs, lf, p, info)) fs calls"
  using assms
proof (induction fs arbitrary: A buf)
  case Nil
  then have "v = A"
    by simp
  then show ?case
    by (intro exI [of _ "[]"]) simp
next
  case (Cons f fs)
  from Cons.prems obtain A1 buf1
    where step: "assemble_interior_facets_body g n t fc cf fn coeffs offsets cv (A, buf) f
        = Inr (A1, buf1)"
      and rest: "foldE (assemble_interior_facets_body g n t fc cf fn coeffs offsets cv)
        (A1, buf1) fs = Inr (v, buf')"
    by (auto simp: ebind_eq_Inr)
  from step obtain xs lf p info
    where args: "interior_facet_arguments g n t fc cf coeffs offsets buf f
        = Inr (buf1, xs, lf, p, info)"
      and A1: "A1 = fn A buf1 cv xs (Some lf) (Some p) info"
    unfolding assemble_interior_facets_body_Inr by blast
  from Cons.IH [OF rest] obtain calls
    where v: "v = foldl (\<lambda>A (w, xs, lf, p, info). fn A w cv xs (Some lf) (Some p) info)
        A1 calls"
      and all: "list_all2 (\<lambda>f (w, xs, lf, p, info).
          \<exists>b. interior_facet_arguments g n t fc cf coeffs offsets b f
                 = Inr (w, xs, lf, p, info)) fs calls"
    by blast
  show ?case
  proof (intro exI [of _ "(buf1, xs, lf, p, info) # calls"] conjI)
    show "v = foldl (\<lambda>A (w, xs, lf, p, info). fn A w cv xs (Some lf) (Some p) info) A
        ((buf1, xs, lf, p, info) # calls)"
      by (simp add: v A1)
    from args all
    show "list_all2 (\<lambda>f (w, xs, lf, p, info).
          \<exists>b. interior_facet_arguments g n t fc cf coeffs offsets b f
                 = Inr (w, xs, lf, p, info)) (f # fs) ((buf1, xs, lf, p, info) # calls)"
      by auto
  qed
qed

lemma interior_dispatcher_calls:
  fixes fn :: "('a::zero, 'r) kernel"
  assumes "assemble_interior_facets tc junk msh active_facets fn coeffs offsets cv
             = Inr (v, m')"
  shows "\<exists>fc cf calls.
        connectivity (topology m') (t_dim (topology msh) - 1, t_dim (topology msh)) = Some fc
      \<and> connectivity (topology m') (t_dim (topology msh), t_dim (topology msh) - 1) = Some cf
      \<and> v = foldl (\<lambda>A (w, xs, lf, p, info). fn A w cv xs (Some lf) (Some p) info) 0 calls
      \<and> list_all2 (\<lambda>f (w, xs, lf, p, info).
           \<exists>cell0 cell1 facets0 facets1 perm0 perm1.
               links fc f = Inr [cell0, cell1]
             \<and> links cf cell0 = Inr facets0 \<and> f \<in> set facets0
             \<and> links cf cell1 = Inr facets1 \<and> f \<in> set facets1
             \<and> lf = [int (std_find facets0 f), int (std_find facets1 f)]
             \<and> at2 (facet_permutations (topology m')) (int (std_find facets0 f)) cell0
                 = Inr perm0
             \<and> at2 (facet_permutations (topology m')) (int (std_find facets1 f)) cell1
                 = Inr perm1
             \<and> p = [perm0, perm1]
             \<and> at (cell_permutation_info (topology m')) cell0 = Inr info)
           active_facets calls"
proof -
  from assemble_interior_facets_Inr [OF assms]
  obtain t3 num_dofs_g coeff_array fc cf buf'
    where fc: "connectivity t3 (t_dim (topology msh) - 1, t_dim (topology msh)) = Some fc"
      and cf: "connectivity t3 (t_dim (topology msh), t_dim (topology msh) - 1) = Some cf"
      and loop: "foldE (assemble_interior_facets_body (geometry msh) num_dofs_g t3 fc cf
                fn coeffs offsets cv) (0, coeff_array) active_facets = Inr (v, buf')"
      and m': "m' = msh\<lparr>topology := t3\<rparr>"
    by blast
  from interior_loop_calls [OF loop] obtain calls
    where v: "v = foldl (\<lambda>A (w, xs, lf, p, info). fn A w cv xs (Some lf) (Some p) info)
        0 calls"
      and all: "list_all2 (\<lambda>f (w, xs, lf, p, info).
          \<exists>b. interior_facet_arguments (geometry msh) num_dofs_g t3 fc cf coeffs offsets b f
                 = Inr (w, xs, lf, p, info)) active_facets calls"
    by blast
  from all have "list_all2 (\<lambda>f (w, xs, lf, p, info).
           \<exists>cell0 cell1 facets0 facets1 perm0 perm1.
               links fc f = Inr [cell0, cell1]
             \<and> links cf cell0 = Inr facets0 \<and> f \<in> set facets0
             \<and> links cf cell1 = Inr facets1 \<and> f \<in> set facets1
             \<and> lf = [int (std_find facets0 f), int (std_find facets1 f)]
             \<and> at2 (facet_permutations t3) (int (std_find facets0 f)) cell0 = Inr perm0
             \<and> at2 (facet_permutations t3) (int (std_find facets1 f)) cell1 = Inr perm1
             \<and> p = [perm0, perm1]
             \<and> at (cell_permutation_info t3) cell0 = Inr info)
           active_facets calls"
  proof (rule list_all2_mono)
    fix f :: int and call :: "'a list \<times> 'r list list \<times> int list \<times> 8 word list \<times> 32 word"
    obtain w xs lf p info where call: "call = (w, xs, lf, p, info)"
      by (cases call) auto
    assume "case call of (w, xs, lf, p, info) \<Rightarrow>
          \<exists>b. interior_facet_arguments (geometry msh) num_dofs_g t3 fc cf coeffs offsets b f
                 = Inr (w, xs, lf, p, info)"
    then obtain b where "interior_facet_arguments (geometry msh) num_dofs_g t3 fc cf coeffs
        offsets b f = Inr (w, xs, lf, p, info)"
      by (auto simp: call)
    from interior_facet_arguments_Inr [OF this]
    show "case call of (w, xs, lf, p, info) \<Rightarrow>
           \<exists>cell0 cell1 facets0 facets1 perm0 perm1.
               links fc f = Inr [cell0, cell1]
             \<and> links cf cell0 = Inr facets0 \<and> f \<in> set facets0
             \<and> links cf cell1 = Inr facets1 \<and> f \<in> set facets1
             \<and> lf = [int (std_find facets0 f), int (std_find facets1 f)]
             \<and> at2 (facet_permutations t3) (int (std_find facets0 f)) cell0 = Inr perm0
             \<and> at2 (facet_permutations t3) (int (std_find facets1 f)) cell1 = Inr perm1
             \<and> p = [perm0, perm1]
             \<and> at (cell_permutation_info t3) cell0 = Inr info"
      unfolding call prod.case by blast
  qed
  with fc cf v show ?thesis
    unfolding m' by (intro exI [of _ fc] exI [of _ cf] exI [of _ calls]) simp
qed

text \<open>
  C3.  When the interior-facet dispatcher returns a value, that value is the kernel
  folded from zero over one call per active facet, in the order of the list.  The
  call for facet \<open>f\<close> gets: the two positions of \<open>f\<close> in the facet lists of its two
  incident cells, \<open>cell0\<close> first and \<open>cell1\<close> second, as these stand in the
  facet-to-cell connectivity the dispatcher has built; the two permutation bytes at
  (position, cell), in the same order; and the permutation bitmask of \<open>cell0\<close>.
  The bitmask of \<open>cell1\<close> plays no part: in the loop body, changing it leaves the
  result as it is.
\<close>

theorem interior_facet_kernel_call:
  fixes fn :: "('a::zero, 'r) kernel"
  shows
  "(assemble_interior_facets tc junk msh active_facets fn coeffs offsets cv = Inr (v, m') \<longrightarrow>
     (\<exists>fc cf calls.
        connectivity (topology m') (t_dim (topology msh) - 1, t_dim (topology msh)) = Some fc
      \<and> connectivity (topology m') (t_dim (topology msh), t_dim (topology msh) - 1) = Some cf
      \<and> v = foldl (\<lambda>A (w, xs, lf, p, info). fn A w cv xs (Some lf) (Some p) info) 0 calls
      \<and> list_all2 (\<lambda>f (w, xs, lf, p, info).
           \<exists>cell0 cell1 facets0 facets1 perm0 perm1.
               links fc f = Inr [cell0, cell1]
             \<and> links cf cell0 = Inr facets0 \<and> f \<in> set facets0
             \<and> links cf cell1 = Inr facets1 \<and> f \<in> set facets1
             \<and> lf = [int (std_find facets0 f), int (std_find facets1 f)]
             \<and> at2 (facet_permutations (topology m')) (int (std_find facets0 f)) cell0
                 = Inr perm0
             \<and> at2 (facet_permutations (topology m')) (int (std_find facets1 f)) cell1
                 = Inr perm1
             \<and> p = [perm0, perm1]
             \<and> at (cell_permutation_info (topology m')) cell0 = Inr info)
           active_facets calls))
   \<and> (assemble_interior_facets_body g n t f_to_c c_to_f fn coeffs offsets cv (A, buf) f
      = Inr (A', buf') \<longrightarrow>
    (\<exists>cell0 cell1 facets0 facets1 perm0 perm1 coordinate_dofs.
        links f_to_c f = Inr [cell0, cell1]
      \<and> links c_to_f cell0 = Inr facets0 \<and> f \<in> set facets0
      \<and> facets0 ! std_find facets0 f = f
      \<and> links c_to_f cell1 = Inr facets1 \<and> f \<in> set facets1
      \<and> facets1 ! std_find facets1 f = f
      \<and> at2 (facet_permutations t) (int (std_find facets0 f)) cell0 = Inr perm0
      \<and> at2 (facet_permutations t) (int (std_find facets1 f)) cell1 = Inr perm1
      \<and> 0 \<le> cell0 \<and> cell0 < int (length (cell_permutation_info t))
      \<and> A' = fn A buf' cv coordinate_dofs
                (Some [int (std_find facets0 f), int (std_find facets1 f)])
                (Some [perm0, perm1]) (cell_permutation_info t ! nat cell0)
      \<and> (\<forall>v. cell1 \<noteq> cell0 \<longrightarrow>
            assemble_interior_facets_body g n
              (t\<lparr>cell_permutation_info := (cell_permutation_info t)[nat cell1 := v]\<rparr>)
              f_to_c c_to_f fn coeffs offsets cv (A, buf) f = Inr (A', buf'))))"
proof (intro conjI impI)
  assume "assemble_interior_facets tc junk msh active_facets fn coeffs offsets cv
      = Inr (v, m')"
  then show "\<exists>fc cf calls.
        connectivity (topology m') (t_dim (topology msh) - 1, t_dim (topology msh)) = Some fc
      \<and> connectivity (topology m') (t_dim (topology msh), t_dim (topology msh) - 1) = Some cf
      \<and> v = foldl (\<lambda>A (w, xs, lf, p, info). fn A w cv xs (Some lf) (Some p) info) 0 calls
      \<and> list_all2 (\<lambda>f (w, xs, lf, p, info).
           \<exists>cell0 cell1 facets0 facets1 perm0 perm1.
               links fc f = Inr [cell0, cell1]
             \<and> links cf cell0 = Inr facets0 \<and> f \<in> set facets0
             \<and> links cf cell1 = Inr facets1 \<and> f \<in> set facets1
             \<and> lf = [int (std_find facets0 f), int (std_find facets1 f)]
             \<and> at2 (facet_permutations (topology m')) (int (std_find facets0 f)) cell0
                 = Inr perm0
             \<and> at2 (facet_permutations (topology m')) (int (std_find facets1 f)) cell1
                 = Inr perm1
             \<and> p = [perm0, perm1]
             \<and> at (cell_permutation_info (topology m')) cell0 = Inr info)
           active_facets calls"
    by (rule interior_dispatcher_calls)
next
  assume "assemble_interior_facets_body g n t f_to_c c_to_f fn coeffs offsets cv (A, buf) f
      = Inr (A', buf')"
  then obtain xs lf p info
    where args: "interior_facet_arguments g n t f_to_c c_to_f coeffs offsets buf f
        = Inr (buf', xs, lf, p, info)"
      and A': "A' = fn A buf' cv xs (Some lf) (Some p) info"
    unfolding assemble_interior_facets_body_Inr by blast
  from interior_facet_arguments_Inr [OF args]
  obtain cell0 cell1 facets0 facets1 perm0 perm1 x_dofs0 x_dofs1 rows0 rows1 c0 c1
    where cells: "links f_to_c f = Inr [cell0, cell1]"
      and f0: "links c_to_f cell0 = Inr facets0" "f \<in> set facets0"
      and f1: "links c_to_f cell1 = Inr facets1" "f \<in> set facets1"
      and p0: "at2 (facet_permutations t) (int (std_find facets0 f)) cell0 = Inr perm0"
      and p1: "at2 (facet_permutations t) (int (std_find facets1 f)) cell1 = Inr perm1"
      and geo: "links (dofmap g) cell0 = Inr x_dofs0" "links (dofmap g) cell1 = Inr x_dofs1"
        "gather_coordinate_dofs g n x_dofs0 = Inr rows0"
        "gather_coordinate_dofs g n x_dofs1 = Inr rows1"
      and co: "row coeffs cell0 = Inr c0" "row coeffs cell1 = Inr c1"
        "pack_restricted offsets c0 c1 buf = Inr buf'"
      and info: "at (cell_permutation_info t) cell0 = Inr info"
      and out: "xs = rows0 @ rows1" "lf = [int (std_find facets0 f), int (std_find facets1 f)]"
        "p = [perm0, perm1]"
    by blast
  from info have range: "0 \<le> cell0" "cell0 < int (length (cell_permutation_info t))"
    and info': "info = cell_permutation_info t ! nat cell0"
    by (simp_all add: at_Inr_iff)
  from f1(1) have c1: "0 \<le> cell1"
    by (simp add: links_def at_Inr_iff)
  have other: "assemble_interior_facets_body g n
        (t\<lparr>cell_permutation_info := (cell_permutation_info t)[nat cell1 := v]\<rparr>)
        f_to_c c_to_f fn coeffs offsets cv (A, buf) f = Inr (A', buf')"
    if "cell1 \<noteq> cell0" for v
  proof -
    from that range c1 have "nat cell1 \<noteq> nat cell0"
      by linarith
    with range have "at ((cell_permutation_info t)[nat cell1 := v]) cell0 = Inr info"
      by (simp add: at_def info')
    with cells f0 f1 p0 p1 geo co show ?thesis
      by (simp add: assemble_interior_facets_body_def interior_facet_arguments_def
          local_facet_index_Inr [THEN iffD2] A' out)
  qed
  from cells f0 f1 p0 p1 range other std_find_nth [OF f0(2)] std_find_nth [OF f1(2)]
  show "\<exists>cell0 cell1 facets0 facets1 perm0 perm1 coordinate_dofs.
        links f_to_c f = Inr [cell0, cell1]
      \<and> links c_to_f cell0 = Inr facets0 \<and> f \<in> set facets0
      \<and> facets0 ! std_find facets0 f = f
      \<and> links c_to_f cell1 = Inr facets1 \<and> f \<in> set facets1
      \<and> facets1 ! std_find facets1 f = f
      \<and> at2 (facet_permutations t) (int (std_find facets0 f)) cell0 = Inr perm0
      \<and> at2 (facet_permutations t) (int (std_find facets1 f)) cell1 = Inr perm1
      \<and> 0 \<le> cell0 \<and> cell0 < int (length (cell_permutation_info t))
      \<and> A' = fn A buf' cv coordinate_dofs
                (Some [int (std_find facets0 f), int (std_find facets1 f)])
                (Some [perm0, perm1]) (cell_permutation_info t ! nat cell0)
      \<and> (\<forall>v. cell1 \<noteq> cell0 \<longrightarrow>
            assemble_interior_facets_body g n
              (t\<lparr>cell_permutation_info := (cell_permutation_info t)[nat cell1 := v]\<rparr>)
              f_to_c c_to_f fn coeffs offsets cv (A, buf) f = Inr (A', buf'))"
    unfolding A' out info' by blast
qed

text \<open>
  C4.  In the exterior-facet loop a facet whose incident-cell list has not exactly one
  entry fails the assertion on \<^verbatim>\<open>num_links\<close>, and a facet absent from the facet list
  of its cell fails the assertion on the search; in the interior-facet loop a facet
  with other than two incident cells fails the assertion on \<^verbatim>\<open>cells.rows()\<close>, and a
  facet absent from the facet list of either cell fails the assertion on the search.
  A failure ends the dispatcher with that error and no value: whenever a dispatcher
  returns a value, every active facet has exactly one (exterior) or exactly two
  (interior) incident cells in the connectivity the dispatcher built, and occurs in
  the facet list of each.
\<close>

theorem facet_assembly_inconsistent_topology:
  "(\<forall>cs. links f_to_c facet = Inr cs \<longrightarrow> length cs \<noteq> 1 \<longrightarrow>
        assemble_exterior_facets_body g n t f_to_c c_to_f fn coeffs cv A facet
          = Inl (AssertionFailed ''f_to_c->num_links(facet) == 1''))
   \<and> (\<forall>c facets. links f_to_c facet = Inr [c] \<longrightarrow> links c_to_f c = Inr facets \<longrightarrow>
        facet \<notin> set facets \<longrightarrow>
        assemble_exterior_facets_body g n t f_to_c c_to_f fn coeffs cv A facet
          = Inl (AssertionFailed ''it != (facets.data() + facets.rows())''))
   \<and> (\<forall>cs. links f_to_c facet = Inr cs \<longrightarrow> length cs \<noteq> 2 \<longrightarrow>
        assemble_interior_facets_body g n t f_to_c c_to_f fn coeffs offsets cv (A, buf) facet
          = Inl (AssertionFailed ''cells.rows() == 2''))
   \<and> (\<forall>c0 c1 facets0. links f_to_c facet = Inr [c0, c1] \<longrightarrow>
        links c_to_f c0 = Inr facets0 \<longrightarrow> facet \<notin> set facets0 \<longrightarrow>
        assemble_interior_facets_body g n t f_to_c c_to_f fn coeffs offsets cv (A, buf) facet
          = Inl (AssertionFailed ''it != (facets.data() + facets.rows())''))
   \<and> (\<forall>c0 c1 facets0 facets1. links f_to_c facet = Inr [c0, c1] \<longrightarrow>
        links c_to_f c0 = Inr facets0 \<longrightarrow> facet \<in> set facets0 \<longrightarrow>
        links c_to_f c1 = Inr facets1 \<longrightarrow> facet \<notin> set facets1 \<longrightarrow>
        assemble_interior_facets_body g n t f_to_c c_to_f fn coeffs offsets cv (A, buf) facet
          = Inl (AssertionFailed ''it != (facets.data() + facets.rows())''))
   \<and> (\<forall>v m'. assemble_exterior_facets tc msh active_facets fn coeffs cv = Inr (v, m') \<longrightarrow>
        (\<exists>fc cf. connectivity (topology m') (t_dim (topology msh) - 1, t_dim (topology msh))
                    = Some fc
           \<and> connectivity (topology m') (t_dim (topology msh), t_dim (topology msh) - 1)
                    = Some cf
           \<and> (\<forall>f\<in>set active_facets. \<exists>c facets.
                 links fc f = Inr [c] \<and> links cf c = Inr facets \<and> f \<in> set facets)))
   \<and> (\<forall>v m'. assemble_interior_facets tc junk msh active_facets fn coeffs offsets cv
                 = Inr (v, m') \<longrightarrow>
        (\<exists>fc cf. connectivity (topology m') (t_dim (topology msh) - 1, t_dim (topology msh))
                    = Some fc
           \<and> connectivity (topology m') (t_dim (topology msh), t_dim (topology msh) - 1)
                    = Some cf
           \<and> (\<forall>f\<in>set active_facets. \<exists>c0 c1 facets0 facets1.
                 links fc f = Inr [c0, c1] \<and> links cf c0 = Inr facets0 \<and> f \<in> set facets0
               \<and> links cf c1 = Inr facets1 \<and> f \<in> set facets1)))"
proof (intro conjI allI impI)
  fix cs
  assume "links f_to_c facet = Inr cs" "length cs \<noteq> 1"
  then show "assemble_exterior_facets_body g n t f_to_c c_to_f fn coeffs cv A facet
      = Inl (AssertionFailed ''f_to_c->num_links(facet) == 1'')"
    by (simp add: assemble_exterior_facets_body_def exterior_facet_arguments_def
        num_links_of_links)
next
  fix c facets
  assume "links f_to_c facet = Inr [c]" "links c_to_f c = Inr facets" "facet \<notin> set facets"
  then show "assemble_exterior_facets_body g n t f_to_c c_to_f fn coeffs cv A facet
      = Inl (AssertionFailed ''it != (facets.data() + facets.rows())'')"
    by (simp add: assemble_exterior_facets_body_def exterior_facet_arguments_def
        num_links_of_links local_facet_index_not_found)
next
  fix cs
  assume "links f_to_c facet = Inr cs" "length cs \<noteq> 2"
  then show "assemble_interior_facets_body g n t f_to_c c_to_f fn coeffs offsets cv
      (A, buf) facet = Inl (AssertionFailed ''cells.rows() == 2'')"
    by (simp add: assemble_interior_facets_body_def interior_facet_arguments_def)
next
  fix c0 c1 facets0
  assume "links f_to_c facet = Inr [c0, c1]" "links c_to_f c0 = Inr facets0"
    "facet \<notin> set facets0"
  then show "assemble_interior_facets_body g n t f_to_c c_to_f fn coeffs offsets cv
      (A, buf) facet = Inl (AssertionFailed ''it != (facets.data() + facets.rows())'')"
    by (simp add: assemble_interior_facets_body_def interior_facet_arguments_def
        local_facet_index_not_found)
next
  fix c0 c1 facets0 facets1
  assume "links f_to_c facet = Inr [c0, c1]" "links c_to_f c0 = Inr facets0"
    "facet \<in> set facets0" "links c_to_f c1 = Inr facets1" "facet \<notin> set facets1"
  moreover from this have "local_facet_index c_to_f c0 facet = Inr (int (std_find facets0 facet))"
    by (simp add: local_facet_index_Inr)
  ultimately show "assemble_interior_facets_body g n t f_to_c c_to_f fn coeffs offsets cv
      (A, buf) facet = Inl (AssertionFailed ''it != (facets.data() + facets.rows())'')"
    by (simp add: assemble_interior_facets_body_def interior_facet_arguments_def
        local_facet_index_not_found)
next
  fix v m'
  assume "assemble_exterior_facets tc msh active_facets fn coeffs cv = Inr (v, m')"
  from assemble_exterior_facets_Inr [OF this] obtain t3 num_dofs_g fc cf
    where fc: "connectivity t3 (t_dim (topology msh) - 1, t_dim (topology msh)) = Some fc"
      and cf: "connectivity t3 (t_dim (topology msh), t_dim (topology msh) - 1) = Some cf"
      and loop: "foldE (assemble_exterior_facets_body (geometry msh) num_dofs_g t3 fc cf
                fn coeffs cv) 0 active_facets = Inr v"
      and m': "m' = msh\<lparr>topology := t3\<rparr>"
    by blast
  have "\<exists>c facets. links fc f = Inr [c] \<and> links cf c = Inr facets \<and> f \<in> set facets"
    if "f \<in> set active_facets" for f
  proof -
    from foldE_Inr_each [OF loop that] obtain A1 A2
      where "assemble_exterior_facets_body (geometry msh) num_dofs_g t3 fc cf
                fn coeffs cv A1 f = Inr A2"
      by blast
    then obtain w xs lf p info
      where "exterior_facet_arguments (geometry msh) num_dofs_g t3 fc cf coeffs f
          = Inr (w, xs, lf, p, info)"
      unfolding assemble_exterior_facets_body_Inr by blast
    from exterior_facet_arguments_Inr [OF this] show ?thesis
      by blast
  qed
  with fc cf m' show "\<exists>fc cf.
      connectivity (topology m') (t_dim (topology msh) - 1, t_dim (topology msh)) = Some fc
    \<and> connectivity (topology m') (t_dim (topology msh), t_dim (topology msh) - 1) = Some cf
    \<and> (\<forall>f\<in>set active_facets. \<exists>c facets.
          links fc f = Inr [c] \<and> links cf c = Inr facets \<and> f \<in> set facets)"
    by auto
next
  fix v m'
  assume "assemble_interior_facets tc junk msh active_facets fn coeffs offsets cv
      = Inr (v, m')"
  from assemble_interior_facets_Inr [OF this] obtain t3 num_dofs_g coeff_array fc cf buf'
    where fc: "connectivity t3 (t_dim (topology msh) - 1, t_dim (topology msh)) = Some fc"
      and cf: "connectivity t3 (t_dim (topology msh), t_dim (topology msh) - 1) = Some cf"
      and loop: "foldE (assemble_interior_facets_body (geometry msh) num_dofs_g t3 fc cf
                fn coeffs offsets cv) (0, coeff_array) active_facets = Inr (v, buf')"
      and m': "m' = msh\<lparr>topology := t3\<rparr>"
    by blast
  have "\<exists>c0 c1 facets0 facets1.
          links fc f = Inr [c0, c1] \<and> links cf c0 = Inr facets0 \<and> f \<in> set facets0
        \<and> links cf c1 = Inr facets1 \<and> f \<in> set facets1"
    if "f \<in> set active_facets" for f
  proof -
    from foldE_Inr_each [OF loop that] obtain A1 b1 A2 b2
      where "assemble_interior_facets_body (geometry msh) num_dofs_g t3 fc cf
                fn coeffs offsets cv (A1, b1) f = Inr (A2, b2)"
      by (metis surj_pair)
    then obtain xs lf p info
      where "interior_facet_arguments (geometry msh) num_dofs_g t3 fc cf coeffs offsets b1 f
          = Inr (b2, xs, lf, p, info)"
      unfolding assemble_interior_facets_body_Inr by blast
    from interior_facet_arguments_Inr [OF this] show ?thesis
      by blast
  qed
  with fc cf m' show "\<exists>fc cf.
      connectivity (topology m') (t_dim (topology msh) - 1, t_dim (topology msh)) = Some fc
    \<and> connectivity (topology m') (t_dim (topology msh), t_dim (topology msh) - 1) = Some cf
    \<and> (\<forall>f\<in>set active_facets. \<exists>c0 c1 facets0 facets1.
          links fc f = Inr [c0, c1] \<and> links cf c0 = Inr facets0 \<and> f \<in> set facets0
        \<and> links cf c1 = Inr facets1 \<and> f \<in> set facets1)"
    by auto
qed

section \<open>Lazy and explicit building of the topology\<close>

lemma create_entities_present:
  "connectivity t (d, 0) \<noteq> None \<Longrightarrow> create_entities tc t d = Inr (- 1, t)"
  by (simp add: create_entities_def)

lemma create_entities_absent:
  assumes "connectivity t (d, 0) = None"
    and "compute_entities tc t d = (ce, ev, Some im)"
  shows "\<exists>t'. create_entities tc t d = Inr (size_local im, t')
      \<and> t_dim t' = t_dim t
      \<and> cell_permutation_info t' = cell_permutation_info t
      \<and> facet_permutations t' = facet_permutations t
      \<and> (\<forall>p. connectivity t' p =
            (if p = (d, 0) \<and> ev \<noteq> None then ev
             else if p = (t_dim t, d) \<and> ce \<noteq> None then ce
             else connectivity t p))"
  using assms
  by (cases ce; cases ev)
     (auto simp: create_entities_def set_connectivity_def set_index_map_def)

lemma create_entities_cached_from:
  assumes tc: "computes F tc" and t: "cached_from F t" and d: "0 \<le> d" "d \<le> t_dim F"
  shows "\<exists>n t'. create_entities tc t d = Inr (n, t') \<and> cached_from F t'
      \<and> (\<forall>p a. connectivity t p = Some a \<longrightarrow> connectivity t' p = Some a)"
proof (cases "connectivity t (d, 0) = None")
  case False
  with t show ?thesis
    by (auto simp: create_entities_present)
next
  case True
  from tc have dim: "1 \<le> t_dim F"
    by (simp add: computes_def)
  from t have td: "t_dim t = t_dim F"
    and sub: "\<And>p a. connectivity t p = Some a \<Longrightarrow> connectivity F p = Some a"
    and pair: "connectivity t (t_dim F - 1, t_dim F) \<noteq> None
        \<Longrightarrow> connectivity t (t_dim F, t_dim F - 1) \<noteq> None"
    and perms: "cell_permutation_info t = [] \<and> facet_permutations t = []
      \<or> cell_permutation_info t = cell_permutation_info F
        \<and> facet_permutations t = facet_permutations F"
    by (auto simp: cached_from_def)
  obtain ce ev imap where res: "compute_entities tc t d = (ce, ev, imap)"
    by (cases "compute_entities tc t d") auto
  from tc t have "entities_contract F tc t"
    by (simp add: computes_def)
  with d True res have im: "imap \<noteq> None"
    and ce: "ce = None \<or> ce = connectivity F (t_dim F, d)"
    and ev: "ev = None \<or> ev = connectivity F (d, 0)"
    unfolding entities_contract_def by fastforce+
  from im obtain im' where "imap = Some im'"
    by auto
  with res have res': "compute_entities tc t d = (ce, ev, Some im')"
    by simp
  from create_entities_absent [OF True res'] obtain t'
    where run: "create_entities tc t d = Inr (size_local im', t')"
      and td': "t_dim t' = t_dim t"
      and perms': "cell_permutation_info t' = cell_permutation_info t"
        "facet_permutations t' = facet_permutations t"
      and conn: "\<And>p. connectivity t' p =
            (if p = (d, 0) \<and> ev \<noteq> None then ev
             else if p = (t_dim t, d) \<and> ce \<noteq> None then ce
             else connectivity t p)"
    by blast
  have ext: "connectivity t' p = Some a" if "connectivity t p = Some a" for p a
    using that sub [OF that] ce ev True by (auto simp: conn td)
  have sub': "connectivity F p = Some a" if "connectivity t' p = Some a" for p a
    using that ce ev sub [of p a] by (auto simp: conn td split: if_splits)
  have n1: "\<not> ((t_dim F - 1, t_dim F) = (d, 0) \<and> ev \<noteq> None)"
    using dim by auto
  have n2: "\<not> ((t_dim F - 1, t_dim F) = (t_dim t, d) \<and> ce \<noteq> None)"
    using td by auto
  have keep: "connectivity t' (t_dim F - 1, t_dim F) = connectivity t (t_dim F - 1, t_dim F)"
    unfolding conn [of "(t_dim F - 1, t_dim F)"] using n1 n2 by (simp only: if_False)
  have pair': "connectivity t' (t_dim F, t_dim F - 1) \<noteq> None"
    if "connectivity t' (t_dim F - 1, t_dim F) \<noteq> None"
  proof -
    from that keep have "connectivity t (t_dim F - 1, t_dim F) \<noteq> None"
      by simp
    from pair [OF this] obtain b where "connectivity t (t_dim F, t_dim F - 1) = Some b"
      by auto
    from ext [OF this] show ?thesis
      by simp
  qed
  have "cached_from F t'"
    unfolding cached_from_def using td td' sub' pair' perms perms' by auto
  with run ext show ?thesis
    by blast
qed


lemma create_connectivity_run:
  assumes "create_entities tc t d0 = Inr (n0, ta)"
    and "create_entities tc ta d1 = Inr (n1, tb)"
    and "compute_connectivity tc tb d0 d1 = (c01, c10)"
  shows "\<exists>t'. create_connectivity tc t d0 d1 = Inr t'
      \<and> t_dim t' = t_dim tb
      \<and> cell_permutation_info t' = cell_permutation_info tb
      \<and> facet_permutations t' = facet_permutations tb
      \<and> (\<forall>p. connectivity t' p =
            (if p = (d1, d0) \<and> c10 \<noteq> None then c10
             else if p = (d0, d1) \<and> c01 \<noteq> None then c01
             else connectivity tb p))"
proof -
  define t1 where "t1 = (case c01 of None \<Rightarrow> tb | Some c \<Rightarrow> set_connectivity tb c d0 d1)"
  define t2 where "t2 = (case c10 of None \<Rightarrow> t1 | Some c \<Rightarrow> set_connectivity t1 c d1 d0)"
  define t3 where "t3 = (if d0 = t_dim t2 - 1 \<and> d1 = t_dim t2
                  then set_interior_facets t2 (compute_interior_facets tc t2) else t2)"
  have run: "create_connectivity tc t d0 d1 = Inr t3"
    unfolding create_connectivity_def t3_def t2_def t1_def Let_def
    by (simp only: assms ebind_Inr prod.case)
  have p1: "t_dim t1 = t_dim tb" "cell_permutation_info t1 = cell_permutation_info tb"
      "facet_permutations t1 = facet_permutations tb"
      "\<And>p. connectivity t1 p = (if p = (d0, d1) \<and> c01 \<noteq> None then c01 else connectivity tb p)"
    by (cases c01; simp add: t1_def set_connectivity_def)+
  have p2: "t_dim t2 = t_dim t1" "cell_permutation_info t2 = cell_permutation_info t1"
      "facet_permutations t2 = facet_permutations t1"
      "\<And>p. connectivity t2 p = (if p = (d1, d0) \<and> c10 \<noteq> None then c10 else connectivity t1 p)"
    by (cases c10; simp add: t2_def set_connectivity_def)+
  have p3: "t_dim t3 = t_dim t2" "cell_permutation_info t3 = cell_permutation_info t2"
      "facet_permutations t3 = facet_permutations t2" "connectivity t3 = connectivity t2"
    by (simp_all add: t3_def set_interior_facets_def)
  show ?thesis
  proof (intro exI conjI allI)
    show "create_connectivity tc t d0 d1 = Inr t3"
      by (rule run)
    show "t_dim t3 = t_dim tb"
      by (simp only: p1(1) p2(1) p3(1))
    show "cell_permutation_info t3 = cell_permutation_info tb"
      by (simp only: p1(2) p2(2) p3(2))
    show "facet_permutations t3 = facet_permutations tb"
      by (simp only: p1(3) p2(3) p3(3))
    fix p
    show "connectivity t3 p =
            (if p = (d1, d0) \<and> c10 \<noteq> None then c10
             else if p = (d0, d1) \<and> c01 \<noteq> None then c01
             else connectivity tb p)"
      unfolding p3(4) p2(4) p1(4) by (rule refl)
  qed
qed

lemma create_connectivity_cached_from:
  assumes tc: "computes F tc" and t: "cached_from F t"
  shows "\<exists>t'. create_connectivity tc t (t_dim F - 1) (t_dim F) = Inr t'
      \<and> cached_from F t'
      \<and> connectivity t' (t_dim F - 1, t_dim F) = connectivity F (t_dim F - 1, t_dim F)
      \<and> connectivity t' (t_dim F, t_dim F - 1) = connectivity F (t_dim F, t_dim F - 1)
      \<and> (\<forall>p a. connectivity t p = Some a \<longrightarrow> connectivity t' p = Some a)"
proof -
  define A where "A = (t_dim F - 1, t_dim F)"
  define B where "B = (t_dim F, t_dim F - 1)"
  from tc have dim: "1 \<le> t_dim F"
    and FA: "connectivity F A \<noteq> None" and FB: "connectivity F B \<noteq> None"
    by (simp_all add: computes_def A_def B_def)
  have AB: "A \<noteq> B"
    by (simp add: A_def B_def)
  from create_entities_cached_from [OF tc t, of "t_dim F - 1"] dim obtain n0 ta
    where ra: "create_entities tc t (t_dim F - 1) = Inr (n0, ta)"
      and ta: "cached_from F ta"
      and ea: "\<And>p a. connectivity t p = Some a \<Longrightarrow> connectivity ta p = Some a"
    by auto
  from create_entities_cached_from [OF tc ta, of "t_dim F"] dim obtain n1 tb
    where rb: "create_entities tc ta (t_dim F) = Inr (n1, tb)"
      and tb: "cached_from F tb"
      and eb: "\<And>p a. connectivity ta p = Some a \<Longrightarrow> connectivity tb p = Some a"
    by auto
  from tb have td: "t_dim tb = t_dim F"
    and sub: "\<And>p a. connectivity tb p = Some a \<Longrightarrow> connectivity F p = Some a"
    and pair: "connectivity tb A \<noteq> None \<Longrightarrow> connectivity tb B \<noteq> None"
    and perms: "cell_permutation_info tb = [] \<and> facet_permutations tb = []
      \<or> cell_permutation_info tb = cell_permutation_info F
        \<and> facet_permutations tb = facet_permutations F"
    by (auto simp: cached_from_def A_def B_def)
  obtain c01 c10 where cc: "compute_connectivity tc tb (t_dim F - 1) (t_dim F) = (c01, c10)"
    by (cases "compute_connectivity tc tb (t_dim F - 1) (t_dim F)") auto
  from tc tb have "connectivity_contract F tc tb"
    by (simp add: computes_def)
  with cc have c01: "c01 = None \<or> c01 = connectivity F A"
    and c10: "c10 = None \<or> c10 = connectivity F B"
    and newA: "connectivity tb A = None \<Longrightarrow> c01 = connectivity F A"
    and newB: "connectivity tb A = None \<Longrightarrow> connectivity tb B = None
        \<Longrightarrow> c10 = connectivity F B"
    by (auto simp: connectivity_contract_def A_def B_def)
  from create_connectivity_run [OF ra rb cc] obtain t'
    where run: "create_connectivity tc t (t_dim F - 1) (t_dim F) = Inr t'"
      and td': "t_dim t' = t_dim tb"
      and perms': "cell_permutation_info t' = cell_permutation_info tb"
        "facet_permutations t' = facet_permutations tb"
      and conn: "\<And>p. connectivity t' p =
            (if p = B \<and> c10 \<noteq> None then c10
             else if p = A \<and> c01 \<noteq> None then c01
             else connectivity tb p)"
    unfolding A_def B_def by blast
  have ext_b: "connectivity t' p = Some a" if "connectivity tb p = Some a" for p a
    using that sub [OF that] c01 c10 by (auto simp: conn)
  have sub': "connectivity F p = Some a" if "connectivity t' p = Some a" for p a
    using that c01 c10 sub [of p a] by (auto simp: conn split: if_splits)
  have a: "connectivity t' A = connectivity F A"
  proof (cases "connectivity tb A")
    case None
    from newA [OF None] FA AB show ?thesis
      by (auto simp: conn)
  next
    case (Some a)
    from ext_b [OF Some] sub [OF Some] show ?thesis
      by simp
  qed
  have b: "connectivity t' B = connectivity F B"
  proof (cases "connectivity tb B")
    case (Some b)
    from ext_b [OF Some] sub [OF Some] show ?thesis
      by simp
  next
    case None
    with pair have "connectivity tb A = None"
      by (cases "connectivity tb A") auto
    from newB [OF this None] FB show ?thesis
      by (auto simp: conn)
  qed
  have cached: "cached_from F t'"
    unfolding cached_from_def
  proof (intro conjI allI impI)
    show "t_dim t' = t_dim F"
      using td td' by simp
    show "connectivity F p = Some a" if "connectivity t' p = Some a" for p a
      using that by (rule sub')
    show "connectivity t' (t_dim F, t_dim F - 1) \<noteq> None"
      using b FB by (simp add: B_def)
    show "cell_permutation_info t' = [] \<and> facet_permutations t' = []
      \<or> cell_permutation_info t' = cell_permutation_info F
        \<and> facet_permutations t' = facet_permutations F"
      using perms perms' by simp
  qed
  have ext: "\<forall>p a. connectivity t p = Some a \<longrightarrow> connectivity t' p = Some a"
    using ext_b eb ea by blast
  from run cached a b ext show ?thesis
    unfolding A_def B_def by (intro exI [of _ t'] conjI)
qed

lemma create_all_entities_cached_from:
  assumes tc: "computes F tc"
  shows "cached_from F s \<Longrightarrow> \<forall>d\<in>set ds. 0 \<le> d \<and> d \<le> t_dim F \<Longrightarrow>
    \<exists>s'. foldE (\<lambda>s d. ebind (create_entities tc s d) (\<lambda>(_, s'). Inr s')) s ds = Inr s'
       \<and> cached_from F s'
       \<and> (\<forall>p a. connectivity s p = Some a \<longrightarrow> connectivity s' p = Some a)"
proof (induction ds arbitrary: s)
  case Nil
  then show ?case by simp
next
  case (Cons d ds)
  from create_entities_cached_from [OF tc Cons.prems(1), of d] Cons.prems(2) obtain n s1
    where r1: "create_entities tc s d = Inr (n, s1)" and c1: "cached_from F s1"
      and e1: "\<And>p a. connectivity s p = Some a \<Longrightarrow> connectivity s1 p = Some a"
    by auto
  from Cons.IH [OF c1] Cons.prems(2) obtain s'
    where r2: "foldE (\<lambda>s d. ebind (create_entities tc s d) (\<lambda>(_, s'). Inr s')) s1 ds = Inr s'"
      and c2: "cached_from F s'"
      and e2: "\<And>p a. connectivity s1 p = Some a \<Longrightarrow> connectivity s' p = Some a"
    by auto
  from r1 r2 c2 e1 e2 show ?case
    by auto
qed

lemma create_entity_permutations_cached_from:
  assumes tc: "computes F tc" and t: "cached_from F t"
  shows "\<exists>t'. create_entity_permutations tc t = Inr t'
      \<and> cached_from F t'
      \<and> cell_permutation_info t' = cell_permutation_info F
      \<and> facet_permutations t' = facet_permutations F
      \<and> (\<forall>p a. connectivity t p = Some a \<longrightarrow> connectivity t' p = Some a)"
proof -
  from t have td: "t_dim t = t_dim F"
    by (simp add: cached_from_def)
  have "\<forall>d\<in>set (map int [0..<nat (t_dim t)]). 0 \<le> d \<and> d \<le> t_dim F"
    using td by auto
  from create_all_entities_cached_from [OF tc t this] obtain s
    where run: "foldE (\<lambda>s d. ebind (create_entities tc s d) (\<lambda>(_, s'). Inr s')) t
                  (map int [0..<nat (t_dim t)]) = Inr s"
      and s: "cached_from F s"
      and ext: "\<And>p a. connectivity t p = Some a \<Longrightarrow> connectivity s p = Some a"
    by blast
  from tc s have "permutations_contract F tc s"
    by (simp add: computes_def)
  then have p: "t_dim (topology_create_entity_permutations tc s) = t_dim s"
      "connectivity (topology_create_entity_permutations tc s) = connectivity s"
      "cell_permutation_info (topology_create_entity_permutations tc s)
        = cell_permutation_info F"
      "facet_permutations (topology_create_entity_permutations tc s) = facet_permutations F"
    by (simp_all add: permutations_contract_def)
  from s p have "cached_from F (topology_create_entity_permutations tc s)"
    by (simp add: cached_from_def)
  with run p ext show ?thesis
    by (auto simp: create_entity_permutations_def)
qed


lemma same_assembly_Inr:
  "geometry m1 = geometry m2 \<Longrightarrow> cached_from F (topology m1) \<Longrightarrow> cached_from F (topology m2)
     \<Longrightarrow> same_assembly F (Inr (v, m1)) (Inr (v, m2))"
  by (simp add: same_assembly_def)

lemma same_assembly_ebind:
  "(\<And>y. same_assembly F (f1 y) (f2 y)) \<Longrightarrow> same_assembly F (ebind r f1) (ebind r f2)"
  by (cases r) (simp_all add: same_assembly_def)

lemma same_assembly_case_prod:
  "(\<And>a b. same_assembly F (f1 a b) (f2 a b))
     \<Longrightarrow> same_assembly F (case p of (a, b) \<Rightarrow> f1 a b) (case p of (a, b) \<Rightarrow> f2 a b)"
  by (cases p) simp

lemma same_assembly_then:
  assumes "same_assembly F r1 r2"
    and "\<And>v m1 m2. geometry m1 = geometry m2 \<Longrightarrow> cached_from F (topology m1)
          \<Longrightarrow> cached_from F (topology m2) \<Longrightarrow> same_assembly F (k (v, m1)) (k (v, m2))"
  shows "same_assembly F (ebind r1 k) (ebind r2 k)"
proof (cases r1)
  case (Inl e)
  with assms(1) show ?thesis
    by (simp add: same_assembly_def)
next
  case (Inr p1)
  with assms(1) obtain v m1 m2 where "r1 = Inr (v, m1)" "r2 = Inr (v, m2)"
    "geometry m1 = geometry m2" "cached_from F (topology m1)" "cached_from F (topology m2)"
    by (cases p1; cases r2) (auto simp: same_assembly_def)
  with assms(2) show ?thesis
    by simp
qed

lemma same_assembly_value:
  "same_assembly F r1 r2 \<Longrightarrow> map_sum id fst r1 = map_sum id fst r2"
  by (cases r1; cases r2) (auto simp: same_assembly_def)

lemma assemble_cells_same:
  assumes tc: "computes F tc"
    and c1: "cached_from F (topology m1)" and c2: "cached_from F (topology m2)"
    and g: "geometry m1 = geometry m2"
  shows "same_assembly F (assemble_cells tc m1 cells fn coeffs cv)
           (assemble_cells tc m2 cells fn coeffs cv)"
proof -
  from tc have dim: "0 \<le> t_dim F"
    by (simp add: computes_def)
  have built: "\<exists>n t1 t2. create_entities tc t (t_dim F) = Inr (n, t1)
      \<and> create_entity_permutations tc t1 = Inr t2 \<and> cached_from F t2
      \<and> cell_permutation_info t2 = cell_permutation_info F"
    if "cached_from F t" for t
  proof -
    from create_entities_cached_from [OF tc that dim] obtain n t1
      where "create_entities tc t (t_dim F) = Inr (n, t1)" "cached_from F t1"
      by auto
    moreover from create_entity_permutations_cached_from [OF tc this(2)] obtain t2
      where "create_entity_permutations tc t1 = Inr t2" "cached_from F t2"
        "cell_permutation_info t2 = cell_permutation_info F"
      by auto
    ultimately show ?thesis
      by blast
  qed
  from built [OF c1] obtain n1 a1 b1
    where r1: "create_entities tc (topology m1) (t_dim F) = Inr (n1, a1)"
      "create_entity_permutations tc a1 = Inr b1" "cached_from F b1"
      "cell_permutation_info b1 = cell_permutation_info F"
    by blast
  from built [OF c2] obtain n2 a2 b2
    where r2: "create_entities tc (topology m2) (t_dim F) = Inr (n2, a2)"
      "create_entity_permutations tc a2 = Inr b2" "cached_from F b2"
      "cell_permutation_info b2 = cell_permutation_info F"
    by blast
  from c1 c2 have td: "t_dim (topology m1) = t_dim F" "t_dim (topology m2) = t_dim F"
    by (simp_all add: cached_from_def)
  show ?thesis
    unfolding assemble_cells_def Let_def td
    by (simp add: r1 r2 g)
       (intro same_assembly_ebind same_assembly_Inr; simp add: r1 r2 g)
qed


lemma facet_build_cached_from:
  assumes tc: "computes F tc" and t: "cached_from F t"
  shows "\<exists>n t1 t2 t3 fc cf.
      create_entities tc t (t_dim F - 1) = Inr (n, t1)
    \<and> create_connectivity tc t1 (t_dim F - 1) (t_dim F) = Inr t2
    \<and> create_entity_permutations tc t2 = Inr t3
    \<and> cached_from F t3
    \<and> cell_permutation_info t3 = cell_permutation_info F
    \<and> facet_permutations t3 = facet_permutations F
    \<and> connectivity F (t_dim F - 1, t_dim F) = Some fc
    \<and> connectivity F (t_dim F, t_dim F - 1) = Some cf
    \<and> connectivity t3 (t_dim F - 1, t_dim F) = Some fc
    \<and> connectivity t3 (t_dim F, t_dim F - 1) = Some cf"
proof -
  from tc have dim: "0 \<le> t_dim F - 1" "t_dim F - 1 \<le> t_dim F"
    by (simp_all add: computes_def)
  from tc obtain fc cf where F: "connectivity F (t_dim F - 1, t_dim F) = Some fc"
      "connectivity F (t_dim F, t_dim F - 1) = Some cf"
    by (auto simp: computes_def)
  from create_entities_cached_from [OF tc t dim] obtain n t1
    where r1: "create_entities tc t (t_dim F - 1) = Inr (n, t1)" and c1: "cached_from F t1"
    by auto
  from create_connectivity_cached_from [OF tc c1] obtain t2
    where r2: "create_connectivity tc t1 (t_dim F - 1) (t_dim F) = Inr t2"
      and c2: "cached_from F t2"
      and ab: "connectivity t2 (t_dim F - 1, t_dim F) = connectivity F (t_dim F - 1, t_dim F)"
        "connectivity t2 (t_dim F, t_dim F - 1) = connectivity F (t_dim F, t_dim F - 1)"
    by auto
  from create_entity_permutations_cached_from [OF tc c2] obtain t3
    where r3: "create_entity_permutations tc t2 = Inr t3"
      and c3: "cached_from F t3"
      and p3: "cell_permutation_info t3 = cell_permutation_info F"
        "facet_permutations t3 = facet_permutations F"
      and e3: "\<And>p a. connectivity t2 p = Some a \<Longrightarrow> connectivity t3 p = Some a"
    by auto
  from ab F e3 have "connectivity t3 (t_dim F - 1, t_dim F) = Some fc"
    "connectivity t3 (t_dim F, t_dim F - 1) = Some cf"
    by simp_all
  with r1 r2 r3 c3 p3 F show ?thesis
    by blast
qed

lemma exterior_body_perms:
  "facet_permutations t = facet_permutations t'
     \<Longrightarrow> cell_permutation_info t = cell_permutation_info t'
     \<Longrightarrow> assemble_exterior_facets_body g n t fc cf = assemble_exterior_facets_body g n t' fc cf"
  by (intro ext) (simp add: assemble_exterior_facets_body_def exterior_facet_arguments_def)

lemma interior_body_perms:
  "facet_permutations t = facet_permutations t'
     \<Longrightarrow> cell_permutation_info t = cell_permutation_info t'
     \<Longrightarrow> assemble_interior_facets_body g n t fc cf = assemble_interior_facets_body g n t' fc cf"
  by (intro ext) (simp add: assemble_interior_facets_body_def interior_facet_arguments_def)

lemma assemble_exterior_facets_same:
  assumes tc: "computes F tc"
    and c1: "cached_from F (topology m1)" and c2: "cached_from F (topology m2)"
    and g: "geometry m1 = geometry m2"
  shows "same_assembly F (assemble_exterior_facets tc m1 facets fn coeffs cv)
           (assemble_exterior_facets tc m2 facets fn coeffs cv)"
proof -
  from facet_build_cached_from [OF tc c1] obtain n1 x1 y1 z1 fc cf
    where r1: "create_entities tc (topology m1) (t_dim F - 1) = Inr (n1, x1)"
      "create_connectivity tc x1 (t_dim F - 1) (t_dim F) = Inr y1"
      "create_entity_permutations tc y1 = Inr z1" "cached_from F z1"
      and p1: "cell_permutation_info z1 = cell_permutation_info F"
        "facet_permutations z1 = facet_permutations F"
      and F: "connectivity F (t_dim F - 1, t_dim F) = Some fc"
        "connectivity F (t_dim F, t_dim F - 1) = Some cf"
      and k1: "connectivity z1 (t_dim F - 1, t_dim F) = Some fc"
        "connectivity z1 (t_dim F, t_dim F - 1) = Some cf"
    by auto
  from facet_build_cached_from [OF tc c2] F obtain n2 x2 y2 z2
    where r2: "create_entities tc (topology m2) (t_dim F - 1) = Inr (n2, x2)"
      "create_connectivity tc x2 (t_dim F - 1) (t_dim F) = Inr y2"
      "create_entity_permutations tc y2 = Inr z2" "cached_from F z2"
      and p2: "cell_permutation_info z2 = cell_permutation_info F"
        "facet_permutations z2 = facet_permutations F"
      and k2: "connectivity z2 (t_dim F - 1, t_dim F) = Some fc"
        "connectivity z2 (t_dim F, t_dim F - 1) = Some cf"
    by auto
  from c1 c2 have td: "t_dim (topology m1) = t_dim F" "t_dim (topology m2) = t_dim F"
    by (simp_all add: cached_from_def)
  have pz: "facet_permutations z1 = facet_permutations z2"
      "cell_permutation_info z1 = cell_permutation_info z2"
    by (simp_all add: p1 p2)
  note body = exterior_body_perms [OF pz]
  show ?thesis
    unfolding assemble_exterior_facets_def Let_def td
    by (simp add: r1 r2 g k1 k2 require_connectivity_def body)
       (intro same_assembly_ebind same_assembly_Inr; simp add: r1 r2 g)
qed

lemma assemble_interior_facets_same:
  assumes tc: "computes F tc"
    and c1: "cached_from F (topology m1)" and c2: "cached_from F (topology m2)"
    and g: "geometry m1 = geometry m2"
  shows "same_assembly F (assemble_interior_facets tc junk m1 facets fn coeffs offsets cv)
           (assemble_interior_facets tc junk m2 facets fn coeffs offsets cv)"
proof -
  from facet_build_cached_from [OF tc c1] obtain n1 x1 y1 z1 fc cf
    where r1: "create_entities tc (topology m1) (t_dim F - 1) = Inr (n1, x1)"
      "create_connectivity tc x1 (t_dim F - 1) (t_dim F) = Inr y1"
      "create_entity_permutations tc y1 = Inr z1" "cached_from F z1"
      and p1: "cell_permutation_info z1 = cell_permutation_info F"
        "facet_permutations z1 = facet_permutations F"
      and F: "connectivity F (t_dim F - 1, t_dim F) = Some fc"
        "connectivity F (t_dim F, t_dim F - 1) = Some cf"
      and k1: "connectivity z1 (t_dim F - 1, t_dim F) = Some fc"
        "connectivity z1 (t_dim F, t_dim F - 1) = Some cf"
    by auto
  from facet_build_cached_from [OF tc c2] F obtain n2 x2 y2 z2
    where r2: "create_entities tc (topology m2) (t_dim F - 1) = Inr (n2, x2)"
      "create_connectivity tc x2 (t_dim F - 1) (t_dim F) = Inr y2"
      "create_entity_permutations tc y2 = Inr z2" "cached_from F z2"
      and p2: "cell_permutation_info z2 = cell_permutation_info F"
        "facet_permutations z2 = facet_permutations F"
      and k2: "connectivity z2 (t_dim F - 1, t_dim F) = Some fc"
        "connectivity z2 (t_dim F, t_dim F - 1) = Some cf"
    by auto
  from c1 c2 have td: "t_dim (topology m1) = t_dim F" "t_dim (topology m2) = t_dim F"
    by (simp_all add: cached_from_def)
  have pz: "facet_permutations z1 = facet_permutations z2"
      "cell_permutation_info z1 = cell_permutation_info z2"
    by (simp_all add: p1 p2)
  note body = interior_body_perms [OF pz]
  show ?thesis
    unfolding assemble_interior_facets_def Let_def td
    by (simp add: r1 r2 g k1 k2 require_connectivity_def body)
       (intro same_assembly_ebind same_assembly_case_prod same_assembly_Inr;
        simp add: r1 r2 g)
qed


lemma integral_loop_same:
  fixes D :: "'r Mesh \<Rightarrow> int list \<Rightarrow> ('a::plus, 'r) kernel \<Rightarrow> error + ('a \<times> 'r Mesh)"
  assumes D: "\<And>m1 m2 xs fn. geometry m1 = geometry m2 \<Longrightarrow> cached_from F (topology m1)
      \<Longrightarrow> cached_from F (topology m2) \<Longrightarrow> same_assembly F (D m1 xs fn) (D m2 xs fn)"
  shows "geometry m1 = geometry m2 \<Longrightarrow> cached_from F (topology m1)
      \<Longrightarrow> cached_from F (topology m2) \<Longrightarrow>
    same_assembly F
      (foldE (\<lambda>(value, m) (fn, xs). ebind (D m xs fn) (\<lambda>(v, m'). Inr (value + v, m')))
         (v0, m1) ints)
      (foldE (\<lambda>(value, m) (fn, xs). ebind (D m xs fn) (\<lambda>(v, m'). Inr (value + v, m')))
         (v0, m2) ints)"
proof (induction ints arbitrary: v0 m1 m2)
  case Nil
  then show ?case
    by (simp add: same_assembly_def)
next
  case (Cons i ints)
  obtain fn xs where i: "i = (fn, xs)"
    by (cases i) auto
  have step: "same_assembly F (D m1 xs fn) (D m2 xs fn)"
    using Cons.prems by (rule D)
  show ?case
  proof (cases "D m1 xs fn")
    case (Inl e)
    with step have "D m2 xs fn = Inl e"
      by (simp add: same_assembly_def)
    with Inl show ?thesis
      by (simp add: i same_assembly_def)
  next
    case (Inr p)
    with step obtain v n1 n2 where r: "D m1 xs fn = Inr (v, n1)" "D m2 xs fn = Inr (v, n2)"
      and n: "geometry n1 = geometry n2" "cached_from F (topology n1)"
        "cached_from F (topology n2)"
      by (cases p; cases "D m2 xs fn") (auto simp: same_assembly_def)
    from Cons.IH [OF n] show ?thesis
      by (simp add: i r)
  qed
qed

lemma assemble_integrals_same:
  fixes M :: "('a::{zero,plus}, 'r) Form" and m1 m2 :: "'r Mesh"
  assumes tc: "computes F tc"
    and c1: "cached_from F (topology m1)" and c2: "cached_from F (topology m2)"
    and g: "geometry m1 = geometry m2"
  shows "same_assembly F (assemble_integrals tc junk M m1 cv)
           (assemble_integrals tc junk M m2 cv)"
proof -
  have cells: "same_assembly F
      (foldE (\<lambda>(value, m) (fn, xs).
           ebind (assemble_cells tc m xs fn (pack_coefficients M) cv)
             (\<lambda>(v, m'). Inr (value + v, m'))) (v0, n1) ints)
      (foldE (\<lambda>(value, m) (fn, xs).
           ebind (assemble_cells tc m xs fn (pack_coefficients M) cv)
             (\<lambda>(v, m'). Inr (value + v, m'))) (v0, n2) ints)"
    if "geometry n1 = geometry n2" "cached_from F (topology n1)" "cached_from F (topology n2)"
    for v0 n1 n2 ints
    using that
    by (rule integral_loop_same [where D = "\<lambda>m xs fn. assemble_cells tc m xs fn
          (pack_coefficients M) cv", rotated])
       (rule assemble_cells_same [OF tc])
  have exterior: "same_assembly F
      (foldE (\<lambda>(value, m) (fn, xs).
           ebind (assemble_exterior_facets tc m xs fn (pack_coefficients M) cv)
             (\<lambda>(v, m'). Inr (value + v, m'))) (v0, n1) ints)
      (foldE (\<lambda>(value, m) (fn, xs).
           ebind (assemble_exterior_facets tc m xs fn (pack_coefficients M) cv)
             (\<lambda>(v, m'). Inr (value + v, m'))) (v0, n2) ints)"
    if "geometry n1 = geometry n2" "cached_from F (topology n1)" "cached_from F (topology n2)"
    for v0 n1 n2 ints
    using that
    by (rule integral_loop_same [where D = "\<lambda>m xs fn. assemble_exterior_facets tc m xs fn
          (pack_coefficients M) cv", rotated])
       (rule assemble_exterior_facets_same [OF tc])
  have interior: "same_assembly F
      (foldE (\<lambda>(value, m) (fn, xs).
           ebind (assemble_interior_facets tc junk m xs fn (pack_coefficients M)
                    (coefficient_offsets M) cv)
             (\<lambda>(v, m'). Inr (value + v, m'))) (v0, n1) ints)
      (foldE (\<lambda>(value, m) (fn, xs).
           ebind (assemble_interior_facets tc junk m xs fn (pack_coefficients M)
                    (coefficient_offsets M) cv)
             (\<lambda>(v, m'). Inr (value + v, m'))) (v0, n2) ints)"
    if "geometry n1 = geometry n2" "cached_from F (topology n1)" "cached_from F (topology n2)"
    for v0 n1 n2 ints
    using that
    by (rule integral_loop_same [where D = "\<lambda>m xs fn. assemble_interior_facets tc junk m xs fn
          (pack_coefficients M) (coefficient_offsets M) cv", rotated])
       (rule assemble_interior_facets_same [OF tc])
  show ?thesis
    unfolding assemble_integrals_def Let_def
  proof (rule same_assembly_then)
    show "same_assembly F
      (foldE (\<lambda>(value, m) (fn, active_cells).
           ebind (assemble_cells tc m active_cells fn (pack_coefficients M) cv)
             (\<lambda>(v, m'). Inr (value + v, m'))) (0, m1) (integrals M cell))
      (foldE (\<lambda>(value, m) (fn, active_cells).
           ebind (assemble_cells tc m active_cells fn (pack_coefficients M) cv)
             (\<lambda>(v, m'). Inr (value + v, m'))) (0, m2) (integrals M cell))"
      using g c1 c2 by (rule cells)
  next
    fix v :: 'a and n1 n2 :: "'r Mesh"
    assume n: "geometry n1 = geometry n2" "cached_from F (topology n1)"
      "cached_from F (topology n2)"
    show "same_assembly F
      (case (v, n1) of (value1, m1) \<Rightarrow>
         ebind (foldE (\<lambda>(value, m) (fn, active_facets).
                    ebind (assemble_exterior_facets tc m active_facets fn
                             (pack_coefficients M) cv)
                      (\<lambda>(v, m'). Inr (value + v, m')))
                  (value1, m1) (integrals M exterior_facet))
           (\<lambda>(value2, m2).
              foldE (\<lambda>(value, m) (fn, active_facets).
                    ebind (assemble_interior_facets tc junk m active_facets fn
                             (pack_coefficients M) (coefficient_offsets M) cv)
                      (\<lambda>(v, m'). Inr (value + v, m')))
                (value2, m2) (integrals M interior_facet)))
      (case (v, n2) of (value1, m1) \<Rightarrow>
         ebind (foldE (\<lambda>(value, m) (fn, active_facets).
                    ebind (assemble_exterior_facets tc m active_facets fn
                             (pack_coefficients M) cv)
                      (\<lambda>(v, m'). Inr (value + v, m')))
                  (value1, m1) (integrals M exterior_facet))
           (\<lambda>(value2, m2).
              foldE (\<lambda>(value, m) (fn, active_facets).
                    ebind (assemble_interior_facets tc junk m active_facets fn
                             (pack_coefficients M) (coefficient_offsets M) cv)
                      (\<lambda>(v, m'). Inr (value + v, m')))
                (value2, m2) (integrals M interior_facet)))"
      unfolding prod.case
    proof (rule same_assembly_then)
      show "same_assembly F
        (foldE (\<lambda>(value, m) (fn, active_facets).
             ebind (assemble_exterior_facets tc m active_facets fn (pack_coefficients M) cv)
               (\<lambda>(v, m'). Inr (value + v, m'))) (v, n1) (integrals M exterior_facet))
        (foldE (\<lambda>(value, m) (fn, active_facets).
             ebind (assemble_exterior_facets tc m active_facets fn (pack_coefficients M) cv)
               (\<lambda>(v, m'). Inr (value + v, m'))) (v, n2) (integrals M exterior_facet))"
        using n by (rule exterior)
    next
      fix w :: 'a and k1 k2 :: "'r Mesh"
      assume k: "geometry k1 = geometry k2" "cached_from F (topology k1)"
        "cached_from F (topology k2)"
      from interior [OF k]
      show "same_assembly F
        (case (w, k1) of (value2, m2) \<Rightarrow>
           foldE (\<lambda>(value, m) (fn, active_facets).
                 ebind (assemble_interior_facets tc junk m active_facets fn
                          (pack_coefficients M) (coefficient_offsets M) cv)
                   (\<lambda>(v, m'). Inr (value + v, m')))
             (value2, m2) (integrals M interior_facet))
        (case (w, k2) of (value2, m2) \<Rightarrow>
           foldE (\<lambda>(value, m) (fn, active_facets).
                 ebind (assemble_interior_facets tc junk m active_facets fn
                          (pack_coefficients M) (coefficient_offsets M) cv)
                   (\<lambda>(v, m'). Inr (value + v, m')))
             (value2, m2) (integrals M interior_facet))"
        by simp
    qed
  qed
qed

lemma precreate_cached_from:
  assumes tc: "computes F tc" and t: "cached_from F t"
  shows "\<exists>t'. precreate tc t = Inr t' \<and> cached_from F t'"
proof -
  from tc have dim: "0 \<le> t_dim F" "0 \<le> t_dim F - 1" "t_dim F - 1 \<le> t_dim F"
    by (simp_all add: computes_def)
  from t have td: "t_dim t = t_dim F"
    by (simp add: cached_from_def)
  from create_entities_cached_from [OF tc t dim(1)] obtain n1 t1
    where r1: "create_entities tc t (t_dim F) = Inr (n1, t1)" and c1: "cached_from F t1"
    by auto
  from create_entities_cached_from [OF tc c1 dim(2,3)] obtain n2 t2
    where r2: "create_entities tc t1 (t_dim F - 1) = Inr (n2, t2)" and c2: "cached_from F t2"
    by auto
  from create_connectivity_cached_from [OF tc c2] obtain t3
    where r3: "create_connectivity tc t2 (t_dim F - 1) (t_dim F) = Inr t3"
      and c3: "cached_from F t3"
    by auto
  from create_entity_permutations_cached_from [OF tc c3] obtain t4
    where r4: "create_entity_permutations tc t3 = Inr t4" and c4: "cached_from F t4"
    by auto
  from r1 r2 r3 r4 c4 show ?thesis
    by (simp add: precreate_def td)
qed

text \<open>
  C7.  Let the computations behind the mesh deliver parts of one complete topology
  \<open>F\<close>, and let the topology of the form's mesh cache a part of \<open>F\<close> (for one, the
  topology of a freshly created mesh, where nothing beyond the cells is cached).
  Then creating the cells, the facets, the facet-to-cell connectivity and the
  permutations beforehand succeeds, and assembling the form on the mesh as it is
  ends as assembling it on the pre-built mesh does: with the same value, or with the
  same error.  Each dispatcher reads only what it has itself got built.
\<close>

theorem assemble_lazy_equals_prebuilt:
  fixes M :: "('a::{zero,plus}, 'r) Form"
  assumes "computes F tc" and "cached_from F (topology msh)" and "mesh M = Some msh"
  shows "\<exists>t'. precreate tc (topology msh) = Inr t'
      \<and> map_sum id fst (assemble_scalar tc junk M)
          = map_sum id fst (assemble_scalar tc junk (M\<lparr>mesh := Some (msh\<lparr>topology := t'\<rparr>)\<rparr>))"
proof -
  from precreate_cached_from [OF assms(1,2)] obtain t'
    where pre: "precreate tc (topology msh) = Inr t'" and t': "cached_from F t'"
    by blast
  have "same_assembly F
      (assemble_integrals tc junk M msh (constant_values_of (constants M)))
      (assemble_integrals tc junk M (msh\<lparr>topology := t'\<rparr>)
         (constant_values_of (constants M)))"
    using assms(1,2) t' by (intro assemble_integrals_same) simp_all
  moreover have "assemble_integrals tc junk (M\<lparr>mesh := Some (msh\<lparr>topology := t'\<rparr>)\<rparr>) m cv
      = assemble_integrals tc junk M m cv" for m cv
    by (simp add: assemble_integrals_def)
  moreover have "all_constants_set (M\<lparr>mesh := Some (msh\<lparr>topology := t'\<rparr>)\<rparr>)
      = all_constants_set M"
    by (simp add: all_constants_set_def)
  moreover have "same_assembly F (Inl e) (Inl e :: error + 'a \<times> 'r Mesh)" for e
    by (simp add: same_assembly_def)
  ultimately have "same_assembly F (assemble_scalar tc junk M)
      (assemble_scalar tc junk (M\<lparr>mesh := Some (msh\<lparr>topology := t'\<rparr>)\<rparr>))"
    using assms(3) by (simp add: assemble_scalar_def)
  from pre same_assembly_value [OF this] show ?thesis
    by blast
qed

section \<open>Instances on the two-triangle mesh\<close>

theorem num_entities_not_created_or_count_witness:
  "num_entities two_triangles_mesh 1 = Inl (RuntimeError
     ''Cannot get number of mesh entities. Have not been created for dimension 1.'')
   \<and> num_entities two_triangles_mesh 2 = Inr 2
   \<and> num_entities many_entities_mesh 1 = Inr (- 2147483648)
   \<and> num_entities many_entities_mesh 2 = Inl (AssertionFailed ''map->block_size() == 1'')"
  using num_entities_not_created_or_count [where m = two_triangles_mesh and d = 1]
    num_entities_not_created_or_count [where m = two_triangles_mesh and d = 2
      and imap = "\<lparr>size_local = 2, num_ghosts = 0, size_global = 2, block_size = 1\<rparr>"]
    num_entities_not_created_or_count [where m = many_entities_mesh and d = 1
      and imap = "\<lparr>size_local = 2147483647, num_ghosts = 1, size_global = 2147483648,
        block_size = 1\<rparr>"]
    num_entities_not_created_or_count [where m = many_entities_mesh and d = 2
      and imap = "\<lparr>size_local = 1, num_ghosts = 0, size_global = 2, block_size = 2\<rparr>"]
  by (simp add: two_triangles_mesh_def two_triangles_initial_def many_entities_mesh_def
      to_string_def to_string_nat.simps [of 1] digit_char_def)

text \<open>
  An index map with \<open>2 ^ 31 - 1\<close> owned entities and one ghost: the count that
  \<open>num_entities\<close> returns is \<open>- 2 ^ 31\<close>, not \<open>size_local + num_ghosts\<close>.
\<close>

theorem num_entities_wraps:
  "index_map (topology many_entities_mesh) 1
     = Some \<lparr>size_local = 2147483647, num_ghosts = 1, size_global = 2147483648,
         block_size = 1\<rparr>
   \<and> num_entities many_entities_mesh 1 = Inr (- 2147483648)
   \<and> num_entities many_entities_mesh 1 \<noteq> Inr (2147483647 + 1)"
  by (simp add: num_entities_def many_entities_mesh_def)

theorem create_entities_cached_witness:
  "create_entities two_triangles_tc two_triangles_initial 2 = Inr (- 1, two_triangles_initial)
   \<and> (\<exists>t'. create_entities two_triangles_tc two_triangles_initial 1 = Inr (5, t')
         \<and> connectivity t' (2, 1) = Some [[2, 1, 0], [4, 3, 2]]
         \<and> connectivity t' (1, 0) = Some [[0, 1], [0, 2], [1, 2], [1, 3], [2, 3]]
         \<and> create_entities two_triangles_tc t' 1 = Inr (- 1, t'))"
proof -
  have present: "connectivity two_triangles_initial (2, 0) \<noteq> None"
    by (simp add: two_triangles_initial_def)
  have absent: "connectivity two_triangles_initial (1, 0) = None"
    by (simp add: two_triangles_initial_def)
  have computed: "compute_entities two_triangles_tc two_triangles_initial 1 =
      (Some [[2, 1, 0], [4, 3, 2]], Some [[0, 1], [0, 2], [1, 2], [1, 3], [2, 3]],
       Some \<lparr>size_local = 5, num_ghosts = 0, size_global = 5, block_size = 1\<rparr>)"
    by (simp add: two_triangles_tc_def complete_tc_def two_triangles_complete_def)
  from create_entities_cached [where t = two_triangles_initial and d = 2
      and tc = two_triangles_tc] present
  have first: "create_entities two_triangles_tc two_triangles_initial 2
      = Inr (- 1, two_triangles_initial)"
    by blast
  from create_entities_cached [where t = two_triangles_initial and d = 1
      and tc = two_triangles_tc and cell_entity = "[[2, 1, 0], [4, 3, 2]]"
      and entity_vertex = "[[0, 1], [0, 2], [1, 2], [1, 3], [2, 3]]"
      and imap = "\<lparr>size_local = 5, num_ghosts = 0, size_global = 5, block_size = 1\<rparr>"]
    absent computed
  obtain t' where "create_entities two_triangles_tc two_triangles_initial 1 = Inr (5, t')"
    and "connectivity t' =
      (connectivity two_triangles_initial)
        ((t_dim two_triangles_initial, 1) \<mapsto> [[2, 1, 0], [4, 3, 2]],
         (1, 0) \<mapsto> [[0, 1], [0, 2], [1, 2], [1, 3], [2, 3]])"
    and "create_entities two_triangles_tc t' 1 = Inr (- 1, t')"
    by (auto simp: two_triangles_initial_def)
  then show ?thesis
    using first by (auto simp: two_triangles_initial_def)
qed

theorem extremal_metrics_empty_or_extremum_witness:
  "hmin (\<lambda>m cells d. map (\<lambda>c. 10 - 3 * c) cells) no_cells_mesh
     = Inl (RuntimeError ''Cannot compute h min/max. No cells.'')
   \<and> rmax (\<lambda>m cells. map (\<lambda>c. 4 + c) cells) no_cells_mesh
     = Inl (RuntimeError ''Cannnot compute inradius min/max. No cells.'')
   \<and> hmin (\<lambda>m cells d. map (\<lambda>c. 10 - 3 * c) cells) two_triangles_mesh = Inr 7
   \<and> hmax (\<lambda>m cells d. map (\<lambda>c. 10 - 3 * c) cells) two_triangles_mesh = Inr 10
   \<and> rmin (\<lambda>m cells. map (\<lambda>c. 4 + c) cells) two_triangles_mesh = Inr 4
   \<and> rmax (\<lambda>m cells. map (\<lambda>c. 4 + c) cells) two_triangles_mesh = Inr 5"
proof -
  have zero: "num_entities no_cells_mesh (t_dim (topology no_cells_mesh)) = Inr 0"
    by (simp add: num_entities_def no_cells_mesh_def two_triangles_initial_def)
  have two: "num_entities two_triangles_mesh (t_dim (topology two_triangles_mesh)) = Inr 2"
    by (simp add: num_entities_def two_triangles_mesh_def two_triangles_initial_def)
  have cells: "map int [0..<nat 2] = [0, 1]"
    by (simp add: upt_rec)
  show ?thesis
    using extremal_metrics_empty_or_extremum
        [where m = no_cells_mesh and n = 0
           and h = "\<lambda>m cells d. map (\<lambda>c. 10 - 3 * c) cells"
           and inradius = "\<lambda>m cells. map (\<lambda>c. 4 + c) cells"]
      extremal_metrics_empty_or_extremum
        [where m = two_triangles_mesh and n = 2
           and h = "\<lambda>m cells d. map (\<lambda>c. 10 - 3 * c) cells"
           and inradius = "\<lambda>m cells. map (\<lambda>c. 4 + c) cells", unfolded cells]
      zero two
    by simp
qed

theorem assemble_scalar_no_integrals_witness:
  "assemble_scalar two_triangles_tc (\<lambda>_. 0) no_integrals_form = Inr (0, two_triangles_mesh)"
  using assemble_scalar_no_integrals [where M = no_integrals_form
      and msh = two_triangles_mesh and tc = two_triangles_tc and junk = "\<lambda>_. 0"]
  by (simp add: no_integrals_form_def all_constants_set_def)

theorem assemble_scalar_unset_constant_witness:
  "assemble_scalar two_triangles_tc (\<lambda>_. 0) unset_constant_form
     = Inl (RuntimeError ''Unset constant in Form'')
   \<and> assemble_scalar two_triangles_tc (\<lambda>_. 0) no_integrals_form
     = assemble_integrals two_triangles_tc (\<lambda>_. 0) no_integrals_form two_triangles_mesh [2]
   \<and> assemble_scalar two_triangles_tc (\<lambda>_. 0) no_integrals_form
     \<noteq> Inl (RuntimeError ''Unset constant in Form'')"
proof -
  have unset: "\<not> all_constants_set unset_constant_form"
    by (simp add: unset_constant_form_def all_constants_set_def)
  have allset: "all_constants_set no_integrals_form"
    by (simp add: no_integrals_form_def all_constants_set_def)
  have same: "unset_constant_form\<lparr>integrals := integrals unset_constant_form\<rparr>
      = unset_constant_form"
    by simp
  have vals: "constant_values_of (constants no_integrals_form) = [2]"
    by (simp add: no_integrals_form_def constant_values_of_def)
  have mesh1: "mesh unset_constant_form = Some two_triangles_mesh"
    by (simp add: unset_constant_form_def)
  have mesh2: "mesh no_integrals_form = Some two_triangles_mesh"
    by (simp add: no_integrals_form_def)
  from assemble_scalar_unset_constant [OF mesh1, of two_triangles_tc "\<lambda>_. 0"] unset
  have "\<forall>I. assemble_scalar two_triangles_tc (\<lambda>_. 0) (unset_constant_form\<lparr>integrals := I\<rparr>)
      = Inl (RuntimeError ''Unset constant in Form'')"
    by blast
  then have "assemble_scalar two_triangles_tc (\<lambda>_. 0)
      (unset_constant_form\<lparr>integrals := integrals unset_constant_form\<rparr>)
      = Inl (RuntimeError ''Unset constant in Form'')"
    by (rule spec)
  then have first: "assemble_scalar two_triangles_tc (\<lambda>_. 0) unset_constant_form
      = Inl (RuntimeError ''Unset constant in Form'')"
    by (simp only: same)
  from assemble_scalar_unset_constant [OF mesh2, of two_triangles_tc "\<lambda>_. 0"] allset
  have "assemble_scalar two_triangles_tc (\<lambda>_. 0) no_integrals_form
      = assemble_integrals two_triangles_tc (\<lambda>_. 0) no_integrals_form two_triangles_mesh
          (constant_values_of (constants no_integrals_form))
    \<and> assemble_scalar two_triangles_tc (\<lambda>_. 0) no_integrals_form
      \<noteq> Inl (RuntimeError ''Unset constant in Form'')"
    by blast
  with first show ?thesis
    unfolding vals by blast
qed

lemma two_triangles_cells_build:
  "create_entities two_triangles_tc two_triangles_initial 2 = Inr (- 1, two_triangles_initial)"
  "\<exists>t2. create_entity_permutations two_triangles_tc two_triangles_initial = Inr t2
        \<and> cell_permutation_info t2 = [3, 5]"
proof -
  show "create_entities two_triangles_tc two_triangles_initial 2
      = Inr (- 1, two_triangles_initial)"
    by (simp add: create_entities_def two_triangles_initial_def)
  have dims: "map int [0..<2] = [0, 1]"
    by (simp add: upt_rec)
  show "\<exists>t2. create_entity_permutations two_triangles_tc two_triangles_initial = Inr t2
        \<and> cell_permutation_info t2 = [3, 5]"
    by (simp add: create_entity_permutations_def create_entities_def dims
        two_triangles_initial_def two_triangles_tc_def complete_tc_def
        two_triangles_complete_def set_connectivity_def set_index_map_def)
qed

lemma two_triangles_cell_arguments:
  "cell_arguments two_triangles_geometry 3 [3, 5] two_triangles_coeffs 0
     = Inr ([1, 2, 3], [[0, 0], [1, 0], [0, 1]], 3)"
  "cell_arguments two_triangles_geometry 3 [3, 5] two_triangles_coeffs 1
     = Inr ([4, 5, 6], [[1, 0], [0, 1], [1, 1]], 5)"
proof -
  have dofs: "map int [0..<3] = [0, 1, 2]"
    by (simp add: upt_rec)
  show "cell_arguments two_triangles_geometry 3 [3, 5] two_triangles_coeffs 0
     = Inr ([1, 2, 3], [[0, 0], [1, 0], [0, 1]], 3)"
    by (simp add: cell_arguments_def links_def at_def gather_coordinate_dofs_def dofs
        head_n_def row_def two_triangles_geometry_def two_triangles_coeffs_def)
  show "cell_arguments two_triangles_geometry 3 [3, 5] two_triangles_coeffs 1
     = Inr ([4, 5, 6], [[1, 0], [0, 1], [1, 1]], 5)"
    by (simp add: cell_arguments_def links_def at_def gather_coordinate_dofs_def dofs
        head_n_def row_def two_triangles_geometry_def two_triangles_coeffs_def)
qed

lemma two_triangles_cell_coordinates:
  "cell_arguments two_triangles_geometry 3 [3, 5] (no_coefficients :: binary64 Array2D) 0
     = Inr ([], [[0, 0], [1, 0], [0, 1]], 3)"
  "cell_arguments two_triangles_geometry 3 [3, 5] (no_coefficients :: binary64 Array2D) 1
     = Inr ([], [[1, 0], [0, 1], [1, 1]], 5)"
proof -
  have dofs: "map int [0..<3] = [0, 1, 2]"
    by (simp add: upt_rec)
  show "cell_arguments two_triangles_geometry 3 [3, 5] (no_coefficients :: binary64 Array2D) 0
     = Inr ([], [[0, 0], [1, 0], [0, 1]], 3)"
    by (simp add: cell_arguments_def links_def at_def gather_coordinate_dofs_def dofs
        head_n_def row_def two_triangles_geometry_def no_coefficients_def)
  show "cell_arguments two_triangles_geometry 3 [3, 5] (no_coefficients :: binary64 Array2D) 1
     = Inr ([], [[1, 0], [0, 1], [1, 1]], 5)"
    by (simp add: cell_arguments_def links_def at_def gather_coordinate_dofs_def dofs
        head_n_def row_def two_triangles_geometry_def no_coefficients_def)
qed

theorem assemble_cells_running_sum_witness:
  "\<exists>m'. assemble_cells two_triangles_tc two_triangles_mesh [0, 1, 0]
          (\<lambda>A w c xs lf p i. A + 7) two_triangles_coeffs [2] = Inr (21 :: int, m')
      \<and> assemble_cells two_triangles_tc two_triangles_mesh [0, 1, 0]
          (\<lambda>A w c xs lf p i. 2 * A + hd w) two_triangles_coeffs [2] = Inr (13, m')
      \<and> assemble_cells two_triangles_tc two_triangles_mesh [0, 1]
          (\<lambda>A w c xs lf p i. A + Binary64 3602879701896397) no_coefficients []
          = Inr (Binary64 7205759403792794, m')"
proof -
  from two_triangles_cells_build(2) obtain t2
    where perms: "create_entity_permutations two_triangles_tc two_triangles_initial = Inr t2"
      and info: "cell_permutation_info t2 = [3, 5]"
    by blast
  have build: "create_entities two_triangles_tc (topology two_triangles_mesh)
      (t_dim (topology two_triangles_mesh)) = Inr (- 1, two_triangles_initial)"
    using two_triangles_cells_build(1)
    by (simp add: two_triangles_mesh_def two_triangles_initial_def)
  have n: "num_links (dofmap (geometry two_triangles_mesh)) 0 = Inr 3"
    by (simp add: num_links_def at_def two_triangles_mesh_def two_triangles_geometry_def)
  have gdim: "0 \<le> g_dim (geometry two_triangles_mesh)"
    by (simp add: two_triangles_mesh_def two_triangles_geometry_def)
  have cells: "\<forall>c\<in>set [0, 1, 0]. \<exists>a.
      cell_arguments (geometry two_triangles_mesh) 3 (cell_permutation_info t2)
        two_triangles_coeffs c = Inr a"
    using two_triangles_cell_arguments by (simp add: info two_triangles_mesh_def)
  have cells': "\<forall>c\<in>set [0, 1]. \<exists>a :: binary64 list \<times> int list list \<times> 32 word.
      cell_arguments (geometry two_triangles_mesh) 3 (cell_permutation_info t2)
        no_coefficients c = Inr a"
    using two_triangles_cell_coordinates by (simp add: info two_triangles_mesh_def)
  note ints = assemble_cells_running_sum [where k = "7 :: int" and cv = "[2]",
      OF build perms n gdim cells]
  note doubles = assemble_cells_running_sum [where k = "Binary64 3602879701896397" and cv = "[]",
      OF build perms n gdim cells']
  from ints [THEN conjunct2, THEN conjunct1, rule_format, of "\<lambda>j. int j * 7"]
  have a: "assemble_cells two_triangles_tc two_triangles_mesh [0, 1, 0]
      (\<lambda>A w c xs lf p i. A + 7) two_triangles_coeffs [2]
      = Inr (21 :: int, two_triangles_mesh\<lparr>topology := t2\<rparr>)"
    by (simp add: algebra_simps)
  from ints [THEN conjunct2, THEN conjunct2, rule_format, of "\<lambda>A w c xs lf p i. 2 * A + hd w"]
  have b: "assemble_cells two_triangles_tc two_triangles_mesh [0, 1, 0]
      (\<lambda>A w c xs lf p i. 2 * A + hd w) two_triangles_coeffs [2]
      = Inr (13, two_triangles_mesh\<lparr>topology := t2\<rparr>)"
    using two_triangles_cell_arguments by (simp add: info two_triangles_mesh_def)
  have exact: "\<forall>j<length [0, 1 :: int]. Binary64 (int j * 3602879701896397)
        + Binary64 3602879701896397 = Binary64 (int (Suc j) * 3602879701896397)"
  proof (intro allI impI)
    fix j :: nat
    assume "j < length [0, 1 :: int]"
    then consider "j = 0" | "j = 1"
      by fastforce
    then show "Binary64 (int j * 3602879701896397) + Binary64 3602879701896397
        = Binary64 (int (Suc j) * 3602879701896397)"
      by cases (simp_all add: round_binary64_def Let_def)
  qed
  from doubles [THEN conjunct2, THEN conjunct1, rule_format,
      of "\<lambda>j. Binary64 (int j * 3602879701896397)"] exact
  have c: "assemble_cells two_triangles_tc two_triangles_mesh [0, 1]
      (\<lambda>A w c xs lf p i. A + Binary64 3602879701896397) no_coefficients []
      = Inr (Binary64 7205759403792794, two_triangles_mesh\<lparr>topology := t2\<rparr>)"
    by (simp add: zero_binary64_def)
  from a b c show ?thesis
    by blast
qed

text \<open>
  Ten active cells and the kernel that adds the double with the significand of
  \<open>0.1\<close>, \<open>3602879701896397\<close> units: the running sum is \<open>36028797018963964\<close> units,
  which is neither ten times \<open>k\<close> (\<open>36028797018963970\<close>, not a double) nor that
  product rounded (\<open>36028797018963968\<close>).
\<close>

theorem assemble_cells_sum_rounds:
  "map_sum id fst (assemble_cells two_triangles_tc two_triangles_mesh
       [0, 1, 0, 1, 0, 1, 0, 1, 0, 1]
       (\<lambda>A w c xs lf p i. A + Binary64 3602879701896397) no_coefficients [])
     = Inr (Binary64 36028797018963964)
   \<and> Binary64 36028797018963964 \<noteq> Binary64 (10 * 3602879701896397)
   \<and> Binary64 36028797018963964 \<noteq> Binary64 (round_binary64 (10 * 3602879701896397))"
proof -
  from two_triangles_cells_build(2) obtain t2
    where perms: "create_entity_permutations two_triangles_tc two_triangles_initial = Inr t2"
      and info: "cell_permutation_info t2 = [3, 5]"
    by blast
  have build: "create_entities two_triangles_tc (topology two_triangles_mesh)
      (t_dim (topology two_triangles_mesh)) = Inr (- 1, two_triangles_initial)"
    using two_triangles_cells_build(1)
    by (simp add: two_triangles_mesh_def two_triangles_initial_def)
  have n: "num_links (dofmap (geometry two_triangles_mesh)) 0 = Inr 3"
    by (simp add: num_links_def at_def two_triangles_mesh_def two_triangles_geometry_def)
  have gdim: "0 \<le> g_dim (geometry two_triangles_mesh)"
    by (simp add: two_triangles_mesh_def two_triangles_geometry_def)
  have cells: "\<forall>c\<in>set [0, 1, 0, 1, 0, 1, 0, 1, 0, 1].
      \<exists>a :: binary64 list \<times> int list list \<times> 32 word.
        cell_arguments (geometry two_triangles_mesh) 3 (cell_permutation_info t2)
          no_coefficients c = Inr a"
    using two_triangles_cell_coordinates by (simp add: info two_triangles_mesh_def)
  have sum: "foldl (\<lambda>A c. A + Binary64 3602879701896397) 0
      [0, 1, 0, 1, 0, 1, 0, 1, 0, 1 :: int] = Binary64 36028797018963964"
    by (simp add: zero_binary64_def round_binary64_def Let_def)
  from assemble_cells_Inr_foldl [OF build perms n gdim cells,
      of "\<lambda>A w c xs lf p i. A + Binary64 3602879701896397" "[]"]
  have "assemble_cells two_triangles_tc two_triangles_mesh [0, 1, 0, 1, 0, 1, 0, 1, 0, 1]
       (\<lambda>A w c xs lf p i. A + Binary64 3602879701896397) no_coefficients []
     = Inr (Binary64 36028797018963964, two_triangles_mesh\<lparr>topology := t2\<rparr>)"
    unfolding case_prod_beta sum .
  then show ?thesis
    by (simp add: round_binary64_def Let_def)
qed

lemma pack_example:
  "pack_restricted [0, 1, 3] [1, 2, 3] [4, 5, 6] [9, 9, 9, 9, 9, 9 :: int]
     = Inr [1, 4, 2, 3, 5, 6]"
proof -
  have idx: "[0..<2] = [0, Suc 0]"
    by (simp add: upt_rec)
  show ?thesis
    by (simp add: pack_restricted_def idx pack_restricted_step_def at_def segment_assign_def)
qed

lemma two_triangles_interior_arguments:
  "interior_facet_arguments two_triangles_geometry 3 two_triangles_complete
      [[0], [0], [0, 1], [1], [1]] [[2, 1, 0], [4, 3, 2]] two_triangles_coeffs [0, 1, 3]
      [9, 9, 9, 9, 9, 9] 2
   = Inr ([1, 4, 2, 3, 5, 6],
          [[0, 0], [1, 0], [0, 1], [1, 0], [0, 1], [1, 1]], [0, 2], [1, 0], 3)"
proof -
  have dofs: "map int [0..<3] = [0, 1, 2]"
    by (simp add: upt_rec)
  have gather: "gather_coordinate_dofs two_triangles_geometry 3 [0, 1, 2]
        = Inr [[0, 0], [1, 0], [0, 1]]"
      "gather_coordinate_dofs two_triangles_geometry 3 [1, 2, 3]
        = Inr [[1, 0], [0, 1], [1, 1]]"
    by (simp_all add: gather_coordinate_dofs_def dofs at_def head_n_def
        two_triangles_geometry_def)
  have lf: "local_facet_index [[2, 1, 0], [4, 3, 2]] 0 2 = Inr 0"
      "local_facet_index [[2, 1, 0], [4, 3, 2]] 1 2 = Inr 2"
    by (simp_all add: local_facet_index_def links_def at_def)
  have dm: "links (dofmap two_triangles_geometry) 0 = Inr [0, 1, 2]"
      "links (dofmap two_triangles_geometry) 1 = Inr [1, 2, 3]"
    by (simp_all add: links_def at_def two_triangles_geometry_def)
  have rows: "row two_triangles_coeffs 0 = Inr [1, 2, 3]"
      "row two_triangles_coeffs 1 = Inr [4, 5, 6]"
    by (simp_all add: row_def at_def two_triangles_coeffs_def)
  have perms: "at2 (facet_permutations two_triangles_complete) 0 0 = Inr 1"
      "at2 (facet_permutations two_triangles_complete) 2 1 = Inr 0"
      "at (cell_permutation_info two_triangles_complete) 0 = Inr 3"
    by (simp_all add: at2_def at_def two_triangles_complete_def)
  have cells: "links [[0], [0], [0, 1], [1], [1]] 2 = Inr [0, 1]"
      "at [0, 1 :: int] 0 = Inr 0" "at [0, 1 :: int] 1 = Inr 1"
    by (simp_all add: links_def at_def)
  show ?thesis
    by (simp add: interior_facet_arguments_def cells lf dm gather rows perms pack_example)
qed

theorem interior_facet_coefficient_layout_witness:
  "pack_restricted [0, 1, 3] [1, 2, 3] [4, 5, 6] [9, 9, 9, 9, 9, 9 :: int]
     = Inr [1, 4, 2, 3, 5, 6]
   \<and> restriction_slice [0, 1, 3] [1, 4, 2, 3, 5, 6 :: int] 0 0 = [1]
   \<and> restriction_slice [0, 1, 3] [1, 4, 2, 3, 5, 6 :: int] 1 0 = [4]
   \<and> restriction_slice [0, 1, 3] [1, 4, 2, 3, 5, 6 :: int] 0 1 = [2, 3]
   \<and> restriction_slice [0, 1, 3] [1, 4, 2, 3, 5, 6 :: int] 1 1 = [5, 6]"
proof -
  have wf: "[0, 1, 3 :: int] \<noteq> []" "sorted [0, 1, 3 :: int]" "0 \<le> hd [0, 1, 3 :: int]"
    "last [0, 1, 3] \<le> int (length [1, 2, 3 :: int])"
    "last [0, 1, 3] \<le> int (length [4, 5, 6 :: int])"
    "length [9, 9, 9, 9, 9, 9 :: int] = nat (2 * last [0, 1, 3])"
    by simp_all
  from interior_facet_coefficient_layout [OF wf, where ?'r = int]
  have "\<exists>w. pack_restricted [0, 1, 3] [1, 2, 3] [4, 5, 6] [9, 9, 9, 9, 9, 9 :: int] = Inr w
      \<and> (\<forall>i. Suc i < length [0, 1, 3 :: int] \<longrightarrow>
            restriction_slice [0, 1, 3] w 0 i = coefficient_slice [0, 1, 3] [1, 2, 3] i
          \<and> restriction_slice [0, 1, 3] w 1 i = coefficient_slice [0, 1, 3] [4, 5, 6] i)"
    by blast
  then have slices: "\<forall>i. Suc i < length [0, 1, 3 :: int] \<longrightarrow>
        restriction_slice [0, 1, 3] [1, 4, 2, 3, 5, 6 :: int] 0 i
          = coefficient_slice [0, 1, 3] [1, 2, 3] i
      \<and> restriction_slice [0, 1, 3] [1, 4, 2, 3, 5, 6 :: int] 1 i
          = coefficient_slice [0, 1, 3] [4, 5, 6] i"
    by (simp add: pack_example)
  from slices [rule_format, of 0] slices [rule_format, of 1] pack_example show ?thesis
    by (simp add: coefficient_slice_def)
qed

lemma complete_tc_computes:
  assumes "1 \<le> t_dim F"
    and "connectivity F (t_dim F - 1, t_dim F) \<noteq> None"
    and "connectivity F (t_dim F, t_dim F - 1) \<noteq> None"
    and "\<forall>d. 0 \<le> d \<longrightarrow> d \<le> t_dim F \<longrightarrow> index_map F d \<noteq> None"
  shows "computes F (complete_tc F)"
  using assms
  by (auto simp: computes_def complete_tc_def entities_contract_def
      connectivity_contract_def permutations_contract_def)

lemma two_triangles_computes: "computes two_triangles_complete two_triangles_tc"
  unfolding two_triangles_tc_def
proof (rule complete_tc_computes)
  show "\<forall>d. 0 \<le> d \<longrightarrow> d \<le> t_dim two_triangles_complete
      \<longrightarrow> index_map two_triangles_complete d \<noteq> None"
  proof (intro allI impI)
    fix d :: int
    assume "0 \<le> d" "d \<le> t_dim two_triangles_complete"
    then have "d = 0 \<or> d = 1 \<or> d = 2"
      by (simp add: two_triangles_complete_def) linarith
    then show "index_map two_triangles_complete d \<noteq> None"
      by (auto simp: two_triangles_complete_def)
  qed
qed (simp_all add: two_triangles_complete_def)

lemma two_triangles_initial_cached:
  "cached_from two_triangles_complete two_triangles_initial"
  by (auto simp: cached_from_def two_triangles_complete_def two_triangles_initial_def
      split: if_splits)

lemma two_triangles_complete_cached:
  "cached_from two_triangles_complete two_triangles_complete"
  by (simp add: cached_from_def two_triangles_complete_def)


lemma two_triangles_complete_builds:
  "create_entities two_triangles_tc two_triangles_complete 2 = Inr (- 1, two_triangles_complete)"
  "create_entities two_triangles_tc two_triangles_complete 1 = Inr (- 1, two_triangles_complete)"
  "create_entities two_triangles_tc two_triangles_complete 0 = Inr (- 1, two_triangles_complete)"
  "create_connectivity two_triangles_tc two_triangles_complete 1 2 = Inr two_triangles_complete"
  "create_entity_permutations two_triangles_tc two_triangles_complete
     = Inr two_triangles_complete"
proof -
  show e2: "create_entities two_triangles_tc two_triangles_complete 2
      = Inr (- 1, two_triangles_complete)"
    by (rule create_entities_present) (simp add: two_triangles_complete_def)
  show e1: "create_entities two_triangles_tc two_triangles_complete 1
      = Inr (- 1, two_triangles_complete)"
    by (rule create_entities_present) (simp add: two_triangles_complete_def)
  show e0: "create_entities two_triangles_tc two_triangles_complete 0
      = Inr (- 1, two_triangles_complete)"
    by (rule create_entities_present) (simp add: two_triangles_complete_def)
  have cc: "compute_connectivity two_triangles_tc two_triangles_complete 1 2 = (None, None)"
    by (simp add: two_triangles_tc_def complete_tc_def two_triangles_complete_def)
  have same: "set_interior_facets two_triangles_complete
      (compute_interior_facets two_triangles_tc two_triangles_complete)
      = two_triangles_complete"
    by (simp add: set_interior_facets_def two_triangles_tc_def complete_tc_def)
  have dim: "t_dim two_triangles_complete = 2"
    by (simp add: two_triangles_complete_def)
  show "create_connectivity two_triangles_tc two_triangles_complete 1 2
      = Inr two_triangles_complete"
    by (simp add: create_connectivity_def e1 e2 cc same dim)
  have dims: "map int [0..<2] = [0, 1]"
    by (simp add: upt_rec)
  have perms: "topology_create_entity_permutations two_triangles_tc two_triangles_complete
      = two_triangles_complete"
    by (simp add: two_triangles_tc_def complete_tc_def)
  show "create_entity_permutations two_triangles_tc two_triangles_complete
     = Inr two_triangles_complete"
    by (simp add: create_entity_permutations_def dim dims e0 e1 perms)
qed


lemma two_triangles_gather:
  "gather_coordinate_dofs two_triangles_geometry 3 [0, 1, 2] = Inr [[0, 0], [1, 0], [0, 1]]"
  "gather_coordinate_dofs two_triangles_geometry 3 [1, 2, 3] = Inr [[1, 0], [0, 1], [1, 1]]"
proof -
  have dofs: "map int [0..<3] = [0, 1, 2]"
    by (simp add: upt_rec)
  show "gather_coordinate_dofs two_triangles_geometry 3 [0, 1, 2]
      = Inr [[0, 0], [1, 0], [0, 1]]"
    "gather_coordinate_dofs two_triangles_geometry 3 [1, 2, 3]
      = Inr [[1, 0], [0, 1], [1, 1]]"
    by (simp_all add: gather_coordinate_dofs_def dofs at_def head_n_def
        two_triangles_geometry_def)
qed

lemma two_triangles_exterior_arguments:
  "exterior_facet_arguments two_triangles_geometry 3 two_triangles_complete
      [[0], [0], [0, 1], [1], [1]] [[2, 1, 0], [4, 3, 2]] two_triangles_coeffs 0
   = Inr ([1, 2, 3], [[0, 0], [1, 0], [0, 1]], 2, 1, 3)"
  "exterior_facet_arguments two_triangles_geometry 3 two_triangles_complete
      [[0], [0], [0, 1], [1], [1]] [[2, 1, 0], [4, 3, 2]] two_triangles_coeffs 1
   = Inr ([1, 2, 3], [[0, 0], [1, 0], [0, 1]], 1, 0, 3)"
  "exterior_facet_arguments two_triangles_geometry 3 two_triangles_complete
      [[0], [0], [0, 1], [1], [1]] [[2, 1, 0], [4, 3, 2]] two_triangles_coeffs 3
   = Inr ([4, 5, 6], [[1, 0], [0, 1], [1, 1]], 1, 0, 5)"
  "exterior_facet_arguments two_triangles_geometry 3 two_triangles_complete
      [[0], [0], [0, 1], [1], [1]] [[2, 1, 0], [4, 3, 2]] two_triangles_coeffs 4
   = Inr ([4, 5, 6], [[1, 0], [0, 1], [1, 1]], 0, 0, 5)"
proof -
  have dm: "links (dofmap two_triangles_geometry) 0 = Inr [0, 1, 2]"
      "links (dofmap two_triangles_geometry) 1 = Inr [1, 2, 3]"
    by (simp_all add: links_def at_def two_triangles_geometry_def)
  have rows: "row two_triangles_coeffs 0 = Inr [1, 2, 3]"
      "row two_triangles_coeffs 1 = Inr [4, 5, 6]"
    by (simp_all add: row_def at_def two_triangles_coeffs_def)
  have fc: "links [[0], [0], [0, 1], [1], [1]] 0 = Inr [0]"
      "links [[0], [0], [0, 1], [1], [1]] 1 = Inr [0]"
      "links [[0], [0], [0, 1], [1], [1]] 3 = Inr [1]"
      "links [[0], [0], [0, 1], [1], [1]] 4 = Inr [1]"
    by (simp_all add: links_def at_def)
  have lf: "local_facet_index [[2, 1, 0], [4, 3, 2]] 0 0 = Inr 2"
      "local_facet_index [[2, 1, 0], [4, 3, 2]] 0 1 = Inr 1"
      "local_facet_index [[2, 1, 0], [4, 3, 2]] 1 3 = Inr 1"
      "local_facet_index [[2, 1, 0], [4, 3, 2]] 1 4 = Inr 0"
    by (simp_all add: local_facet_index_def links_def at_def)
  have perms: "at2 (facet_permutations two_triangles_complete) 2 0 = Inr 1"
      "at2 (facet_permutations two_triangles_complete) 1 0 = Inr 0"
      "at2 (facet_permutations two_triangles_complete) 1 1 = Inr 0"
      "at2 (facet_permutations two_triangles_complete) 0 1 = Inr 0"
      "at (cell_permutation_info two_triangles_complete) 0 = Inr 3"
      "at (cell_permutation_info two_triangles_complete) 1 = Inr 5"
    by (simp_all add: at2_def at_def two_triangles_complete_def)
  show "exterior_facet_arguments two_triangles_geometry 3 two_triangles_complete
      [[0], [0], [0, 1], [1], [1]] [[2, 1, 0], [4, 3, 2]] two_triangles_coeffs 0
   = Inr ([1, 2, 3], [[0, 0], [1, 0], [0, 1]], 2, 1, 3)"
    "exterior_facet_arguments two_triangles_geometry 3 two_triangles_complete
      [[0], [0], [0, 1], [1], [1]] [[2, 1, 0], [4, 3, 2]] two_triangles_coeffs 1
   = Inr ([1, 2, 3], [[0, 0], [1, 0], [0, 1]], 1, 0, 3)"
    "exterior_facet_arguments two_triangles_geometry 3 two_triangles_complete
      [[0], [0], [0, 1], [1], [1]] [[2, 1, 0], [4, 3, 2]] two_triangles_coeffs 3
   = Inr ([4, 5, 6], [[1, 0], [0, 1], [1, 1]], 1, 0, 5)"
    "exterior_facet_arguments two_triangles_geometry 3 two_triangles_complete
      [[0], [0], [0, 1], [1], [1]] [[2, 1, 0], [4, 3, 2]] two_triangles_coeffs 4
   = Inr ([4, 5, 6], [[1, 0], [0, 1], [1, 1]], 0, 0, 5)"
    by (simp_all add: exterior_facet_arguments_def num_links_of_links fc lf dm
        two_triangles_gather rows perms)
qed


lemma two_triangles_complete_cells:
  "assemble_cells two_triangles_tc (two_triangles_mesh\<lparr>topology := two_triangles_complete\<rparr>)
      [0, 1] (\<lambda>A w c xs lf p i. A + hd w) two_triangles_coeffs [2]
   = Inr (5, two_triangles_mesh\<lparr>topology := two_triangles_complete\<rparr>)"
proof -
  have dim: "t_dim two_triangles_complete = 2"
    and info: "cell_permutation_info two_triangles_complete = [3, 5]"
    by (simp_all add: two_triangles_complete_def)
  have n: "num_links (dofmap two_triangles_geometry) 0 = Inr 3"
    and gdim: "g_dim two_triangles_geometry = 2"
    by (simp_all add: num_links_def at_def two_triangles_geometry_def)
  show ?thesis
    by (simp add: assemble_cells_def two_triangles_mesh_def dim
        two_triangles_complete_builds n gdim allocate_def info assemble_cells_body_def
        two_triangles_cell_arguments)
qed

lemma two_triangles_complete_exterior:
  "assemble_exterior_facets two_triangles_tc
      (two_triangles_mesh\<lparr>topology := two_triangles_complete\<rparr>)
      [0, 1, 3, 4] (\<lambda>A w c xs lf p i. A + 10) two_triangles_coeffs [2]
   = Inr (40, two_triangles_mesh\<lparr>topology := two_triangles_complete\<rparr>)"
proof -
  have dim: "t_dim two_triangles_complete = 2"
    and conn: "require_connectivity two_triangles_complete 1 2 ''f_to_c''
        = Inr [[0], [0], [0, 1], [1], [1]]"
      "require_connectivity two_triangles_complete 2 1 ''c_to_f''
        = Inr [[2, 1, 0], [4, 3, 2]]"
    by (simp_all add: two_triangles_complete_def require_connectivity_def)
  have n: "num_links (dofmap two_triangles_geometry) 0 = Inr 3"
    and gdim: "g_dim two_triangles_geometry = 2"
    by (simp_all add: num_links_def at_def two_triangles_geometry_def)
  show ?thesis
    by (simp add: assemble_exterior_facets_def two_triangles_mesh_def dim
        two_triangles_complete_builds n gdim allocate_def conn
        assemble_exterior_facets_body_def two_triangles_exterior_arguments)
qed

lemma two_triangles_complete_interior:
  "assemble_interior_facets two_triangles_tc (\<lambda>_. 9)
      (two_triangles_mesh\<lparr>topology := two_triangles_complete\<rparr>)
      [2] fn two_triangles_coeffs [0, 1, 3] [2]
   = Inr (fn 0 [1, 4, 2, 3, 5, 6] [2] [[0, 0], [1, 0], [0, 1], [1, 0], [0, 1], [1, 1]]
            (Some [0, 2]) (Some [1, 0]) 3,
          two_triangles_mesh\<lparr>topology := two_triangles_complete\<rparr>)"
proof -
  have dim: "t_dim two_triangles_complete = 2"
    and conn: "require_connectivity two_triangles_complete 1 2 ''f_to_c''
        = Inr [[0], [0], [0, 1], [1], [1]]"
      "require_connectivity two_triangles_complete 2 1 ''c_to_f''
        = Inr [[2, 1, 0], [4, 3, 2]]"
    by (simp_all add: two_triangles_complete_def require_connectivity_def)
  have n: "num_links (dofmap two_triangles_geometry) 0 = Inr 3"
    and gdim: "g_dim two_triangles_geometry = 2"
    by (simp_all add: num_links_def at_def two_triangles_geometry_def)
  have buf: "new_coeff_array (\<lambda>_. 9 :: int) [0, 1, 3] = Inr [9, 9, 9, 9, 9, 9]"
    by (simp add: new_coeff_array_def allocate_def upt_rec)
  have cols: "cols two_triangles_coeffs = 3"
    by (simp add: two_triangles_coeffs_def)
  show ?thesis
    by (simp add: assemble_interior_facets_def two_triangles_mesh_def dim
        two_triangles_complete_builds n gdim allocate_def conn buf cols
        assemble_interior_facets_body_def two_triangles_interior_arguments)
qed

lemma three_integrals_complete:
  "assemble_integrals two_triangles_tc (\<lambda>_. 9) three_integrals_form
      (two_triangles_mesh\<lparr>topology := two_triangles_complete\<rparr>) [2]
   = Inr (445, two_triangles_mesh\<lparr>topology := two_triangles_complete\<rparr>)"
  by (simp add: assemble_integrals_def three_integrals_form_def
      two_triangles_complete_cells two_triangles_complete_exterior
      two_triangles_complete_interior)

theorem assemble_lazy_equals_prebuilt_witness:
  "\<exists>t'. precreate two_triangles_tc two_triangles_initial = Inr t'
     \<and> map_sum id fst (assemble_scalar two_triangles_tc (\<lambda>_. 9) three_integrals_form)
         = Inr 445
     \<and> map_sum id fst (assemble_scalar two_triangles_tc (\<lambda>_. 9)
         (three_integrals_form\<lparr>mesh := Some (two_triangles_mesh\<lparr>topology := t'\<rparr>)\<rparr>))
         = Inr 445"
proof -
  have top: "topology two_triangles_mesh = two_triangles_initial"
    and msh: "mesh three_integrals_form = Some two_triangles_mesh"
    and cv: "constant_values_of (constants three_integrals_form) = [2]"
    and set: "all_constants_set three_integrals_form"
    by (simp_all add: two_triangles_mesh_def three_integrals_form_def constant_values_of_def
        all_constants_set_def)
  have cached: "cached_from two_triangles_complete (topology two_triangles_mesh)"
    using two_triangles_initial_cached by (simp add: top)
  have "same_assembly two_triangles_complete
      (assemble_integrals two_triangles_tc (\<lambda>_. 9) three_integrals_form two_triangles_mesh [2])
      (assemble_integrals two_triangles_tc (\<lambda>_. 9) three_integrals_form
         (two_triangles_mesh\<lparr>topology := two_triangles_complete\<rparr>) [2])"
    using two_triangles_computes cached two_triangles_complete_cached
    by (intro assemble_integrals_same) simp_all
  from same_assembly_value [OF this]
  have lazy: "map_sum id fst (assemble_scalar two_triangles_tc (\<lambda>_. 9) three_integrals_form)
      = Inr 445"
    by (simp add: assemble_scalar_def msh set cv three_integrals_complete)
  from assemble_lazy_equals_prebuilt [OF two_triangles_computes cached msh,
      where junk = "\<lambda>_. 9"]
  show ?thesis
    by (auto simp: top lazy)
qed

theorem facet_assembly_inconsistent_topology_witness:
  "assemble_exterior_facets_body two_triangles_geometry 3 two_triangles_complete
      [[0], [0], [0, 1], [1], [1]] [[2, 1, 0], [4, 3, 2]]
      (\<lambda>A w c xs lf p i. A + 1) two_triangles_coeffs [2] (0 :: int) 2
    = Inl (AssertionFailed ''f_to_c->num_links(facet) == 1'')
   \<and> assemble_exterior_facets_body two_triangles_geometry 3 two_triangles_complete
      [[0], [0], [0, 1], [1], [1]] [[2, 1], [4, 3, 2]]
      (\<lambda>A w c xs lf p i. A + 1) two_triangles_coeffs [2] (0 :: int) 0
    = Inl (AssertionFailed ''it != (facets.data() + facets.rows())'')
   \<and> assemble_interior_facets_body two_triangles_geometry 3 two_triangles_complete
      [[0], [0], [0, 1], [1], [1]] [[2, 1, 0], [4, 3, 2]]
      (\<lambda>A w c xs lf p i. A + 1) two_triangles_coeffs [0, 1, 3] [2]
      (0 :: int, [9, 9, 9, 9, 9, 9]) 0
    = Inl (AssertionFailed ''cells.rows() == 2'')
   \<and> assemble_interior_facets_body two_triangles_geometry 3 two_triangles_complete
      [[0], [0], [0, 1], [1], [1]] [[1, 0], [4, 3, 2]]
      (\<lambda>A w c xs lf p i. A + 1) two_triangles_coeffs [0, 1, 3] [2]
      (0 :: int, [9, 9, 9, 9, 9, 9]) 2
    = Inl (AssertionFailed ''it != (facets.data() + facets.rows())'')
   \<and> assemble_interior_facets_body two_triangles_geometry 3 two_triangles_complete
      [[0], [0], [0, 1], [1], [1]] [[2, 1, 0], [4, 3]]
      (\<lambda>A w c xs lf p i. A + 1) two_triangles_coeffs [0, 1, 3] [2]
      (0 :: int, [9, 9, 9, 9, 9, 9]) 2
    = Inl (AssertionFailed ''it != (facets.data() + facets.rows())'')
   \<and> assemble_exterior_facets two_triangles_tc
        (two_triangles_mesh\<lparr>topology := two_triangles_complete\<rparr>)
        [0, 1, 3, 4] (\<lambda>A w c xs lf p i. A + 10) two_triangles_coeffs [2]
      = Inr (40, two_triangles_mesh\<lparr>topology := two_triangles_complete\<rparr>)
   \<and> (\<exists>c facets. links [[0], [0], [0, 1], [1], [1]] 3 = Inr [c]
         \<and> links [[2, 1, 0], [4, 3, 2]] c = Inr facets \<and> 3 \<in> set facets)
   \<and> assemble_interior_facets two_triangles_tc (\<lambda>_. 9)
        (two_triangles_mesh\<lparr>topology := two_triangles_complete\<rparr>)
        [2] (\<lambda>A w c xs lf p i. A + 100 * hd (tl w)) two_triangles_coeffs [0, 1, 3] [2]
      = Inr (400, two_triangles_mesh\<lparr>topology := two_triangles_complete\<rparr>)
   \<and> (\<exists>c0 c1 facets0 facets1. links [[0], [0], [0, 1], [1], [1]] 2 = Inr [c0, c1]
         \<and> links [[2, 1, 0], [4, 3, 2]] c0 = Inr facets0 \<and> 2 \<in> set facets0
         \<and> links [[2, 1, 0], [4, 3, 2]] c1 = Inr facets1 \<and> 2 \<in> set facets1)"
proof -
  have l2: "links [[0], [0], [0, 1], [1], [1]] 2 = Inr [0, 1]" "length [0, 1 :: int] \<noteq> 1"
    and l0: "links [[0], [0], [0, 1], [1], [1]] 0 = Inr [0]" "length [0 :: int] \<noteq> 2"
    and c0: "links [[2, 1], [4, 3, 2]] 0 = Inr [2, 1]" "0 \<notin> set [2, 1 :: int]"
    and c1: "links [[2, 1, 0], [4, 3]] 0 = Inr [2, 1, 0]" "2 \<in> set [2, 1, 0 :: int]"
      "links [[2, 1, 0], [4, 3]] 1 = Inr [4, 3]" "2 \<notin> set [4, 3 :: int]"
    and c2: "links [[1, 0], [4, 3, 2]] 0 = Inr [1, 0]" "2 \<notin> set [1, 0 :: int]"
    by (simp_all add: links_def at_def)
  have interior: "assemble_interior_facets two_triangles_tc (\<lambda>_. 9)
        (two_triangles_mesh\<lparr>topology := two_triangles_complete\<rparr>)
        [2] (\<lambda>A w c xs lf p i. A + 100 * hd (tl w)) two_triangles_coeffs [0, 1, 3] [2]
      = Inr (400, two_triangles_mesh\<lparr>topology := two_triangles_complete\<rparr>)"
    by (simp add: two_triangles_complete_interior)
  note inst = facet_assembly_inconsistent_topology
    [where g = two_triangles_geometry and n = 3 and t = two_triangles_complete
       and f_to_c = "[[0], [0], [0, 1], [1], [1]]"
       and coeffs = two_triangles_coeffs
       and cv = "[2]" and A = "0 :: int" and offsets = "[0, 1, 3]"
       and buf = "[9, 9, 9, 9, 9, 9]"
       and tc = two_triangles_tc and junk = "\<lambda>_. 9"
       and msh = "two_triangles_mesh\<lparr>topology := two_triangles_complete\<rparr>"]
  note body = inst [where fn = "\<lambda>A w c xs lf p i. A + 1" and active_facets = "[]"]
  from body [where facet = 2 and c_to_f = "[[2, 1, 0], [4, 3, 2]]"] l2
  have a: "assemble_exterior_facets_body two_triangles_geometry 3 two_triangles_complete
      [[0], [0], [0, 1], [1], [1]] [[2, 1, 0], [4, 3, 2]]
      (\<lambda>A w c xs lf p i. A + 1) two_triangles_coeffs [2] (0 :: int) 2
    = Inl (AssertionFailed ''f_to_c->num_links(facet) == 1'')"
    by blast
  from body [where facet = 0 and c_to_f = "[[2, 1], [4, 3, 2]]"] l0(1) c0
  have b: "assemble_exterior_facets_body two_triangles_geometry 3 two_triangles_complete
      [[0], [0], [0, 1], [1], [1]] [[2, 1], [4, 3, 2]]
      (\<lambda>A w c xs lf p i. A + 1) two_triangles_coeffs [2] (0 :: int) 0
    = Inl (AssertionFailed ''it != (facets.data() + facets.rows())'')"
    by blast
  from body [where facet = 0 and c_to_f = "[[2, 1, 0], [4, 3, 2]]"] l0
  have c: "assemble_interior_facets_body two_triangles_geometry 3 two_triangles_complete
      [[0], [0], [0, 1], [1], [1]] [[2, 1, 0], [4, 3, 2]]
      (\<lambda>A w c xs lf p i. A + 1) two_triangles_coeffs [0, 1, 3] [2]
      (0 :: int, [9, 9, 9, 9, 9, 9]) 0
    = Inl (AssertionFailed ''cells.rows() == 2'')"
    by blast
  from body [where facet = 2 and c_to_f = "[[1, 0], [4, 3, 2]]"] l2(1) c2
  have d0: "assemble_interior_facets_body two_triangles_geometry 3 two_triangles_complete
      [[0], [0], [0, 1], [1], [1]] [[1, 0], [4, 3, 2]]
      (\<lambda>A w c xs lf p i. A + 1) two_triangles_coeffs [0, 1, 3] [2]
      (0 :: int, [9, 9, 9, 9, 9, 9]) 2
    = Inl (AssertionFailed ''it != (facets.data() + facets.rows())'')"
    by blast
  from body [where facet = 2 and c_to_f = "[[2, 1, 0], [4, 3]]"] l2(1) c1
  have d1: "assemble_interior_facets_body two_triangles_geometry 3 two_triangles_complete
      [[0], [0], [0, 1], [1], [1]] [[2, 1, 0], [4, 3]]
      (\<lambda>A w c xs lf p i. A + 1) two_triangles_coeffs [0, 1, 3] [2]
      (0 :: int, [9, 9, 9, 9, 9, 9]) 2
    = Inl (AssertionFailed ''it != (facets.data() + facets.rows())'')"
    by blast
  have conn: "connectivity (topology (two_triangles_mesh\<lparr>topology := two_triangles_complete\<rparr>))
        (t_dim (topology (two_triangles_mesh\<lparr>topology := two_triangles_complete\<rparr>)) - 1,
         t_dim (topology (two_triangles_mesh\<lparr>topology := two_triangles_complete\<rparr>)))
      = Some [[0], [0], [0, 1], [1], [1]]"
    "connectivity (topology (two_triangles_mesh\<lparr>topology := two_triangles_complete\<rparr>))
        (t_dim (topology (two_triangles_mesh\<lparr>topology := two_triangles_complete\<rparr>)),
         t_dim (topology (two_triangles_mesh\<lparr>topology := two_triangles_complete\<rparr>)) - 1)
      = Some [[2, 1, 0], [4, 3, 2]]"
    by (simp_all add: two_triangles_complete_def)
  note ext = inst [where fn = "\<lambda>A w c xs lf p i. A + 10" and active_facets = "[0, 1, 3, 4]"
      and facet = 0 and c_to_f = "[]"]
  from ext [THEN conjunct2, THEN conjunct2, THEN conjunct2, THEN conjunct2, THEN conjunct2,
      THEN conjunct1, rule_format, OF two_triangles_complete_exterior]
  have "\<forall>f\<in>set [0, 1, 3, 4 :: int]. \<exists>c facets.
      links [[0], [0], [0, 1], [1], [1]] f = Inr [c]
      \<and> links [[2, 1, 0], [4, 3, 2]] c = Inr facets \<and> f \<in> set facets"
    unfolding conn by blast
  then have e: "\<exists>c facets. links [[0], [0], [0, 1], [1], [1]] 3 = Inr [c]
      \<and> links [[2, 1, 0], [4, 3, 2]] c = Inr facets \<and> 3 \<in> set facets"
    by simp
  note inner = inst [where fn = "\<lambda>A w c xs lf p i. A + 100 * hd (tl w)"
      and active_facets = "[2]" and facet = 0 and c_to_f = "[]"]
  from inner [THEN conjunct2, THEN conjunct2, THEN conjunct2, THEN conjunct2, THEN conjunct2,
      THEN conjunct2, rule_format, OF interior]
  have "\<forall>f\<in>set [2 :: int]. \<exists>c0 c1 facets0 facets1.
      links [[0], [0], [0, 1], [1], [1]] f = Inr [c0, c1]
      \<and> links [[2, 1, 0], [4, 3, 2]] c0 = Inr facets0 \<and> f \<in> set facets0
      \<and> links [[2, 1, 0], [4, 3, 2]] c1 = Inr facets1 \<and> f \<in> set facets1"
    unfolding conn by blast
  then have i: "\<exists>c0 c1 facets0 facets1. links [[0], [0], [0, 1], [1], [1]] 2 = Inr [c0, c1]
      \<and> links [[2, 1, 0], [4, 3, 2]] c0 = Inr facets0 \<and> 2 \<in> set facets0
      \<and> links [[2, 1, 0], [4, 3, 2]] c1 = Inr facets1 \<and> 2 \<in> set facets1"
    by simp
  from a b c d0 d1 e i two_triangles_complete_exterior interior
  show ?thesis
    by blast
qed

theorem interior_facet_kernel_call_witness:
  "assemble_interior_facets two_triangles_tc (\<lambda>_. 9)
      (two_triangles_mesh\<lparr>topology := two_triangles_complete\<rparr>) [2]
      (\<lambda>A w c xs lf p i. A + 100000 * hd w + 10000 * hd (hd xs) + 1000 * last (the lf)
           + 100 * int (unat (hd (the p))) + 10 * int (unat (last (the p))) + int (unat i))
      two_triangles_coeffs [0, 1, 3] [2]
    = Inr (102103, two_triangles_mesh\<lparr>topology := two_triangles_complete\<rparr>)
   \<and> (\<exists>w xs. 102103
         = (\<lambda>A w c xs lf p i. A + 100000 * hd w + 10000 * hd (hd xs) + 1000 * last (the lf)
              + 100 * int (unat (hd (the p))) + 10 * int (unat (last (the p))) + int (unat i))
             0 w [2 :: int] xs (Some [0, 2]) (Some [1, 0 :: 8 word]) (3 :: 32 word))
   \<and> assemble_interior_facets_body two_triangles_geometry 3 two_triangles_complete
      [[0], [0], [0, 1], [1], [1]] [[2, 1, 0], [4, 3, 2]]
      (\<lambda>A w c xs lf p i. 100 * A + 10 * int (unat i) + hd (the lf)) two_triangles_coeffs
      [0, 1, 3] [2] (1, [9, 9, 9, 9, 9, 9]) 2
    = Inr (130, [1, 4, 2, 3, 5, 6])
   \<and> assemble_interior_facets_body two_triangles_geometry 3
      (two_triangles_complete\<lparr>cell_permutation_info := [3, 7]\<rparr>)
      [[0], [0], [0, 1], [1], [1]] [[2, 1, 0], [4, 3, 2]]
      (\<lambda>A w c xs lf p i. 100 * A + 10 * int (unat i) + hd (the lf)) two_triangles_coeffs
      [0, 1, 3] [2] (1, [9, 9, 9, 9, 9, 9]) 2
    = Inr (130, [1, 4, 2, 3, 5, 6])"
proof -
  let ?K = "\<lambda>(A :: int) (w :: int list) (c :: int list) (xs :: int list list) lf p i.
      A + 100000 * hd w + 10000 * hd (hd xs) + 1000 * last (the lf)
        + 100 * int (unat (hd (the p :: 8 word list)))
        + 10 * int (unat (last (the p))) + int (unat (i :: 32 word))"
  let ?M = "two_triangles_mesh\<lparr>topology := two_triangles_complete\<rparr>"
  have dispatch: "assemble_interior_facets two_triangles_tc (\<lambda>_. 9) ?M [2] ?K
      two_triangles_coeffs [0, 1, 3] [2] = Inr (102103, ?M)"
    by (simp add: two_triangles_complete_interior)
  from interior_facet_kernel_call [THEN conjunct1, rule_format, OF dispatch]
  obtain fc cf calls
    where fc: "connectivity (topology ?M) (t_dim (topology ?M) - 1, t_dim (topology ?M))
        = Some fc"
      and cf: "connectivity (topology ?M) (t_dim (topology ?M), t_dim (topology ?M) - 1)
        = Some cf"
      and v: "102103 = foldl (\<lambda>A (w, xs, lf, p, info). ?K A w [2] xs (Some lf) (Some p) info)
        0 calls"
      and all: "list_all2 (\<lambda>f (w, xs, lf, p, info).
           \<exists>cell0 cell1 facets0 facets1 perm0 perm1.
               links fc f = Inr [cell0, cell1]
             \<and> links cf cell0 = Inr facets0 \<and> f \<in> set facets0
             \<and> links cf cell1 = Inr facets1 \<and> f \<in> set facets1
             \<and> lf = [int (std_find facets0 f), int (std_find facets1 f)]
             \<and> at2 (facet_permutations (topology ?M)) (int (std_find facets0 f)) cell0
                 = Inr perm0
             \<and> at2 (facet_permutations (topology ?M)) (int (std_find facets1 f)) cell1
                 = Inr perm1
             \<and> p = [perm0, perm1]
             \<and> at (cell_permutation_info (topology ?M)) cell0 = Inr info)
           [2] calls"
    by blast
  from fc cf have conn: "fc = [[0], [0], [0, 1], [1], [1]]" "cf = [[2, 1, 0], [4, 3, 2]]"
    by (simp_all add: two_triangles_complete_def)
  from all obtain w xs lf p info cell0 cell1 facets0 facets1 perm0 perm1
    where calls: "calls = [(w, xs, lf, p, info)]"
      and cells: "links fc 2 = Inr [cell0, cell1]"
      and f0: "links cf cell0 = Inr facets0" and f1: "links cf cell1 = Inr facets1"
      and lf: "lf = [int (std_find facets0 2), int (std_find facets1 2)]"
      and p0: "at2 (facet_permutations (topology ?M)) (int (std_find facets0 2)) cell0
          = Inr perm0"
      and p1: "at2 (facet_permutations (topology ?M)) (int (std_find facets1 2)) cell1
          = Inr perm1"
      and p: "p = [perm0, perm1]"
      and info: "at (cell_permutation_info (topology ?M)) cell0 = Inr info"
    by (auto simp: list_all2_Cons1)
  from cells have c: "cell0 = 0" "cell1 = 1"
    by (simp_all add: conn links_def at_def)
  from f0 f1 have f: "facets0 = [2, 1, 0]" "facets1 = [4, 3, 2]"
    by (simp_all add: conn c links_def at_def)
  from lf have lf': "lf = [0, 2]"
    by (simp add: f)
  from p0 p1 p have p': "p = [1, 0]"
    by (simp add: f c at2_def at_def two_triangles_complete_def)
  from info have info': "info = 3"
    by (simp add: c at_def two_triangles_complete_def)
  from v have called: "\<exists>w xs. 102103 = ?K 0 w [2] xs (Some [0, 2]) (Some [1, 0]) 3"
    unfolding calls lf' p' info' by (intro exI [of _ w] exI [of _ xs]) simp
  have run: "assemble_interior_facets_body two_triangles_geometry 3 two_triangles_complete
      [[0], [0], [0, 1], [1], [1]] [[2, 1, 0], [4, 3, 2]]
      (\<lambda>A w c xs lf p i. 100 * A + 10 * int (unat i) + hd (the lf)) two_triangles_coeffs
      [0, 1, 3] [2] (1, [9, 9, 9, 9, 9, 9]) 2
    = Inr (130, [1, 4, 2, 3, 5, 6])"
    by (simp add: assemble_interior_facets_body_def two_triangles_interior_arguments)
  have l2: "links [[0], [0], [0, 1], [1], [1]] 2 = Inr [0, 1]"
    by (simp add: links_def at_def)
  from interior_facet_kernel_call [THEN conjunct2, rule_format, OF run] l2
  have "\<forall>v. assemble_interior_facets_body two_triangles_geometry 3
      (two_triangles_complete\<lparr>cell_permutation_info :=
         (cell_permutation_info two_triangles_complete)[nat 1 := v]\<rparr>)
      [[0], [0], [0, 1], [1], [1]] [[2, 1, 0], [4, 3, 2]]
      (\<lambda>A w c xs lf p i. 100 * A + 10 * int (unat i) + hd (the lf)) two_triangles_coeffs
      [0, 1, 3] [2] (1, [9, 9, 9, 9, 9, 9]) 2
    = Inr (130, [1, 4, 2, 3, 5, 6])"
    by auto
  from this [rule_format, of 7] have other: "assemble_interior_facets_body
      two_triangles_geometry 3 (two_triangles_complete\<lparr>cell_permutation_info := [3, 7]\<rparr>)
      [[0], [0], [0, 1], [1], [1]] [[2, 1, 0], [4, 3, 2]]
      (\<lambda>A w c xs lf p i. 100 * A + 10 * int (unat i) + hd (the lf)) two_triangles_coeffs
      [0, 1, 3] [2] (1, [9, 9, 9, 9, 9, 9]) 2
    = Inr (130, [1, 4, 2, 3, 5, 6])"
    by (simp add: two_triangles_complete_def)
  from dispatch called run other show ?thesis
    by (intro conjI)
qed

end
